(* ===== verification/Prelude.thy ===== *)
theory Prelude
  imports Complex_Main
begin

text \<open>
  Generic vocabulary shared by every component: the collections of rules the component
  proofs use, JavaScript's \<open>Array.prototype.findIndex\<close>, insertion-ordered dictionaries
  (the property list of a plain object, or a \<open>Map\<close>) and the few list lemmas that more
  than one theory needs. Nothing here models a file of the repository.
\<close>

named_theorems step_simps \<open>equations that evaluate one step of a component\<close>
named_theorems inv_intros \<open>an operation keeps the invariant of its component\<close>

section \<open>findIndex\<close>

text \<open>\<open>xs.findIndex(p)\<close>: the first index that satisfies the predicate, None for \<open>-1\<close>.\<close>

fun find_index :: "('a \<Rightarrow> bool) \<Rightarrow> 'a list \<Rightarrow> nat option" where
  "find_index p [] = None"
| "find_index p (x # xs) = (if p x then Some 0 else map_option Suc (find_index p xs))"

lemma find_index_None_iff: "find_index p xs = None \<longleftrightarrow> (\<forall>x \<in> set xs. \<not> p x)"
  by (induction xs) auto

lemma find_index_SomeD:
  "find_index p xs = Some i \<Longrightarrow> i < length xs \<and> p (xs ! i) \<and> (\<forall>j < i. \<not> p (xs ! j))"
proof (induction xs arbitrary: i)
  case Nil
  then show ?case by simp
next
  case (Cons x xs)
  then show ?case
    by (auto split: if_splits simp: less_Suc_eq_0_disj)
qed

section \<open>Insertion-ordered dictionaries\<close>

text \<open>
  A plain object or a \<open>Map\<close> is the list of its entries in insertion order. Writing an
  existing key keeps its place, a new key goes to the end.
\<close>

type_synonym ('k, 'v) dict = "('k \<times> 'v) list"

abbreviation dict_get :: "('k, 'v) dict \<Rightarrow> 'k \<Rightarrow> 'v option" where
  "dict_get \<equiv> map_of"

fun dict_set :: "('k, 'v) dict \<Rightarrow> 'k \<Rightarrow> 'v \<Rightarrow> ('k, 'v) dict" where
  "dict_set [] k v = [(k, v)]"
| "dict_set ((k', v') # d) k v =
     (if k' = k then (k, v) # d else (k', v') # dict_set d k v)"

text \<open>\<open>Object.assign(target, source)\<close>, and \<open>{ ...target, ...source }\<close>.\<close>

definition dict_assign :: "('k, 'v) dict \<Rightarrow> ('k, 'v) dict \<Rightarrow> ('k, 'v) dict" where
  "dict_assign target source = fold (\<lambda>(k, v) d. dict_set d k v) source target"

abbreviation dict_wf :: "('k, 'v) dict \<Rightarrow> bool" where
  "dict_wf d \<equiv> distinct (map fst d)"

lemma dict_get_set [simp]: "dict_get (dict_set d k v) = (dict_get d)(k \<mapsto> v)"
  by (induction d k v rule: dict_set.induct) (auto simp: fun_eq_iff)

lemma keys_dict_set [simp]: "fst ` set (dict_set d k v) = insert k (fst ` set d)"
  by (induction d k v rule: dict_set.induct) auto

lemma dict_set_nonempty [simp]: "dict_set d k v \<noteq> []"
  by (cases "(d, k, v)" rule: dict_set.cases) auto

lemma dict_wf_set [simp, inv_intros]: "dict_wf d \<Longrightarrow> dict_wf (dict_set d k v)"
proof (induction d k v rule: dict_set.induct)
  case (1 k v)
  then show ?case by simp
next
  case (2 k' v' d k v)
  have "set (map fst (dict_set d k v)) = insert k (fst ` set d)"
    using keys_dict_set [of d k v] by (simp add: image_image)
  with 2 show ?case by auto
qed

lemma dict_assign_Nil [simp]: "dict_assign d [] = d"
  by (simp add: dict_assign_def)

lemma dict_assign_Cons [simp]:
  "dict_assign d ((k, v) # s) = dict_assign (dict_set d k v) s"
  by (simp add: dict_assign_def)

lemma dict_wf_assign [simp, inv_intros]: "dict_wf d \<Longrightarrow> dict_wf (dict_assign d s)"
proof (induction s arbitrary: d)
  case Nil
  then show ?case by simp
next
  case (Cons kv s)
  then show ?case by (cases kv) simp
qed

lemma dict_get_assign:
  "dict_wf s \<Longrightarrow> dict_get (dict_assign d s) = dict_get d ++ dict_get s"
proof (induction s arbitrary: d)
  case Nil
  then show ?case by simp
next
  case (Cons kv s)
  obtain k v where kv: "kv = (k, v)" by (cases kv)
  from Cons.prems kv have "k \<notin> dom (map_of s)" and "dict_wf s"
    by (auto simp: dom_map_of_conv_image_fst)
  moreover have "((dict_get d)(k \<mapsto> v)) ++ dict_get s = dict_get d ++ (dict_get s)(k \<mapsto> v)"
    using \<open>k \<notin> dom (map_of s)\<close> by (auto simp: map_add_def fun_eq_iff split: option.splits)
  ultimately show ?case
    using Cons.IH [of "dict_set d k v"] kv by (simp del: fun_upd_apply)
qed

lemma dict_assign_empty: "dict_wf s \<Longrightarrow> dict_get (dict_assign [] s) = dict_get s"
  by (simp add: dict_get_assign)

section \<open>Lists\<close>

lemma fold_invariant:
  assumes "P s" and "\<And>x s. x \<in> set xs \<Longrightarrow> P s \<Longrightarrow> P (f x s)"
  shows "P (fold f xs s)"
  using assms by (induction xs arbitrary: s) auto

lemma sorted_wrt_less_key_inj:
  fixes f :: "'a \<Rightarrow> 'k::linorder"
  assumes "sorted_wrt (<) (map f xs)" and "i < length xs" and "j < length xs"
    and "f (xs ! i) = f (xs ! j)"
  shows "i = j"
proof (rule ccontr)
  assume "i \<noteq> j"
  then consider "i < j" | "j < i" by linarith
  then show False
    using assms sorted_wrt_nth_less [of "(<)" "map f xs" i j]
      sorted_wrt_nth_less [of "(<)" "map f xs" j i]
    by cases auto
qed

lemma map_of_zip_key_nth:
  assumes "distinct (map f xs)" and "i < length xs"
  shows "map_of (map (\<lambda>x. (f x, g x)) xs) (f (xs ! i)) = Some (g (xs ! i))"
  using assms by (auto intro!: map_of_is_SomeI simp: comp_def)

lemma dict_set_map:
  "map (\<lambda>(k, v). (k, g k v)) (dict_set d k v) = dict_set (map (\<lambda>(k, v). (k, g k v)) d) k (g k v)"
  by (induction d k v rule: dict_set.induct) auto

lemma dict_get_map_key: "dict_get (map (\<lambda>(k, v). (k, g k v)) d) k = map_option (g k) (dict_get d k)"
  by (induction d) auto

lemma dict_set_fold_wf:
  "dict_wf d \<Longrightarrow> dict_wf (fold (\<lambda>x d. dict_set d (f x) (g x)) xs d)"
  by (rule fold_invariant) auto

lemma dict_set_fold_keys:
  "fst ` set (fold (\<lambda>x d. dict_set d (f x) (g x)) xs d) = f ` set xs \<union> fst ` set d"
  by (induction xs arbitrary: d) auto

lemma sort_key_map: "sort_key f (map g xs) = map g (sort_key (f \<circ> g) xs)"
proof -
  have "insort_key f (g x) (map g ys) = map g (insort_key (f \<circ> g) x ys)" for x ys
    by (induction ys) auto
  then show ?thesis by (induction xs) auto
qed

lemma sort_key_cong:
  assumes "\<forall>x \<in> set xs. f x = g x"
  shows "sort_key f xs = sort_key g xs"
proof -
  have ins: "insort_key f x ys = insort_key g x ys" if "f x = g x" "\<forall>y \<in> set ys. f y = g y" for x ys
    using that by (induction ys) auto
  show ?thesis using assms by (induction xs) (auto intro: ins)
qed

lemma map_key_sort_key: "map f (sort_key f xs) = sort (map f xs)"
  using sort_key_map [of "\<lambda>x. x" f xs] by (simp add: comp_def)

lemma those_eq_Some: "\<forall>x \<in> set xs. f x = Some (g x) \<Longrightarrow> those (map f xs) = Some (map g xs)"
  by (induction xs) auto

lemma those_eq_None: "x \<in> set xs \<Longrightarrow> f x = None \<Longrightarrow> those (map f xs) = None"
  by (induction xs) (auto split: option.splits)

section \<open>State machines\<close>

text \<open>The states a machine can be in, and the contract of an invariant.\<close>

inductive reachable :: "('s \<Rightarrow> bool) \<Rightarrow> ('s \<Rightarrow> 's \<Rightarrow> bool) \<Rightarrow> 's \<Rightarrow> bool"
  for init step where
  reachable_init: "init s \<Longrightarrow> reachable init step s"
| reachable_step: "reachable init step s \<Longrightarrow> step s s' \<Longrightarrow> reachable init step s'"

locale invariant_of =
  fixes init :: "'s \<Rightarrow> bool" and step :: "'s \<Rightarrow> 's \<Rightarrow> bool" and inv :: "'s \<Rightarrow> bool"
  assumes inv_init: "init s \<Longrightarrow> inv s"
    and inv_step: "inv s \<Longrightarrow> step s s' \<Longrightarrow> inv s'"
begin

lemma reachable_inv: "reachable init step s \<Longrightarrow> inv s"
  by (induction rule: reachable.induct) (auto intro: inv_init inv_step)

lemma steps_inv: "step\<^sup>*\<^sup>* s s' \<Longrightarrow> inv s \<Longrightarrow> inv s'"
  by (induction rule: rtranclp_induct) (auto intro: inv_step)

end

end
