(* ===== verification/JsValue.thy ===== *)
theory JsValue
  imports Prelude
begin

text \<open>
  The part of the JavaScript language and of its standard library that the frontend uses:
  numbers with their non-finite values, strings, and run-time values with the identity of
  objects and arrays.

  \<^item> A finite number is a rational. The doubles of the program are rationals; their
    comparison, \<open>Math.min\<close>, \<open>Math.max\<close>, \<open>Math.abs\<close>, \<open>Math.floor\<close> and the arithmetic on
    integers below \<open>2 ^ 53\<close> are exact. The rounding of other quotients and products is
    not modelled, and neither is the sign of zero.
  \<^item> A string is a list of Latin-1 code units, the subset of UTF-16 that \<open>char\<close> holds.
  \<^item> Objects and arrays carry an address, because \<open>===\<close> compares addresses.
\<close>

section \<open>Numbers\<close>

datatype jsnum = Fin rat | NaN | PInf | NInf

fun is_finite :: "jsnum \<Rightarrow> bool" where
  "is_finite (Fin x) = True"
| "is_finite _ = False"

fun num_seq :: "jsnum \<Rightarrow> jsnum \<Rightarrow> bool" where
  "num_seq NaN _ = False"
| "num_seq x y = (x = y)"

fun num_lt :: "jsnum \<Rightarrow> jsnum \<Rightarrow> bool" where
  "num_lt (Fin x) (Fin y) = (x < y)"
| "num_lt NInf (Fin _) = True"
| "num_lt NInf PInf = True"
| "num_lt (Fin _) PInf = True"
| "num_lt _ _ = False"

definition num_le :: "jsnum \<Rightarrow> jsnum \<Rightarrow> bool" where
  "num_le x y \<longleftrightarrow> num_lt x y \<or> num_seq x y"

lemma num_le_Fin [simp]: "num_le (Fin x) (Fin y) \<longleftrightarrow> x \<le> y"
  by (auto simp: num_le_def)

lemma num_le_NaN [simp]: "\<not> num_le NaN y" "\<not> num_le x NaN"
  by (cases x; simp add: num_le_def)+

lemma num_seq_eq: "num_seq x y \<Longrightarrow> x = y"
  by (cases x) auto

text \<open>Subtraction and \<open>Math.abs\<close>.\<close>

fun num_sub :: "jsnum \<Rightarrow> jsnum \<Rightarrow> jsnum" where
  "num_sub (Fin x) (Fin y) = Fin (x - y)"
| "num_sub NaN _ = NaN"
| "num_sub _ NaN = NaN"
| "num_sub PInf PInf = NaN"
| "num_sub NInf NInf = NaN"
| "num_sub PInf _ = PInf"
| "num_sub NInf _ = NInf"
| "num_sub (Fin _) PInf = NInf"
| "num_sub (Fin _) NInf = PInf"

fun num_abs :: "jsnum \<Rightarrow> jsnum" where
  "num_abs (Fin x) = Fin \<bar>x\<bar>"
| "num_abs NaN = NaN"
| "num_abs _ = PInf"

text \<open>
  \<open>Number(x.toFixed(d))\<close>: the nearest multiple of \<open>10 ^ -d\<close>, halves away from zero; from
  \<open>10 ^ 21\<close> on \<open>toFixed\<close> prints the number itself.
\<close>

definition to_fixed :: "nat \<Rightarrow> rat \<Rightarrow> rat" where
  "to_fixed d x =
     (if 10 ^ 21 \<le> \<bar>x\<bar> then x
      else sgn x * of_int \<lfloor>\<bar>x\<bar> * 10 ^ d + 1 / 2\<rfloor> / 10 ^ d)"

lemma to_fixed_0 [simp]: "to_fixed d 0 = 0"
  by (simp add: to_fixed_def)

lemma to_fixed_minus: "to_fixed d (- x) = - to_fixed d x"
  by (simp add: to_fixed_def sgn_minus)

lemma to_fixed_nonneg: "0 \<le> x \<Longrightarrow> 0 \<le> to_fixed d x"
  by (auto simp: to_fixed_def sgn_if intro!: divide_nonneg_nonneg mult_nonneg_nonneg)

lemma to_fixed_error: "\<bar>to_fixed d x - x\<bar> \<le> 1 / (2 * 10 ^ d)"
proof (cases "10 ^ 21 \<le> \<bar>x\<bar> \<or> x = 0")
  case True
  then show ?thesis by (auto simp: to_fixed_def)
next
  case False
  define r where "r = (of_int \<lfloor>\<bar>x\<bar> * 10 ^ d + 1 / 2\<rfloor> :: rat)"
  have "r \<le> \<bar>x\<bar> * 10 ^ d + 1 / 2" and "\<bar>x\<bar> * 10 ^ d + 1 / 2 < r + 1"
    unfolding r_def by linarith+
  then have "\<bar>r - \<bar>x\<bar> * 10 ^ d\<bar> \<le> 1 / 2" by linarith
  then have "\<bar>(r - \<bar>x\<bar> * 10 ^ d) / 10 ^ d\<bar> \<le> (1 / 2) / \<bar>10 ^ d\<bar>"
    unfolding abs_divide by (intro frac_le) auto
  moreover have "to_fixed d x - x = sgn x * ((r - \<bar>x\<bar> * 10 ^ d) / 10 ^ d)"
    using False by (simp add: to_fixed_def r_def field_simps mult_sgn_abs)
      (metis mult.commute mult.left_commute mult_sgn_abs)
  ultimately show ?thesis
    using False by (simp add: abs_mult abs_sgn_eq)
qed

section \<open>Strings\<close>

abbreviation LF :: char where "LF \<equiv> CHR 0x0A"
abbreviation CR :: char where "CR \<equiv> CHR 0x0D"

definition is_ws :: "char \<Rightarrow> bool" where
  "is_ws c \<longleftrightarrow> c \<in> {CHR 0x09, LF, CHR 0x0B, CHR 0x0C, CR, CHR 0x20, CHR 0xA0}"

text \<open>\<open>s.trim()\<close>\<close>

definition trim :: "string \<Rightarrow> string" where
  "trim s = rev (dropWhile is_ws (rev (dropWhile is_ws s)))"

fun starts_with :: "string \<Rightarrow> string \<Rightarrow> bool" where
  "starts_with [] s = True"
| "starts_with (p # ps) [] = False"
| "starts_with (p # ps) (c # cs) = (p = c \<and> starts_with ps cs)"

text \<open>\<open>s.indexOf(pat)\<close>, None for \<open>-1\<close>, and \<open>s.indexOf(pat, cursor)\<close>.\<close>

fun index_of :: "string \<Rightarrow> string \<Rightarrow> nat option" where
  "index_of pat [] = (if pat = [] then Some 0 else None)"
| "index_of pat (c # cs) =
     (if starts_with pat (c # cs) then Some 0 else map_option Suc (index_of pat cs))"

definition index_of_from :: "string \<Rightarrow> string \<Rightarrow> nat \<Rightarrow> nat option" where
  "index_of_from pat s cursor = map_option ((+) cursor) (index_of pat (drop cursor s))"

definition str_includes :: "string \<Rightarrow> string \<Rightarrow> bool" where
  "str_includes s pat \<longleftrightarrow> index_of pat s \<noteq> None"

text \<open>\<open>s.split(c)\<close> for a separator of one character, and \<open>parts.join(c)\<close>.\<close>

fun split_on :: "char \<Rightarrow> string \<Rightarrow> string list" where
  "split_on c [] = [[]]"
| "split_on c (x # xs) =
     (if x = c then [] # split_on c xs
      else (case split_on c xs of [] \<Rightarrow> [[x]] | y # ys \<Rightarrow> (x # y) # ys))"

fun join_with :: "char \<Rightarrow> string list \<Rightarrow> string" where
  "join_with c [] = []"
| "join_with c [s] = s"
| "join_with c (s # t # ts) = s @ c # join_with c (t # ts)"

lemma split_on_not_Nil [simp]: "split_on c s \<noteq> []"
  by (induction s) (auto split: list.splits)

lemma split_on_no_sep: "c \<notin> set s \<Longrightarrow> split_on c s = [s]"
  by (induction s) auto

lemma split_on_append: "c \<notin> set s \<Longrightarrow> split_on c (s @ c # t) = s # split_on c t"
  by (induction s) auto

lemma join_with_Cons: "ts \<noteq> [] \<Longrightarrow> join_with c (s # ts) = s @ c # join_with c ts"
  by (cases ts) auto

lemma join_split [simp]: "join_with c (split_on c s) = s"
proof (induction s)
  case Nil
  then show ?case by simp
next
  case (Cons x xs)
  then show ?case
    by (cases "split_on c xs"; cases "tl (split_on c xs)") (auto simp: join_with_Cons)
qed

lemma starts_with_append [simp]: "starts_with p (p @ s)"
  by (induction p) auto

lemma starts_with_iff: "starts_with p s \<longleftrightarrow> (\<exists>t. s = p @ t)"
  by (induction p s rule: starts_with.induct) auto

lemma trim_id: "s = [] \<or> \<not> is_ws (hd s) \<and> \<not> is_ws (last s) \<Longrightarrow> trim s = s"
proof (cases s rule: rev_cases)
  case Nil
  then show ?thesis by (simp add: trim_def)
next
  case (snoc ys y)
  moreover assume "s = [] \<or> \<not> is_ws (hd s) \<and> \<not> is_ws (last s)"
  ultimately have "\<not> is_ws (hd s)" "\<not> is_ws y" "s \<noteq> []" by auto
  then have "dropWhile is_ws s = s" by (cases s) auto
  with snoc \<open>\<not> is_ws y\<close> show ?thesis by (simp add: trim_def)
qed

lemma trim_space_left: "is_ws c \<Longrightarrow> trim (c # s) = trim s"
  by (simp add: trim_def)

lemma trim_Nil [simp]: "trim [] = []"
  by (simp add: trim_def)

section \<open>Decimal numerals\<close>

fun nat_digits :: "nat \<Rightarrow> nat list" where
  "nat_digits n = (if n < 10 then [n] else nat_digits (n div 10) @ [n mod 10])"

declare nat_digits.simps [simp del]

definition digit_char :: "nat \<Rightarrow> char" where
  "digit_char d = char_of (48 + d)"

definition char_digit :: "char \<Rightarrow> nat option" where
  "char_digit c =
     (let n = of_char c :: nat in if 48 \<le> n \<and> n \<le> 57 then Some (n - 48) else None)"

lemma char_digit_digit_char [simp]: "d < 10 \<Longrightarrow> char_digit (digit_char d) = Some d"
  by (simp add: char_digit_def digit_char_def Let_def)

text \<open>\<open>String(n)\<close> for a natural number.\<close>

definition string_of_nat :: "nat \<Rightarrow> string" where
  "string_of_nat n = map digit_char (nat_digits n)"

fun digits_value :: "nat \<Rightarrow> string \<Rightarrow> nat option" where
  "digits_value acc [] = Some acc"
| "digits_value acc (c # cs) =
     (case char_digit c of None \<Rightarrow> None | Some d \<Rightarrow> digits_value (10 * acc + d) cs)"

lemma digits_value_append:
  "digits_value a (s @ t) = (case digits_value a s of None \<Rightarrow> None | Some b \<Rightarrow> digits_value b t)"
  by (induction s arbitrary: a) (auto split: option.splits)

lemma nat_digits_less: "d \<in> set (nat_digits n) \<Longrightarrow> d < 10"
proof (induction n rule: nat_digits.induct)
  case (1 n)
  then show ?case by (cases "n < 10") (auto simp: nat_digits.simps [of n])
qed

lemma digits_value_string_of_nat [simp]: "digits_value 0 (string_of_nat n) = Some n"
proof (induction n rule: nat_digits.induct)
  case (1 n)
  show ?case
  proof (cases "n < 10")
    case True
    then show ?thesis by (simp add: string_of_nat_def nat_digits.simps [of n])
  next
    case False
    then have "string_of_nat n = string_of_nat (n div 10) @ [digit_char (n mod 10)]"
      by (simp add: string_of_nat_def nat_digits.simps [of n])
    with 1 False show ?thesis by (simp add: digits_value_append)
  qed
qed

lemma string_of_nat_inj [simp]: "string_of_nat m = string_of_nat n \<longleftrightarrow> m = n"
  by (metis digits_value_string_of_nat option.inject)

lemma string_of_nat_digits: "c \<in> set (string_of_nat n) \<Longrightarrow> char_digit c \<noteq> None"
  using nat_digits_less by (auto simp: string_of_nat_def)

text \<open>
  A property name that is an array index: a canonical decimal numeral below \<open>2 ^ 32 - 1\<close>.
  \<open>Object.keys\<close> lists those first, in ascending order, then the others in insertion order.
\<close>

definition array_index :: "string \<Rightarrow> nat option" where
  "array_index s =
     (case s of [] \<Rightarrow> None
      | c # cs \<Rightarrow>
          if c = CHR ''0'' \<and> cs \<noteq> [] then None
          else (case digits_value 0 s of None \<Rightarrow> None
                | Some n \<Rightarrow> if n < 4294967295 then Some n else None))"

definition object_entries :: "(string, 'v) dict \<Rightarrow> (string \<times> 'v) list" where
  "object_entries d =
     sort_key (\<lambda>(k, v). case array_index k of Some n \<Rightarrow> n | None \<Rightarrow> 0)
       (filter (\<lambda>(k, v). array_index k \<noteq> None) d)
     @ filter (\<lambda>(k, v). array_index k = None) d"

lemma set_object_entries [simp]: "set (object_entries d) = set d"
  by (auto simp: object_entries_def)

lemma object_entries_Nil [simp]: "object_entries [] = []"
  by (simp add: object_entries_def)

lemma length_object_entries [simp]: "length (object_entries d) = length d"
proof -
  have "length (filter (\<lambda>e. array_index (fst e) \<noteq> None) d)
      + length (filter (\<lambda>e. \<not> array_index (fst e) \<noteq> None) d) = length d"
    by (rule sum_length_filter_compl)
  then show ?thesis
    by (simp add: object_entries_def case_prod_unfold)
qed

section \<open>Run-time values\<close>

datatype jsval =
    Undef
  | Null
  | Bool bool
  | Num jsnum
  | Str string
  | Arr nat "jsval list"
  | Obj nat "(string \<times> jsval) list"

fun truthy :: "jsval \<Rightarrow> bool" where
  "truthy Undef = False"
| "truthy Null = False"
| "truthy (Bool b) = b"
| "truthy (Num x) = (x \<noteq> Fin 0 \<and> x \<noteq> NaN)"
| "truthy (Str s) = (s \<noteq> [])"
| "truthy (Arr _ _) = True"
| "truthy (Obj _ _) = True"

text \<open>\<open>typeof v === "object" && v !== null\<close>\<close>

fun is_object :: "jsval \<Rightarrow> bool" where
  "is_object (Arr _ _) = True"
| "is_object (Obj _ _) = True"
| "is_object _ = False"

fun js_seq :: "jsval \<Rightarrow> jsval \<Rightarrow> bool" where
  "js_seq Undef Undef = True"
| "js_seq Null Null = True"
| "js_seq (Bool a) (Bool b) = (a = b)"
| "js_seq (Num x) (Num y) = num_seq x y"
| "js_seq (Str s) (Str t) = (s = t)"
| "js_seq (Arr r _) (Arr r' _) = (r = r')"
| "js_seq (Obj r _) (Obj r' _) = (r = r')"
| "js_seq _ _ = False"

text \<open>The own enumerable properties, in the order of \<open>Object.keys\<close>.\<close>

fun own_props :: "jsval \<Rightarrow> (string \<times> jsval) list" where
  "own_props (Obj _ ps) = object_entries ps"
| "own_props (Arr _ xs) = zip (map string_of_nat [0..<length xs]) xs"
| "own_props _ = []"

text \<open>\<open>v?.key\<close>: undefined on anything without that property.\<close>

fun js_get :: "jsval \<Rightarrow> string \<Rightarrow> jsval" where
  "js_get (Obj _ ps) k = (case map_of ps k of None \<Rightarrow> Undef | Some v \<Rightarrow> v)"
| "js_get (Arr _ xs) k =
     (if k = ''length'' then Num (Fin (of_nat (length xs)))
      else case map_of (zip (map string_of_nat [0..<length xs]) xs) k of
        None \<Rightarrow> Undef | Some v \<Rightarrow> v)"
| "js_get _ k = Undef"

definition nullish :: "jsval \<Rightarrow> bool" where
  "nullish v \<longleftrightarrow> v = Undef \<or> v = Null"

definition js_coalesce :: "jsval \<Rightarrow> jsval \<Rightarrow> jsval" where
  "js_coalesce a b = (if nullish a then b else a)"

fun the_str :: "jsval \<Rightarrow> string option" where
  "the_str (Str s) = Some s"
| "the_str _ = None"

fun the_num :: "jsval \<Rightarrow> jsnum option" where
  "the_num (Num x) = Some x"
| "the_num _ = None"

text \<open>
  \<open>typeof v === "string" && v\<close> in a boolean position, and with \<open>v.trim()\<close> in place of
  \<open>v\<close>: the string when the test succeeds.
\<close>

definition nonempty_str :: "jsval \<Rightarrow> string option" where
  "nonempty_str v = (case v of Str s \<Rightarrow> if s \<noteq> [] then Some s else None | _ \<Rightarrow> None)"

definition nonblank_str :: "jsval \<Rightarrow> string option" where
  "nonblank_str v = (case v of Str s \<Rightarrow> if trim s \<noteq> [] then Some s else None | _ \<Rightarrow> None)"

lemma nonblank_imp_nonempty: "nonblank_str v = Some s \<Longrightarrow> nonempty_str v = Some s"
  by (auto simp: nonblank_str_def nonempty_str_def split: jsval.splits if_splits)

lemma is_object_truthy: "is_object v \<Longrightarrow> truthy v"
  by (cases v) auto

lemma js_seq_sym: "js_seq a b = js_seq b a"
proof -
  have "num_seq x y = num_seq y x" for x y
    by (cases x; cases y) auto
  then show ?thesis by (cases a; cases b) auto
qed

end
