(* ===== verification/SseFraming.thy ===== *)
theory SseFraming
  imports JsValue
begin

text \<open>
  Server-sent event framing, \<open>splitSseBuffer\<close> and \<open>parseSseFrame\<close> of
  \<open>features/realtime/services/realtime-manager.ts\<close>, the loop that feeds them chunk by
  chunk, and the producer of the frames, \<open>_sse_message\<close> of the backend's \<open>serving.py\<close>.
  The main results: reading a stream in any chunks gives the frames of the whole stream,
  and what the producer encodes the consumer decodes.
\<close>

section \<open>The program\<close>

text \<open>\<open>buffer.replace(/\r\n/g, "\n")\<close>\<close>

fun normalize_newlines :: "string \<Rightarrow> string" where
  "normalize_newlines [] = []"
| "normalize_newlines [c] = [c]"
| "normalize_newlines (c # d # cs) =
     (if c = CR \<and> d = LF then LF # normalize_newlines cs
      else c # normalize_newlines (d # cs))"

lemma index_of_match: "index_of pat s = Some b \<Longrightarrow> b \<le> length s \<and> starts_with pat (drop b s)"
proof (induction s arbitrary: b)
  case Nil
  then show ?case by (simp split: if_splits)
next
  case (Cons c cs)
  show ?case
  proof (cases "starts_with pat (c # cs)")
    case True
    with Cons.prems show ?thesis by simp
  next
    case False
    with Cons.prems obtain b' where "index_of pat cs = Some b'" "b = Suc b'" by auto
    with Cons.IH show ?thesis by simp
  qed
qed

lemma index_of_split:
  assumes "index_of pat s = Some b"
  shows "s = take b s @ pat @ drop (b + length pat) s"
proof -
  from index_of_match [OF assms] obtain t where t: "drop b s = pat @ t"
    by (auto simp: starts_with_iff)
  have "drop (b + length pat) s = drop (length pat) (drop b s)" by (simp add: add.commute)
  then have "drop (b + length pat) s = t" using t by simp
  then show ?thesis using append_take_drop_id [of b s] t by simp
qed

lemma index_of_bound: "index_of pat s = Some b \<Longrightarrow> b + length pat \<le> length s"
  using index_of_split [of pat s b] index_of_match [of pat s b]
  by (metis length_append length_take min.absorb2 nat_add_left_cancel_le le_add1 add.assoc)

text \<open>The \<open>while (true)\<close> loop of \<open>splitSseBuffer\<close>, from \<open>cursor\<close> on.\<close>

function split_loop :: "string \<Rightarrow> nat \<Rightarrow> string list \<Rightarrow> string list \<times> string" where
  "split_loop s cursor frames =
     (case index_of_from [LF, LF] s cursor of
        None \<Rightarrow> (frames, drop cursor s)
      | Some boundary \<Rightarrow>
          let frame = trim (take (boundary - cursor) (drop cursor s))
          in split_loop s (boundary + 2) (if frame \<noteq> [] then frames @ [frame] else frames))"
  by pat_completeness auto
termination
  by (relation "measure (\<lambda>(s, cursor, frames). length s - cursor)")
    (auto simp: index_of_from_def dest!: index_of_bound)

declare split_loop.simps [simp del]

definition splitSseBuffer :: "string \<Rightarrow> string list \<times> string" where
  "splitSseBuffer buffer = split_loop (normalize_newlines buffer) 0 []"

record parsed_frame =
  event :: "string option"
  data :: "string option"

text \<open>One round of the \<open>for (const line of lines)\<close> loop of \<open>parseSseFrame\<close>.\<close>

definition parse_line :: "string \<Rightarrow> string option \<times> string list \<Rightarrow> string option \<times> string list" where
  "parse_line line st =
     (case st of (ev, dataParts) \<Rightarrow>
        if line = [] \<or> starts_with '':'' line then (ev, dataParts)
        else if starts_with ''event:'' line then (Some (trim (drop (length ''event:'') line)), dataParts)
        else if starts_with ''data:'' line then (ev, dataParts @ [trim (drop (length ''data:'') line)])
        else (ev, dataParts))"

definition parseSseFrame :: "string \<Rightarrow> parsed_frame" where
  "parseSseFrame frame =
     (case fold parse_line (split_on LF frame) (None, []) of
        (ev, dataParts) \<Rightarrow>
          \<lparr>event = ev, data = (if dataParts \<noteq> [] then Some (join_with LF dataParts) else None)\<rparr>)"

text \<open>
  The buffer discipline of the read loop: \<open>buffer += chunk\<close>, split, keep \<open>rest\<close>. The
  result is every frame seen and the buffer left.
\<close>

fun feed :: "string \<Rightarrow> string list \<Rightarrow> string list \<times> string" where
  "feed buffer [] = ([], buffer)"
| "feed buffer (chunk # chunks) =
     (case splitSseBuffer (buffer @ chunk) of
        (frames, rest) \<Rightarrow>
          (case feed rest chunks of (frames', rest') \<Rightarrow> (frames @ frames', rest')))"

text \<open>The producer, \<open>f"event: {event}\ndata: {payload}\n\n"\<close>.\<close>

definition sse_message :: "string \<Rightarrow> string \<Rightarrow> string" where
  "sse_message ev payload = ''event: '' @ ev @ [LF] @ ''data: '' @ payload @ [LF, LF]"

section \<open>Reference: splitting without a cursor\<close>

function raw_split :: "string \<Rightarrow> string list \<times> string" where
  "raw_split s =
     (case index_of [LF, LF] s of
        None \<Rightarrow> ([], s)
      | Some b \<Rightarrow> (case raw_split (drop (b + 2) s) of (fs, r) \<Rightarrow> (take b s # fs, r)))"
  by pat_completeness auto
termination
  by (relation "measure length") (auto dest: index_of_bound)

declare raw_split.simps [simp del]

definition clean_frames :: "string list \<Rightarrow> string list" where
  "clean_frames fs = filter (\<lambda>f. f \<noteq> []) (map trim fs)"

lemma clean_frames_simps [simp]:
  "clean_frames [] = []"
  "clean_frames (f # fs) = (if trim f = [] then clean_frames fs else trim f # clean_frames fs)"
  "clean_frames (fs @ gs) = clean_frames fs @ clean_frames gs"
  by (simp_all add: clean_frames_def)

lemma split_loop_raw:
  "split_loop s cursor frames =
     (frames @ clean_frames (fst (raw_split (drop cursor s))), snd (raw_split (drop cursor s)))"
proof (induction s cursor frames rule: split_loop.induct)
  case (1 s cursor frames)
  show ?case
  proof (cases "index_of [LF, LF] (drop cursor s)")
    case None
    then show ?thesis
      by (simp add: split_loop.simps [of s cursor] raw_split.simps [of "drop cursor s"] index_of_from_def)
  next
    case (Some b)
    then have ix: "index_of_from [LF, LF] s cursor = Some (cursor + b)"
      by (simp add: index_of_from_def)
    have d: "drop (Suc (Suc b)) (drop cursor s) = drop (Suc (Suc (cursor + b))) s"
      by (simp add: add.commute)
    obtain fs r where fr: "raw_split (drop (Suc (Suc (cursor + b))) s) = (fs, r)"
      by (cases "raw_split (drop (Suc (Suc (cursor + b))) s)")
    from fr have raw: "raw_split (drop cursor s) = (take b (drop cursor s) # fs, r)"
      using Some by (simp add: raw_split.simps [of "drop cursor s"] d [symmetric] add.commute)
    from "1.IH" [OF ix refl] fr show ?thesis
      by (cases "trim (take b (drop cursor s)) = []")
        (simp_all add: split_loop.simps [of s cursor] ix Let_def raw)
  qed
qed

lemma splitSseBuffer_raw:
  "splitSseBuffer b =
     (clean_frames (fst (raw_split (normalize_newlines b))), snd (raw_split (normalize_newlines b)))"
  by (simp add: splitSseBuffer_def split_loop_raw)

lemma starts_with_append_iff:
  "length p \<le> length s \<Longrightarrow> starts_with p (s @ t) \<longleftrightarrow> starts_with p s"
  by (induction p s rule: starts_with.induct) auto

lemma index_of_append: "index_of p u = Some b \<Longrightarrow> index_of p (u @ v) = Some b"
proof (induction u arbitrary: b)
  case Nil
  then have "p = []" "b = 0" by (auto split: if_splits)
  then show ?case by (cases v) auto
next
  case (Cons c cs)
  from index_of_bound [OF Cons.prems] have "length p \<le> length (c # cs)" by simp
  from starts_with_append_iff [OF this, of v] Cons show ?case
    by (auto split: if_splits)
qed

lemma index_of_take: "index_of p u = Some b \<Longrightarrow> index_of p (take (b + length p) u) = Some b"
proof (induction u arbitrary: b)
  case Nil
  then show ?case by (auto split: if_splits)
next
  case (Cons c cs)
  show ?case
  proof (cases "starts_with p (c # cs)")
    case True
    with Cons.prems have "b = 0" by simp
    moreover from True obtain t where t: "c # cs = p @ t" by (auto simp: starts_with_iff)
    moreover from t have "take (length p) (c # cs) = p" by simp
    moreover have "index_of p p = Some 0"
      using starts_with_append [of p "[]"] by (cases p) auto
    ultimately show ?thesis by simp
  next
    case False
    with Cons.prems obtain b' where b': "index_of p cs = Some b'" "b = Suc b'" by auto
    from index_of_bound [OF b'(1)] have "length p \<le> length (take (b' + length p) cs)" by simp
    then have "length p \<le> length (c # take (b' + length p) cs)" by simp
    from starts_with_append_iff [OF this, of "drop (b' + length p) cs"] False
    have "\<not> starts_with p (c # take (b' + length p) cs)" by simp
    with b' Cons.IH [OF b'(1)] show ?thesis by simp
  qed
qed

lemma raw_split_None: "index_of [LF, LF] s = None \<Longrightarrow> raw_split s = ([], s)"
  by (simp add: raw_split.simps [of s])

lemma raw_split_Some:
  "index_of [LF, LF] s = Some b \<Longrightarrow>
     raw_split s = (take b s # fst (raw_split (drop (b + 2) s)), snd (raw_split (drop (b + 2) s)))"
  by (simp add: raw_split.simps [of s] split: prod.splits)

lemma raw_split_append:
  "raw_split (u @ v) =
     (fst (raw_split u) @ fst (raw_split (snd (raw_split u) @ v)),
      snd (raw_split (snd (raw_split u) @ v)))"
proof (induction u rule: raw_split.induct)
  case (1 u)
  show ?case
  proof (cases "index_of [LF, LF] u")
    case None
    then show ?thesis by (simp add: raw_split_None)
  next
    case (Some b)
    from index_of_bound [OF Some] have len: "b + 2 \<le> length u" by simp
    have "take b (u @ v) = take b u" and "drop (b + 2) (u @ v) = drop (b + 2) u @ v"
      using len by auto
    with "1.IH" [OF Some] show ?thesis
      by (simp only: raw_split_Some [OF index_of_append [OF Some]] raw_split_Some [OF Some]
          fst_conv snd_conv append_Cons)
  qed
qed

text \<open>The part of a buffer already consumed: what precedes \<open>rest\<close>.\<close>

lemma raw_split_consumed:
  "\<exists>p. s = p @ snd (raw_split s) \<and> raw_split p = (fst (raw_split s), []) \<and> (p = [] \<or> last p = LF)"
proof (induction s rule: raw_split.induct)
  case (1 s)
  show ?case
  proof (cases "index_of [LF, LF] s")
    case None
    then show ?thesis
      by (intro exI [of _ "[]"]) (simp add: raw_split_None)
  next
    case (Some b)
    let ?u = "take (b + 2) s" and ?d = "drop (b + 2) s"
    from "1.IH" [OF Some] obtain p where p: "?d = p @ snd (raw_split ?d)"
      "raw_split p = (fst (raw_split ?d), [])" "p = [] \<or> last p = LF" by blast
    from index_of_bound [OF Some] have len: "b + 2 \<le> length s" by simp
    have ix: "index_of [LF, LF] ?u = Some b"
      using index_of_take [OF Some] by simp
    have u: "?u = take b s @ [LF, LF]"
      using index_of_split [OF ix] len by simp
    then have "last ?u = LF" by simp
    have "raw_split (?u @ p) = (take b s # fst (raw_split p), snd (raw_split p))"
      using raw_split_Some [OF index_of_append [OF ix]] len by simp
    with p(2) have "raw_split (?u @ p) = (fst (raw_split s), [])"
      by (simp add: raw_split_Some [OF Some])
    moreover have "s = (?u @ p) @ snd (raw_split s)"
      using p(1) by (simp add: raw_split_Some [OF Some])
    ultimately show ?thesis
      using p(3) \<open>last ?u = LF\<close> u by (intro exI [of _ "?u @ p"]) auto
  qed
qed

section \<open>Newline normalisation\<close>

text \<open>
  \<open>replace\<close> is a single pass, so it is idempotent exactly where no \<open>CR CR LF\<close> occurs; that
  is the only input on which normalising a buffer again, with the next chunk appended, could
  differ from normalising the whole stream.
\<close>

fun has_crlf :: "string \<Rightarrow> bool" where
  "has_crlf (c # d # cs) = (c = CR \<and> d = LF \<or> has_crlf (d # cs))"
| "has_crlf _ = False"

fun has_crcrlf :: "string \<Rightarrow> bool" where
  "has_crcrlf (c # d # e # cs) = (c = CR \<and> d = CR \<and> e = LF \<or> has_crcrlf (d # e # cs))"
| "has_crcrlf _ = False"

lemma normalize_id: "\<not> has_crlf s \<Longrightarrow> normalize_newlines s = s"
  by (induction s rule: normalize_newlines.induct) auto

lemma normalize_hd_LF:
  "normalize_newlines s = LF # t \<Longrightarrow>
     (\<exists>u. s = LF # u) \<or> (\<exists>u. s = CR # LF # u)"
  by (induction s rule: normalize_newlines.induct) (auto split: if_splits)

lemma normalize_no_crlf: "\<not> has_crcrlf s \<Longrightarrow> \<not> has_crlf (normalize_newlines s)"
proof (induction s rule: normalize_newlines.induct)
  case (3 c d cs)
  show ?case
  proof (cases "c = CR \<and> d = LF")
    case True
    have "has_crcrlf cs \<Longrightarrow> has_crcrlf (c # d # cs)"
      by (cases cs; cases "tl cs") auto
    with 3 True have "\<not> has_crlf (normalize_newlines cs)" by auto
    with True show ?thesis by (cases "normalize_newlines cs") auto
  next
    case False
    have "\<not> has_crcrlf (d # cs)" using "3.prems" by (cases cs) auto
    with 3 False have n: "\<not> has_crlf (normalize_newlines (d # cs))" by auto
    have "\<not> (c = CR \<and> (\<exists>t. normalize_newlines (d # cs) = LF # t))"
    proof
      assume c: "c = CR \<and> (\<exists>t. normalize_newlines (d # cs) = LF # t)"
      then obtain t where "normalize_newlines (d # cs) = LF # t" by blast
      from normalize_hd_LF [OF this] show False using c False "3.prems" by auto
    qed
    with n False show ?thesis by (cases "normalize_newlines (d # cs)") auto
  qed
qed auto

lemma normalize_append:
  "\<not> (u \<noteq> [] \<and> last u = CR \<and> v \<noteq> [] \<and> hd v = LF) \<Longrightarrow>
     normalize_newlines (u @ v) = normalize_newlines u @ normalize_newlines v"
proof (induction u rule: normalize_newlines.induct)
  case 1
  then show ?case by simp
next
  case (2 c)
  then show ?case by (cases v) auto
next
  case (3 c d cs)
  then show ?case by (cases "cs = []") auto
qed

lemma has_crcrlf_appendL: "has_crcrlf u \<Longrightarrow> has_crcrlf (u @ v)"
  by (induction u rule: has_crcrlf.induct) auto

lemma normalize_eq_Nil [simp]: "normalize_newlines s = [] \<longleftrightarrow> s = []"
  by (cases s rule: normalize_newlines.cases) auto

lemma last_normalize: "s \<noteq> [] \<Longrightarrow> last (normalize_newlines s) = last s"
  by (induction s rule: normalize_newlines.induct) auto

lemma normalize_again:
  assumes "\<not> has_crcrlf (x @ c)"
  shows "normalize_newlines (normalize_newlines x @ c) = normalize_newlines (x @ c)"
proof -
  have idem: "normalize_newlines (normalize_newlines u) = normalize_newlines u"
    if "\<not> has_crcrlf u" for u
    using that normalize_no_crlf normalize_id by blast
  from assms have x: "\<not> has_crcrlf x" using has_crcrlf_appendL by blast
  show ?thesis
  proof (cases "x \<noteq> [] \<and> last x = CR \<and> c \<noteq> [] \<and> hd c = LF")
    case False
    then have "normalize_newlines (normalize_newlines x @ c)
        = normalize_newlines (normalize_newlines x) @ normalize_newlines c"
      by (intro normalize_append) (auto simp: last_normalize)
    with normalize_append [OF False] idem [OF x] show ?thesis by simp
  next
    case True
    then obtain x' c' where xc: "x = x' @ [CR]" "c = LF # c'"
      by (metis append_butlast_last_id list.collapse)
    with x have x': "\<not> has_crcrlf x'" using has_crcrlf_appendL by blast
    have "normalize_newlines x = normalize_newlines x' @ [CR]"
      unfolding xc by (subst normalize_append) auto
    then have "normalize_newlines (normalize_newlines x @ c)
        = normalize_newlines (normalize_newlines x' @ (CR # LF # c'))" by (simp add: xc)
    also have "\<dots> = normalize_newlines x' @ LF # normalize_newlines c'"
      by (subst normalize_append) (auto simp: idem [OF x'])
    also have "\<dots> = normalize_newlines (x' @ (CR # LF # c'))"
      by (subst normalize_append) auto
    finally show ?thesis by (simp add: xc)
  qed
qed

section \<open>Reading in chunks\<close>

lemma has_crlf_appendL: "has_crlf u \<Longrightarrow> has_crlf (u @ v)"
  by (induction u rule: has_crlf.induct) auto

lemma raw_split_step:
  assumes buf: "raw_split (normalize_newlines x) = (fs, buf)"
    and ok: "\<not> has_crcrlf (x @ c)"
  shows "raw_split (normalize_newlines (x @ c)) =
    (fs @ fst (raw_split (normalize_newlines (buf @ c))),
     snd (raw_split (normalize_newlines (buf @ c))))"
proof -
  from raw_split_consumed [of "normalize_newlines x"] buf
  obtain p where p: "normalize_newlines x = p @ buf" "raw_split p = (fs, [])"
    "p = [] \<or> last p = LF" by auto
  from ok have "\<not> has_crcrlf x" using has_crcrlf_appendL by blast
  then have "\<not> has_crlf p"
    using normalize_no_crlf [of x] p(1) has_crlf_appendL by metis
  have "normalize_newlines (x @ c) = normalize_newlines (p @ (buf @ c))"
    using normalize_again [OF ok] p(1) by simp
  also have "\<dots> = p @ normalize_newlines (buf @ c)"
    using p(3) normalize_id [OF \<open>\<not> has_crlf p\<close>] by (subst normalize_append) auto
  finally show ?thesis
    using raw_split_append [of p "normalize_newlines (buf @ c)"] p(2) by simp
qed

lemma feed_raw:
  assumes "raw_split (normalize_newlines x) = (fs, buf)"
    and "\<not> has_crcrlf (x @ concat chunks)"
  shows "(clean_frames fs @ fst (feed buf chunks), snd (feed buf chunks))
    = splitSseBuffer (x @ concat chunks)"
  using assms
proof (induction chunks arbitrary: x fs buf)
  case Nil
  then show ?case by (simp add: splitSseBuffer_raw)
next
  case (Cons c cs)
  let ?s = "raw_split (normalize_newlines (buf @ c))"
  from Cons.prems(2) have ok: "\<not> has_crcrlf (x @ c)"
    using has_crcrlf_appendL [of "x @ c" "concat cs"] by auto
  from raw_split_step [OF Cons.prems(1) ok]
  have step: "raw_split (normalize_newlines (x @ c)) = (fs @ fst ?s, snd ?s)" .
  from Cons.IH [OF step] Cons.prems(2)
  show ?case by (simp add: splitSseBuffer_raw [of "buf @ c"] case_prod_unfold)
qed

lemma feed_whole:
  "\<not> has_crcrlf (concat chunks) \<Longrightarrow> feed [] chunks = splitSseBuffer (concat chunks)"
  using feed_raw [of "[]" "[]" "[]" chunks]
  by (simp add: raw_split_None prod_eq_iff)

text \<open>The condition is needed: here the second round normalises a line end twice.\<close>

lemma feed_crcrlf_differs:
  "fst (feed [] [''a'' @ [CR, CR, LF, CR, CR, LF], ''b'']) = [''a'']
   \<and> fst (splitSseBuffer (concat [''a'' @ [CR, CR, LF, CR, CR, LF], ''b''])) = []"
  by (simp add: splitSseBuffer_raw raw_split.simps trim_def is_ws_def)

section \<open>What the producer writes\<close>

text \<open>A line's payload that survives framing: not empty, no line end, no blank at its ends.\<close>

definition wire_text :: "string \<Rightarrow> bool" where
  "wire_text s \<longleftrightarrow> s \<noteq> [] \<and> LF \<notin> set s \<and> CR \<notin> set s \<and> \<not> is_ws (hd s) \<and> \<not> is_ws (last s)"

definition wire_frame :: "string \<Rightarrow> string \<Rightarrow> string" where
  "wire_frame ev payload = ''event: '' @ ev @ LF # ''data: '' @ payload"

lemma sse_message_frame: "sse_message ev d = wire_frame ev d @ [LF, LF]"
  by (simp add: sse_message_def wire_frame_def)

lemma index_of_LFLF_skip:
  "LF \<notin> set a \<Longrightarrow> index_of [LF, LF] (a @ s) = map_option ((+) (length a)) (index_of [LF, LF] s)"
  by (induction a) (cases "index_of [LF, LF] s"; auto)+

lemma index_of_LFLF_hd: "hd b \<noteq> LF \<Longrightarrow> b \<noteq> [] \<Longrightarrow>
    index_of [LF, LF] (LF # b @ s) = map_option Suc (index_of [LF, LF] (b @ s))"
  by (cases b) auto

lemma index_of_wire_frame:
  assumes "wire_text ev" and "wire_text d"
  shows "index_of [LF, LF] (wire_frame ev d @ LF # LF # s) = Some (length (wire_frame ev d))"
proof -
  from assms have ev: "LF \<notin> set (''event: '' @ ev)" and d: "LF \<notin> set (''data: '' @ d)"
    by (auto simp: wire_text_def)
  have "index_of [LF, LF] ((''data: '' @ d) @ LF # LF # s) = Some (length (''data: '' @ d))"
    by (subst index_of_LFLF_skip [OF d]) simp
  moreover have "wire_frame ev d @ LF # LF # s
      = (''event: '' @ ev) @ LF # (''data: '' @ d) @ LF # LF # s"
    by (simp add: wire_frame_def)
  ultimately show ?thesis
    using index_of_LFLF_skip [OF ev, of "LF # (''data: '' @ d) @ LF # LF # s"]
      index_of_LFLF_hd [of "''data: '' @ d" "LF # LF # s"]
    by (simp add: wire_frame_def)
qed

lemma raw_split_messages:
  "\<forall>(ev, d) \<in> set msgs. wire_text ev \<and> wire_text d \<Longrightarrow>
     raw_split (concat (map (\<lambda>(ev, d). sse_message ev d) msgs))
       = (map (\<lambda>(ev, d). wire_frame ev d) msgs, [])"
proof (induction msgs)
  case Nil
  then show ?case by (simp add: raw_split_None)
next
  case (Cons m msgs)
  obtain ev d where m: "m = (ev, d)" by (cases m)
  let ?rest = "concat (map (\<lambda>(ev, d). sse_message ev d) msgs)"
  from Cons.prems m have "index_of [LF, LF] (wire_frame ev d @ LF # LF # ?rest)
      = Some (length (wire_frame ev d))"
    by (intro index_of_wire_frame) auto
  from raw_split_Some [OF this] Cons m show ?case
    by (simp add: sse_message_frame)
qed

lemma trim_wire_frame: "wire_text d \<Longrightarrow> trim (wire_frame ev d) = wire_frame ev d"
  by (rule trim_id) (simp add: wire_frame_def wire_text_def is_ws_def)

lemma parse_wire_frame:
  assumes "wire_text ev" and "wire_text d"
  shows "parseSseFrame (wire_frame ev d) = \<lparr>event = Some ev, data = Some d\<rparr>"
proof -
  from assms have ev: "LF \<notin> set (''event: '' @ ev)" and d: "LF \<notin> set (''data: '' @ d)"
    by (auto simp: wire_text_def)
  have "split_on LF (wire_frame ev d) = [''event: '' @ ev, ''data: '' @ d]"
    using split_on_append [OF ev, of "''data: '' @ d"] split_on_no_sep [OF d]
    by (simp add: wire_frame_def)
  moreover have "trim (CHR '' '' # ev) = ev" "trim (CHR '' '' # d) = d"
    using assms by (subst trim_space_left; simp add: is_ws_def trim_id wire_text_def)+
  ultimately show ?thesis
    by (simp add: parseSseFrame_def parse_line_def)
qed

lemma normalize_no_CR: "CR \<notin> set s \<Longrightarrow> \<not> has_crcrlf s \<and> normalize_newlines s = s"
  by (induction s rule: normalize_newlines.induct) (auto elim: has_crcrlf.elims)

lemma messages_no_CR:
  "\<forall>(ev, d) \<in> set msgs. wire_text ev \<and> wire_text d \<Longrightarrow>
     CR \<notin> set (concat (map (\<lambda>(ev, d). sse_message ev d) msgs))"
  by (auto simp: sse_message_def wire_text_def)

section \<open>Properties\<close>

text \<open>
  C7. Reading an event stream chunk by chunk, appending each chunk to the unfinished rest of
  the buffer and splitting it, yields exactly the frames and the rest that splitting the
  whole stream at once yields, wherever the chunks are cut (also between \<open>CR\<close> and \<open>LF\<close>,
  or between the two line ends of a boundary), as long as the stream holds no \<open>CR CR LF\<close>.
\<close>

theorem sse_chunking:
  assumes "\<not> has_crcrlf (concat chunks)"
  shows "feed [] chunks = splitSseBuffer (concat chunks)"
  using assms by (rule feed_whole)

theorem sse_chunking_witness:
  "feed [] [''event: a'' @ [CR], [LF] @ ''data: 1'' @ [CR, LF, CR], [LF] @ ''event'']
     = ([''event: a'' @ [LF] @ ''data: 1''], ''event'')"
  (is "feed [] ?chunks = ?r")
proof -
  have "\<not> has_crcrlf (concat ?chunks)" by simp
  from sse_chunking [OF this] show ?thesis
    by (simp add: splitSseBuffer_raw raw_split.simps trim_def is_ws_def)
qed

text \<open>
  C8. Round trip between the backend's \<open>_sse_message\<close> and the frontend's reader: a list of
  messages, encoded, concatenated and delivered in arbitrary chunks, is parsed into the same
  events and data in the same order, and nothing is left in the buffer.
\<close>

theorem sse_roundtrip:
  assumes "\<forall>(ev, d) \<in> set msgs. wire_text ev \<and> wire_text d"
    and "concat chunks = concat (map (\<lambda>(ev, d). sse_message ev d) msgs)"
  shows "map parseSseFrame (fst (feed [] chunks)) = map (\<lambda>(ev, d). \<lparr>event = Some ev, data = Some d\<rparr>) msgs
    \<and> snd (feed [] chunks) = []"
proof -
  let ?s = "concat (map (\<lambda>(ev, d). sse_message ev d) msgs)"
  have "feed [] chunks = splitSseBuffer ?s"
    using feed_whole [of chunks] normalize_no_CR [OF messages_no_CR [OF assms(1)]] assms(2) by simp
  also have "\<dots> = (clean_frames (map (\<lambda>(ev, d). wire_frame ev d) msgs), [])"
    using normalize_no_CR [OF messages_no_CR [OF assms(1)]] raw_split_messages [OF assms(1)]
    by (simp add: splitSseBuffer_raw)
  also have "clean_frames (map (\<lambda>(ev, d). wire_frame ev d) msgs) = map (\<lambda>(ev, d). wire_frame ev d) msgs"
    using assms(1) by (induction msgs) (auto simp: trim_wire_frame, simp add: wire_frame_def)
  finally show ?thesis
    using assms(1) by (auto simp: parse_wire_frame)
qed

theorem sse_roundtrip_witness:
  "map parseSseFrame (fst (feed [] [sse_message ''heartbeat'' ''{}'' @ ''ev'', ''ent: x'' @ [LF] @ ''data: 7'' @ [LF], [LF]]))
     = [\<lparr>event = Some ''heartbeat'', data = Some ''{}''\<rparr>, \<lparr>event = Some ''x'', data = Some ''7''\<rparr>]"
  using sse_roundtrip [of "[(''heartbeat'', ''{}''), (''x'', ''7'')]"
      "[sse_message ''heartbeat'' ''{}'' @ ''ev'', ''ent: x'' @ [LF] @ ''data: 7'' @ [LF], [LF]]"]
  by (simp add: wire_text_def is_ws_def sse_message_def)

end
