(* ===== verification/RealtimeStore.thy ===== *)
theory RealtimeStore
  imports JsValue
begin

text \<open>
  The realtime store, \<open>features/realtime/store/realtime.store.ts\<close>: its state, the setters
  and \<open>applySseBatch\<close>, which folds a batch of parsed events into the state and tells
  whether anything changed.

  Payloads are run-time values. The items array of the distribution series is mutated in
  place by the program, so the state carries a heap \<open>arrays\<close>: it holds the present contents
  of every array that was mutated after it was created; any other array still has the
  contents it was created with. \<open>fresh\<close> is the address of the next object allocated.
  An update that throws (a \<open>TypeError\<close> on a series without an items array) is None.
\<close>

section \<open>State\<close>

datatype SseConnectionStatus = idle | connecting | connected | retrying | error

record rt_state =
  connectionStatus :: SseConnectionStatus
  errorReason :: "string option"
  kbarCurrentByCode :: "(string, jsval) dict"
  metricLatestByCode :: "(string, jsval) dict"
  indexContribRanking :: jsval
  indexContribSector :: jsval
  marketSummaryLatestByCode :: "(string, jsval) dict"
  otcSummaryLatestByCode :: "(string, jsval) dict"
  quoteLatestByCode :: "(string, jsval) dict"
  spotLatestList :: jsval
  spotMarketDistributionLatest :: jsval
  spotMarketDistributionSeries :: jsval
  lastHeartbeatTs :: "jsnum option"
  arrays :: "nat \<Rightarrow> jsval list option"
  fresh :: nat

definition initialState :: rt_state where
  "initialState =
     \<lparr>connectionStatus = idle, errorReason = None, kbarCurrentByCode = [], metricLatestByCode = [],
      indexContribRanking = Null, indexContribSector = Null, marketSummaryLatestByCode = [],
      otcSummaryLatestByCode = [], quoteLatestByCode = [], spotLatestList = Null,
      spotMarketDistributionLatest = Null, spotMarketDistributionSeries = Null,
      lastHeartbeatTs = None, arrays = Map.empty, fresh = 0\<rparr>"

text \<open>The argument of \<open>applySseBatch\<close>. A field that is absent is \<open>Undef\<close> or None.\<close>

record sse_batch =
  b_kbarCurrent :: jsval
  b_metricLatest :: jsval
  b_metricLatestMap :: "(string, jsval) dict option"
  b_marketSummaryLatest :: jsval
  b_marketSummaryMap :: "(string, jsval) dict option"
  b_otcSummaryLatest :: jsval
  b_otcSummaryMap :: "(string, jsval) dict option"
  b_quoteLatest :: jsval
  b_quoteLatestMap :: "(string, jsval) dict option"
  b_spotLatestList :: jsval
  b_spotMarketDistributionLatest :: jsval
  b_spotMarketDistributionSeries :: jsval
  b_indexContribRanking :: jsval
  b_indexContribSector :: jsval
  b_heartbeatTs :: jsval

definition empty_batch :: sse_batch where
  "empty_batch =
     \<lparr>b_kbarCurrent = Undef, b_metricLatest = Undef, b_metricLatestMap = None,
      b_marketSummaryLatest = Undef, b_marketSummaryMap = None, b_otcSummaryLatest = Undef,
      b_otcSummaryMap = None, b_quoteLatest = Undef, b_quoteLatestMap = None,
      b_spotLatestList = Undef, b_spotMarketDistributionLatest = Undef,
      b_spotMarketDistributionSeries = Undef, b_indexContribRanking = Undef,
      b_indexContribSector = Undef, b_heartbeatTs = Undef\<rparr>"

section \<open>Helpers of the store\<close>

definition SPOT_MARKET_DISTRIBUTION_SERIES_CAP :: nat where
  "SPOT_MARKET_DISTRIBUTION_SERIES_CAP = 600"

definition shallowEqual :: "jsval \<Rightarrow> jsval \<Rightarrow> bool" where
  "shallowEqual a b \<longleftrightarrow>
     js_seq a b
     \<or> is_object a \<and> is_object b
       \<and> length (own_props a) = length (own_props b)
       \<and> (\<forall>(k, v) \<in> set (own_props a). js_seq (js_get a k) (js_get b k))"

definition series_item_keys :: "string list" where
  "series_item_keys = [''ts'', ''up_count'', ''down_count'', ''flat_count'', ''total_count'', ''trend_index'']"

definition toSpotMarketDistributionSeriesItem :: "nat \<Rightarrow> jsval \<Rightarrow> jsval" where
  "toSpotMarketDistributionSeriesItem ref payload =
     Obj ref (map (\<lambda>k. (k, js_get payload k)) series_item_keys)"

text \<open>The present contents of an array; None for a value that is not one.\<close>

definition array_items :: "(nat \<Rightarrow> jsval list option) \<Rightarrow> jsval \<Rightarrow> jsval list option" where
  "array_items h v =
     (case v of Arr r xs \<Rightarrow> Some (case h r of Some ys \<Rightarrow> ys | None \<Rightarrow> xs) | _ \<Rightarrow> None)"

definition same_item :: "jsval \<Rightarrow> jsval \<Rightarrow> bool" where
  "same_item a b \<longleftrightarrow> (\<forall>k \<in> set series_item_keys. js_seq (js_get a k) (js_get b k))"

text \<open>
  \<open>appendSpotMarketDistributionSeries(current, next)\<close> on the heap: the value it returns (the
  very \<open>current\<close> when nothing is to do) and the heap and allocator after it.
\<close>

definition appendSpotMarketDistributionSeries ::
  "(nat \<Rightarrow> jsval list option) \<Rightarrow> nat \<Rightarrow> jsval \<Rightarrow> jsval
     \<Rightarrow> (jsval \<times> (nat \<Rightarrow> jsval list option) \<times> nat) option" where
  "appendSpotMarketDistributionSeries h n current next =
     (if \<not> truthy current then
        Some (Obj n [(''items'', Arr (n + 1) [next])], h(n + 1 \<mapsto> [next]), n + 2)
      else
        (case js_get current ''items'' of
           Arr r xs \<Rightarrow>
             (let items = (case h r of Some ys \<Rightarrow> ys | None \<Rightarrow> xs);
                  lst = (if items = [] then Undef else last items)
              in if truthy lst \<and> same_item lst next then Some (current, h, n)
                 else if truthy lst \<and> js_seq (js_get lst ''ts'') (js_get next ''ts'')
                 then Some (Obj n [(''items'', Arr r xs)], h(r \<mapsto> butlast items @ [next]), n + 1)
                 else (let pushed = items @ [next];
                           kept = (if length pushed > SPOT_MARKET_DISTRIBUTION_SERIES_CAP
                                   then drop (length pushed - SPOT_MARKET_DISTRIBUTION_SERIES_CAP) pushed
                                   else pushed)
                       in Some (Obj n [(''items'', Arr r xs)], h(r \<mapsto> kept), n + 1)))
         | _ \<Rightarrow> None))"

section \<open>Setters\<close>

text \<open>A value used as a property name; \<open>show_val\<close> is \<open>String(v)\<close> on numbers and objects.\<close>

definition to_key :: "(jsval \<Rightarrow> string) \<Rightarrow> jsval \<Rightarrow> string" where
  "to_key show_val v =
     (case v of Str s \<Rightarrow> s | Undef \<Rightarrow> ''undefined'' | Null \<Rightarrow> ''null''
      | Bool b \<Rightarrow> (if b then ''true'' else ''false'') | _ \<Rightarrow> show_val v)"

definition setConnectionStatus :: "SseConnectionStatus \<Rightarrow> string option \<Rightarrow> rt_state \<Rightarrow> rt_state" where
  "setConnectionStatus status reason st = st\<lparr>connectionStatus := status, errorReason := reason\<rparr>"

definition upsertKbarCurrent :: "(jsval \<Rightarrow> string) \<Rightarrow> jsval \<Rightarrow> rt_state \<Rightarrow> rt_state" where
  "upsertKbarCurrent show_val payload st =
     st\<lparr>kbarCurrentByCode :=
          dict_set (kbarCurrentByCode st) (to_key show_val (js_get payload ''code'')) payload\<rparr>"

definition upsertMetricLatest :: "string \<Rightarrow> jsval \<Rightarrow> rt_state \<Rightarrow> rt_state" where
  "upsertMetricLatest code payload st =
     st\<lparr>metricLatestByCode := dict_set (metricLatestByCode st) code payload\<rparr>"

definition setIndexContribRanking :: "jsval \<Rightarrow> rt_state \<Rightarrow> rt_state" where
  "setIndexContribRanking payload st = st\<lparr>indexContribRanking := payload\<rparr>"

definition setIndexContribSector :: "jsval \<Rightarrow> rt_state \<Rightarrow> rt_state" where
  "setIndexContribSector payload st = st\<lparr>indexContribSector := payload\<rparr>"

definition upsertMarketSummaryLatest :: "string \<Rightarrow> jsval \<Rightarrow> rt_state \<Rightarrow> rt_state" where
  "upsertMarketSummaryLatest code payload st =
     st\<lparr>marketSummaryLatestByCode := dict_set (marketSummaryLatestByCode st) code payload\<rparr>"

definition upsertOtcSummaryLatest :: "string \<Rightarrow> jsval \<Rightarrow> rt_state \<Rightarrow> rt_state" where
  "upsertOtcSummaryLatest code payload st =
     st\<lparr>otcSummaryLatestByCode := dict_set (otcSummaryLatestByCode st) code payload\<rparr>"

definition upsertQuoteLatest :: "string \<Rightarrow> jsval \<Rightarrow> rt_state \<Rightarrow> rt_state" where
  "upsertQuoteLatest code payload st =
     st\<lparr>quoteLatestByCode := dict_set (quoteLatestByCode st) code payload\<rparr>"

definition setHeartbeat :: "jsnum \<Rightarrow> rt_state \<Rightarrow> rt_state" where
  "setHeartbeat ts st = st\<lparr>lastHeartbeatTs := Some ts\<rparr>"

text \<open>\<open>resetRealtime\<close>; objects already allocated stay where they are.\<close>

definition resetRealtime :: "rt_state \<Rightarrow> rt_state" where
  "resetRealtime st = initialState\<lparr>arrays := arrays st, fresh := fresh st\<rparr>"

section \<open>applySseBatch\<close>

definition js_lookup :: "(string, jsval) dict \<Rightarrow> string \<Rightarrow> jsval" where
  "js_lookup d k = (case dict_get d k of None \<Rightarrow> Undef | Some v \<Rightarrow> v)"

text \<open>The test that an incoming payload differs from the one in the state.\<close>

definition entry_changed :: "(string, jsval) dict \<Rightarrow> string \<Rightarrow> jsval \<Rightarrow> bool" where
  "entry_changed current code payload \<longleftrightarrow>
     \<not> truthy (js_lookup current code)
     \<or> \<not> js_seq (js_get payload ''ts'') (js_get (js_lookup current code) ''ts'')
     \<or> \<not> shallowEqual (js_lookup current code) payload"

text \<open>
  One of the four keyed maps of the batch: its entries (the single-item shape first, then
  the map shape) and the loop over them. The result is the new map when any entry changed.
\<close>

definition batch_entries ::
  "(jsval \<Rightarrow> string) \<Rightarrow> jsval \<Rightarrow> (string, jsval) dict option \<Rightarrow> (string \<times> jsval) list" where
  "batch_entries show_val single m =
     (if truthy single then [(to_key show_val (js_get single ''code''), js_get single ''payload'')] else [])
     @ (case m of None \<Rightarrow> [] | Some d \<Rightarrow> object_entries d)"

definition upsert_entry ::
  "(string, jsval) dict \<Rightarrow> string \<times> jsval \<Rightarrow> (string, jsval) dict option \<Rightarrow> (string, jsval) dict option" where
  "upsert_entry current e next =
     (case e of (code, payload) \<Rightarrow>
        if entry_changed current code payload
        then Some (dict_set (case next of None \<Rightarrow> current | Some d \<Rightarrow> d) code payload)
        else next)"

definition upsert_entries ::
  "(string, jsval) dict \<Rightarrow> (string \<times> jsval) list \<Rightarrow> (string, jsval) dict option" where
  "upsert_entries current entries = fold (upsert_entry current) entries None"

definition kbar_update ::
  "(jsval \<Rightarrow> string) \<Rightarrow> (string, jsval) dict \<Rightarrow> jsval \<Rightarrow> (string, jsval) dict option" where
  "kbar_update show_val current kbar =
     (if truthy kbar then
        (let code = to_key show_val (js_get kbar ''code'');
             existing = js_lookup current code
         in if \<not> truthy existing \<or> \<not> js_seq (js_get kbar ''ts'') (js_get existing ''ts'')
               \<or> \<not> js_seq existing kbar
            then Some (dict_set current code kbar) else None)
      else None)"

text \<open>The part of the batch with the keyed maps: the new state and whether it changed.\<close>

definition apply_maps :: "(jsval \<Rightarrow> string) \<Rightarrow> sse_batch \<Rightarrow> rt_state \<Rightarrow> rt_state \<times> bool" where
  "apply_maps show_val b st =
     (let kbar = kbar_update show_val (kbarCurrentByCode st) (b_kbarCurrent b);
          metric = upsert_entries (metricLatestByCode st)
            (batch_entries show_val (b_metricLatest b) (b_metricLatestMap b));
          market = upsert_entries (marketSummaryLatestByCode st)
            (batch_entries show_val (b_marketSummaryLatest b) (b_marketSummaryMap b));
          otc = upsert_entries (otcSummaryLatestByCode st)
            (batch_entries show_val (b_otcSummaryLatest b) (b_otcSummaryMap b));
          quote = upsert_entries (quoteLatestByCode st)
            (batch_entries show_val (b_quoteLatest b) (b_quoteLatestMap b))
      in (st\<lparr>kbarCurrentByCode := case_option (kbarCurrentByCode st) id kbar,
             metricLatestByCode := case_option (metricLatestByCode st) id metric,
             marketSummaryLatestByCode := case_option (marketSummaryLatestByCode st) id market,
             otcSummaryLatestByCode := case_option (otcSummaryLatestByCode st) id otc,
             quoteLatestByCode := case_option (quoteLatestByCode st) id quote\<rparr>,
          kbar \<noteq> None \<or> metric \<noteq> None \<or> market \<noteq> None \<or> otc \<noteq> None \<or> quote \<noteq> None))"

text \<open>A single-valued field: replaced when it is there and differs.\<close>

definition replace_if :: "bool \<Rightarrow> jsval \<Rightarrow> jsval \<Rightarrow> jsval \<times> bool" where
  "replace_if present current incoming =
     (if present \<and> \<not> shallowEqual current incoming then (incoming, True) else (current, False))"

text \<open>
  The distribution of the spot market: the latest value, and the series, replaced when the
  batch has one and otherwise appended to.
\<close>

definition apply_distribution :: "sse_batch \<Rightarrow> rt_state \<Rightarrow> (rt_state \<times> bool) option" where
  "apply_distribution b st =
     (let latest = b_spotMarketDistributionLatest b;
          series = b_spotMarketDistributionSeries b;
          (cur, ch) = replace_if (truthy latest) (spotMarketDistributionLatest st) latest;
          st1 = st\<lparr>spotMarketDistributionLatest := cur\<rparr>;
          appended =
            (if ch \<and> \<not> truthy series
             then map_option
               (\<lambda>(v, h, n). st1\<lparr>spotMarketDistributionSeries := v, arrays := h, fresh := n\<rparr>)
               (appendSpotMarketDistributionSeries (arrays st) (fresh st + 1)
                  (spotMarketDistributionSeries st)
                  (toSpotMarketDistributionSeriesItem (fresh st) latest))
             else Some st1)
      in (case appended of
            None \<Rightarrow> None
          | Some st2 \<Rightarrow>
              (let (ser, ch') = replace_if (truthy series) (spotMarketDistributionSeries st) series
               in Some (if ch' then st2\<lparr>spotMarketDistributionSeries := ser\<rparr> else st2, ch \<or> ch'))))"

definition apply_singles :: "sse_batch \<Rightarrow> rt_state \<Rightarrow> rt_state \<times> bool" where
  "apply_singles b st =
     (let (ranking, ch1) = replace_if (b_indexContribRanking b \<noteq> Undef) (indexContribRanking st)
            (b_indexContribRanking b);
          (sector, ch2) = replace_if (b_indexContribSector b \<noteq> Undef) (indexContribSector st)
            (b_indexContribSector b);
          (beat, ch3) =
            (case b_heartbeatTs b of
               Num x \<Rightarrow> if is_finite x \<and> lastHeartbeatTs st \<noteq> Some x then (Some x, True)
                        else (lastHeartbeatTs st, False)
             | _ \<Rightarrow> (lastHeartbeatTs st, False))
      in (st\<lparr>indexContribRanking := ranking, indexContribSector := sector, lastHeartbeatTs := beat\<rparr>,
          ch1 \<or> ch2 \<or> ch3))"

definition apply_list :: "sse_batch \<Rightarrow> rt_state \<Rightarrow> rt_state \<times> bool" where
  "apply_list b st =
     (let (l, ch) = replace_if (truthy (b_spotLatestList b)) (spotLatestList st) (b_spotLatestList b)
      in (st\<lparr>spotLatestList := l\<rparr>, ch))"

text \<open>
  The new state and the flag \<open>changed\<close>; when it is False the state is the old one, and the
  subscribers of the store are not called.
\<close>

definition applySseBatch ::
  "(jsval \<Rightarrow> string) \<Rightarrow> sse_batch \<Rightarrow> rt_state \<Rightarrow> (rt_state \<times> bool) option" where
  "applySseBatch show_val b st =
     (case apply_maps show_val b st of
        (st1, ch1) \<Rightarrow>
          (case apply_list b st1 of
             (st2, ch2) \<Rightarrow>
               (case apply_distribution b st2 of
                  None \<Rightarrow> None
                | Some (st3, ch3) \<Rightarrow>
                    (case apply_singles b st3 of
                       (st4, ch4) \<Rightarrow> Some (st4, ch1 \<or> ch2 \<or> ch3 \<or> ch4)))))"

end
