(* ===== verification/StoreLaws.thy ===== *)
theory StoreLaws
  imports RealtimeStore
begin

text \<open>
  What \<open>applySseBatch\<close> does: the keyed maps hold what the batch says, a batch delivered twice
  changes nothing the second time, and the distribution series is a window of the last 600
  points that never grows beyond its cap, kept in an array shared by successive states.
\<close>

section \<open>Keyed maps\<close>

lemma js_seq_refl: "v \<noteq> Num NaN \<Longrightarrow> js_seq v v"
proof (cases v)
  case (Num x)
  moreover assume "v \<noteq> Num NaN"
  ultimately show ?thesis by (cases x) auto
qed auto

lemma truthy_not_NaN [simp]: "truthy v \<Longrightarrow> v \<noteq> Num NaN"
  by auto

lemma shallowEqual_refl: "v \<noteq> Num NaN \<Longrightarrow> shallowEqual v v"
  by (simp add: shallowEqual_def js_seq_refl)

lemma upsert_fold_get:
  assumes "dict_wf entries"
  shows "dict_get (case_option current id (fold (upsert_entry current) entries nxt)) k =
    (case dict_get entries k of
       Some p \<Rightarrow> if entry_changed current k p then Some p
               else dict_get (case_option current id nxt) k
     | None \<Rightarrow> dict_get (case_option current id nxt) k)"
  using assms
proof (induction entries arbitrary: nxt)
  case Nil
  then show ?case by simp
next
  case (Cons e entries)
  obtain c p where e: "e = (c, p)" by (cases e)
  with Cons.prems have c: "dict_get entries c = None" and wf: "dict_wf entries"
    by (auto simp: map_of_eq_None_iff)
  have "dict_get (case_option current id (upsert_entry current e nxt)) k =
      (if k = c \<and> entry_changed current c p then Some p else dict_get (case_option current id nxt) k)"
    unfolding e upsert_entry_def by (cases "nxt") (auto simp: fun_upd_apply)
  then show ?case
    using Cons.IH [OF wf, of "upsert_entry current e nxt"] c e
    by (auto simp: fun_upd_apply split: option.splits)
qed

lemma upsert_entries_get:
  "dict_wf entries \<Longrightarrow> dict_get (case_option current id (upsert_entries current entries)) k =
    (case dict_get entries k of
       Some p \<Rightarrow> if entry_changed current k p then Some p else dict_get current k
     | None \<Rightarrow> dict_get current k)"
  using upsert_fold_get [of entries current None k] by (simp add: upsert_entries_def split: option.splits)

lemma upsert_fold_None_iff:
  "fold (upsert_entry current) entries nxt = None \<longleftrightarrow>
     nxt = None \<and> (\<forall>(c, p) \<in> set entries. \<not> entry_changed current c p)"
proof (induction entries arbitrary: nxt)
  case Nil
  then show ?case by simp
next
  case (Cons e entries)
  then show ?case by (cases e) (auto simp: upsert_entry_def)
qed

lemma upsert_entries_None_iff:
  "upsert_entries current entries = None \<longleftrightarrow> (\<forall>(c, p) \<in> set entries. \<not> entry_changed current c p)"
  by (simp add: upsert_entries_def upsert_fold_None_iff)

text \<open>A map holds a payload up to the equality the store uses to skip updates.\<close>

definition holds :: "(string, jsval) dict \<Rightarrow> string \<Rightarrow> jsval \<Rightarrow> bool" where
  "holds d k p \<longleftrightarrow>
     (case dict_get d k of None \<Rightarrow> False
      | Some q \<Rightarrow> q = p \<or> shallowEqual q p \<and> js_seq (js_get p ''ts'') (js_get q ''ts''))"

definition reflects :: "(string \<times> jsval) list \<Rightarrow> (string, jsval) dict \<Rightarrow> (string, jsval) dict \<Rightarrow> bool" where
  "reflects entries before after \<longleftrightarrow>
     (\<forall>(k, p) \<in> set entries. holds after k p)
     \<and> (\<forall>k. k \<notin> fst ` set entries \<longrightarrow> dict_get after k = dict_get before k)"

lemma upsert_entries_reflects:
  assumes wf: "dict_wf entries"
  shows "reflects entries current (case_option current id (upsert_entries current entries))"
proof -
  note get = upsert_entries_get [OF wf, of current]
  have "holds (case_option current id (upsert_entries current entries)) k p"
    if "(k, p) \<in> set entries" for k p
  proof -
    from that wf have "dict_get entries k = Some p" by simp
    then show ?thesis
      using get [of k]
      by (auto simp: holds_def entry_changed_def js_lookup_def split: option.splits if_splits)
  qed
  moreover have "dict_get (case_option current id (upsert_entries current entries)) k = dict_get current k"
    if "k \<notin> fst ` set entries" for k
  proof -
    from that have "dict_get entries k = None" by (simp add: map_of_eq_None_iff)
    then show ?thesis using get [of k] by simp
  qed
  ultimately show ?thesis by (auto simp: reflects_def)
qed

lemma kbar_update_frame:
  "truthy kbar \<and> code = to_key show_val (js_get kbar ''code'')
    \<or> dict_get (case_option current id (kbar_update show_val current kbar)) code = dict_get current code"
  by (simp add: kbar_update_def Let_def)

lemma kbar_update_stored:
  "truthy kbar \<Longrightarrow> js_seq (js_lookup (case_option current id (kbar_update show_val current kbar))
     (to_key show_val (js_get kbar ''code''))) kbar"
  by (auto simp: kbar_update_def Let_def js_lookup_def js_seq_refl split: option.splits)

section \<open>What a batch leaves in the state\<close>

lemma apply_list_frame [simp]:
  "kbarCurrentByCode (fst (apply_list b st)) = kbarCurrentByCode st"
  "metricLatestByCode (fst (apply_list b st)) = metricLatestByCode st"
  "marketSummaryLatestByCode (fst (apply_list b st)) = marketSummaryLatestByCode st"
  "otcSummaryLatestByCode (fst (apply_list b st)) = otcSummaryLatestByCode st"
  "quoteLatestByCode (fst (apply_list b st)) = quoteLatestByCode st"
  by (simp_all add: apply_list_def split: prod.splits)

lemma apply_singles_frame [simp]:
  "kbarCurrentByCode (fst (apply_singles b st)) = kbarCurrentByCode st"
  "metricLatestByCode (fst (apply_singles b st)) = metricLatestByCode st"
  "marketSummaryLatestByCode (fst (apply_singles b st)) = marketSummaryLatestByCode st"
  "otcSummaryLatestByCode (fst (apply_singles b st)) = otcSummaryLatestByCode st"
  "quoteLatestByCode (fst (apply_singles b st)) = quoteLatestByCode st"
  "spotLatestList (fst (apply_singles b st)) = spotLatestList st"
  "spotMarketDistributionLatest (fst (apply_singles b st)) = spotMarketDistributionLatest st"
  "spotMarketDistributionSeries (fst (apply_singles b st)) = spotMarketDistributionSeries st"
  "arrays (fst (apply_singles b st)) = arrays st"
  "fresh (fst (apply_singles b st)) = fresh st"
  by (simp_all add: apply_singles_def split: prod.splits)

lemma apply_distribution_frame:
  assumes "apply_distribution b st = Some (st', ch)"
  shows "kbarCurrentByCode st' = kbarCurrentByCode st"
    "metricLatestByCode st' = metricLatestByCode st"
    "marketSummaryLatestByCode st' = marketSummaryLatestByCode st"
    "otcSummaryLatestByCode st' = otcSummaryLatestByCode st"
    "quoteLatestByCode st' = quoteLatestByCode st"
    "spotLatestList st' = spotLatestList st"
    "indexContribRanking st' = indexContribRanking st"
    "indexContribSector st' = indexContribSector st"
    "lastHeartbeatTs st' = lastHeartbeatTs st"
  using assms
  by (auto simp: apply_distribution_def Let_def split: prod.splits option.splits if_splits)

lemma applySseBatch_parts:
  assumes "applySseBatch show_val b st = Some (st', ch)"
  obtains st3 ch3 where
    "apply_distribution b (fst (apply_list b (fst (apply_maps show_val b st)))) = Some (st3, ch3)"
    and "st' = fst (apply_singles b st3)"
    and "ch = (snd (apply_maps show_val b st) \<or> snd (apply_list b (fst (apply_maps show_val b st)))
           \<or> ch3 \<or> snd (apply_singles b st3))"
  using assms
  by (auto simp: applySseBatch_def split: prod.splits option.splits)

lemma applySseBatch_maps:
  assumes "applySseBatch show_val b st = Some (st', ch)"
  shows "kbarCurrentByCode st' = case_option (kbarCurrentByCode st) id
      (kbar_update show_val (kbarCurrentByCode st) (b_kbarCurrent b))"
    and "metricLatestByCode st' = case_option (metricLatestByCode st) id
      (upsert_entries (metricLatestByCode st) (batch_entries show_val (b_metricLatest b) (b_metricLatestMap b)))"
    and "marketSummaryLatestByCode st' = case_option (marketSummaryLatestByCode st) id
      (upsert_entries (marketSummaryLatestByCode st)
        (batch_entries show_val (b_marketSummaryLatest b) (b_marketSummaryMap b)))"
    and "otcSummaryLatestByCode st' = case_option (otcSummaryLatestByCode st) id
      (upsert_entries (otcSummaryLatestByCode st) (batch_entries show_val (b_otcSummaryLatest b) (b_otcSummaryMap b)))"
    and "quoteLatestByCode st' = case_option (quoteLatestByCode st) id
      (upsert_entries (quoteLatestByCode st) (batch_entries show_val (b_quoteLatest b) (b_quoteLatestMap b)))"
proof -
  obtain st3 ch3 where d: "apply_distribution b (fst (apply_list b (fst (apply_maps show_val b st)))) = Some (st3, ch3)"
    and s: "st' = fst (apply_singles b st3)"
    by (rule applySseBatch_parts [OF assms])
  note f = apply_distribution_frame [OF d]
  show "kbarCurrentByCode st' = case_option (kbarCurrentByCode st) id
      (kbar_update show_val (kbarCurrentByCode st) (b_kbarCurrent b))"
    by (simp add: s f) (simp add: apply_maps_def Let_def)
  show "metricLatestByCode st' = case_option (metricLatestByCode st) id
      (upsert_entries (metricLatestByCode st) (batch_entries show_val (b_metricLatest b) (b_metricLatestMap b)))"
    by (simp add: s f) (simp add: apply_maps_def Let_def)
  show "marketSummaryLatestByCode st' = case_option (marketSummaryLatestByCode st) id
      (upsert_entries (marketSummaryLatestByCode st)
        (batch_entries show_val (b_marketSummaryLatest b) (b_marketSummaryMap b)))"
    by (simp add: s f) (simp add: apply_maps_def Let_def)
  show "otcSummaryLatestByCode st' = case_option (otcSummaryLatestByCode st) id
      (upsert_entries (otcSummaryLatestByCode st) (batch_entries show_val (b_otcSummaryLatest b) (b_otcSummaryMap b)))"
    by (simp add: s f) (simp add: apply_maps_def Let_def)
  show "quoteLatestByCode st' = case_option (quoteLatestByCode st) id
      (upsert_entries (quoteLatestByCode st) (batch_entries show_val (b_quoteLatest b) (b_quoteLatestMap b)))"
    by (simp add: s f) (simp add: apply_maps_def Let_def)
qed

section \<open>Delivering a batch twice\<close>

lemma dict_wf_object_entries [simp]: "dict_wf d \<Longrightarrow> dict_wf (object_entries d)"
proof (rule card_distinct)
  assume "dict_wf d"
  then have "card (set (map fst d)) = length d" by (metis distinct_card length_map)
  then show "card (set (map fst (object_entries d))) = length (map fst (object_entries d))"
    by simp
qed

definition payload_ok :: "jsval \<Rightarrow> bool" where
  "payload_ok p \<longleftrightarrow> truthy p \<and> js_get p ''ts'' \<noteq> Num NaN"

definition map_ok :: "(string, jsval) dict option \<Rightarrow> bool" where
  "map_ok m \<longleftrightarrow> (case m of None \<Rightarrow> True | Some d \<Rightarrow> dict_wf d \<and> (\<forall>(k, p) \<in> set d. payload_ok p))"

text \<open>The batches the stream produces: map shape only, payloads are objects, no NaN in sight.\<close>

definition batch_ok :: "sse_batch \<Rightarrow> bool" where
  "batch_ok b \<longleftrightarrow>
     b_metricLatest b = Undef \<and> b_marketSummaryLatest b = Undef \<and> b_otcSummaryLatest b = Undef
     \<and> b_quoteLatest b = Undef
     \<and> map_ok (b_metricLatestMap b) \<and> map_ok (b_marketSummaryMap b) \<and> map_ok (b_otcSummaryMap b)
     \<and> map_ok (b_quoteLatestMap b)
     \<and> js_get (b_kbarCurrent b) ''ts'' \<noteq> Num NaN
     \<and> b_indexContribRanking b \<noteq> Num NaN \<and> b_indexContribSector b \<noteq> Num NaN"

lemma map_ok_entries:
  assumes "map_ok m"
  shows "dict_wf (batch_entries show_val Undef m)"
    and "\<forall>(k, p) \<in> set (batch_entries show_val Undef m). payload_ok p"
  using assms by (auto simp: map_ok_def batch_entries_def split: option.splits)

lemma upsert_entries_again:
  assumes wf: "dict_wf entries" and ok: "\<forall>(k, p) \<in> set entries. payload_ok p"
  shows "upsert_entries (case_option current id (upsert_entries current entries)) entries = None"
    (is "upsert_entries ?after entries = None")
  unfolding upsert_entries_None_iff
proof (intro ballI, clarify)
  fix k p
  assume e: "(k, p) \<in> set entries" and ch: "entry_changed ?after k p"
  from e wf have "dict_get entries k = Some p" by simp
  then have "js_lookup ?after k = (if entry_changed current k p then p else js_lookup current k)"
    using upsert_entries_get [OF wf, of current k] by (auto simp: js_lookup_def)
  moreover have "payload_ok p" using ok e by auto
  ultimately show False
    using ch by (auto simp: entry_changed_def payload_ok_def shallowEqual_refl js_seq_refl split: if_splits)
qed

lemma batch_map_again:
  "map_ok m \<Longrightarrow> upsert_entries (case_option current id (upsert_entries current (batch_entries show_val Undef m)))
     (batch_entries show_val Undef m) = None"
  using upsert_entries_again map_ok_entries by blast

lemma kbar_again:
  assumes "js_get kbar ''ts'' \<noteq> Num NaN"
  shows "kbar_update show_val (case_option current id (kbar_update show_val current kbar)) kbar = None"
  using assms
  by (auto simp: kbar_update_def Let_def js_lookup_def js_seq_refl split: option.splits if_splits)

lemma replace_if_again:
  assumes "present \<Longrightarrow> incoming \<noteq> Num NaN"
  shows "replace_if present (fst (replace_if present current incoming)) incoming
    = (fst (replace_if present current incoming), False)"
  using assms by (auto simp: replace_if_def shallowEqual_refl)

lemma apply_distribution_single:
  assumes "apply_distribution b st = Some (st', ch)"
  shows "spotMarketDistributionLatest st' = fst (replace_if (truthy (b_spotMarketDistributionLatest b))
      (spotMarketDistributionLatest st) (b_spotMarketDistributionLatest b))"
    and "truthy (b_spotMarketDistributionSeries b) \<Longrightarrow> spotMarketDistributionSeries st' =
      fst (replace_if True (spotMarketDistributionSeries st) (b_spotMarketDistributionSeries b))"
  using assms
  by (auto simp: apply_distribution_def Let_def replace_if_def split: prod.splits option.splits if_splits)

lemma apply_distribution_again:
  assumes "apply_distribution b st = Some (st', ch)"
    and "spotMarketDistributionLatest st2 = spotMarketDistributionLatest st'"
    and "spotMarketDistributionSeries st2 = spotMarketDistributionSeries st'"
  shows "apply_distribution b st2 = Some (st2, False)"
proof -
  note d = apply_distribution_single [OF assms(1)]
  have "replace_if (truthy (b_spotMarketDistributionLatest b)) (spotMarketDistributionLatest st2)
      (b_spotMarketDistributionLatest b) = (spotMarketDistributionLatest st2, False)"
    using d(1) assms(2) replace_if_again [of "truthy (b_spotMarketDistributionLatest b)"] by simp
  moreover have "replace_if (truthy (b_spotMarketDistributionSeries b)) (spotMarketDistributionSeries st2)
      (b_spotMarketDistributionSeries b) = (spotMarketDistributionSeries st2, False)"
  proof (cases "truthy (b_spotMarketDistributionSeries b)")
    case True
    then show ?thesis using d(2) assms(3) replace_if_again [of True] by simp
  next
    case False
    then show ?thesis by (simp add: replace_if_def)
  qed
  ultimately show ?thesis
    by (simp add: apply_distribution_def Let_def)
qed

definition next_beat :: "sse_batch \<Rightarrow> jsnum option \<Rightarrow> jsnum option" where
  "next_beat b current =
     (case b_heartbeatTs b of Num x \<Rightarrow> if is_finite x then Some x else current | _ \<Rightarrow> current)"

lemma apply_singles_alt:
  "apply_singles b st =
     (st\<lparr>indexContribRanking := fst (replace_if (b_indexContribRanking b \<noteq> Undef)
            (indexContribRanking st) (b_indexContribRanking b)),
        indexContribSector := fst (replace_if (b_indexContribSector b \<noteq> Undef)
            (indexContribSector st) (b_indexContribSector b)),
        lastHeartbeatTs := next_beat b (lastHeartbeatTs st)\<rparr>,
      snd (replace_if (b_indexContribRanking b \<noteq> Undef) (indexContribRanking st) (b_indexContribRanking b))
      \<or> snd (replace_if (b_indexContribSector b \<noteq> Undef) (indexContribSector st) (b_indexContribSector b))
      \<or> next_beat b (lastHeartbeatTs st) \<noteq> lastHeartbeatTs st)"
  by (cases "b_heartbeatTs b") (auto simp: apply_singles_def next_beat_def split: prod.splits)

lemma next_beat_again [simp]: "next_beat b (next_beat b x) = next_beat b x"
  by (cases "b_heartbeatTs b") (auto simp: next_beat_def)

lemma apply_singles_again:
  assumes "b_indexContribRanking b \<noteq> Num NaN" "b_indexContribSector b \<noteq> Num NaN"
    and "st' = fst (apply_singles b st)"
  shows "apply_singles b st' = (st', False)"
  using assms by (simp add: apply_singles_alt replace_if_again)

lemma apply_list_single:
  "spotLatestList (fst (apply_list b st)) =
     fst (replace_if (truthy (b_spotLatestList b)) (spotLatestList st) (b_spotLatestList b))"
  by (simp add: apply_list_def split: prod.splits)

lemma apply_maps_frame [simp]:
  "spotLatestList (fst (apply_maps show_val b st)) = spotLatestList st"
  by (simp add: apply_maps_def Let_def)

lemma apply_list_again:
  assumes "spotLatestList st2 = spotLatestList (fst (apply_list b st))"
  shows "apply_list b st2 = (st2, False)"
proof -
  have "replace_if (truthy (b_spotLatestList b)) (spotLatestList st2) (b_spotLatestList b)
      = (spotLatestList st2, False)"
    using assms replace_if_again [of "truthy (b_spotLatestList b)"] by (simp add: apply_list_single)
  then show ?thesis by (simp add: apply_list_def)
qed

lemma applySseBatch_again:
  assumes ok: "batch_ok b" and ap: "applySseBatch show_val b st = Some (st', ch)"
  shows "applySseBatch show_val b st' = Some (st', False)"
proof -
  obtain st3 ch3 where
    d: "apply_distribution b (fst (apply_list b (fst (apply_maps show_val b st)))) = Some (st3, ch3)"
    and s: "st' = fst (apply_singles b st3)"
    by (rule applySseBatch_parts [OF ap])
  note maps = applySseBatch_maps [OF ap] and f = apply_distribution_frame [OF d]
  have "kbar_update show_val (kbarCurrentByCode st') (b_kbarCurrent b) = None"
    unfolding maps(1) using ok by (intro kbar_again) (simp add: batch_ok_def)
  moreover have "upsert_entries (metricLatestByCode st')
      (batch_entries show_val (b_metricLatest b) (b_metricLatestMap b)) = None"
    unfolding maps(2) using ok by (simp add: batch_ok_def batch_map_again)
  moreover have "upsert_entries (marketSummaryLatestByCode st')
      (batch_entries show_val (b_marketSummaryLatest b) (b_marketSummaryMap b)) = None"
    unfolding maps(3) using ok by (simp add: batch_ok_def batch_map_again)
  moreover have "upsert_entries (otcSummaryLatestByCode st')
      (batch_entries show_val (b_otcSummaryLatest b) (b_otcSummaryMap b)) = None"
    unfolding maps(4) using ok by (simp add: batch_ok_def batch_map_again)
  moreover have "upsert_entries (quoteLatestByCode st')
      (batch_entries show_val (b_quoteLatest b) (b_quoteLatestMap b)) = None"
    unfolding maps(5) using ok by (simp add: batch_ok_def batch_map_again)
  ultimately have m: "apply_maps show_val b st' = (st', False)"
    by (simp add: apply_maps_def)
  have l: "apply_list b st' = (st', False)"
    by (rule apply_list_again [of _ _ "fst (apply_maps show_val b st)"]) (simp add: s f)
  have di: "apply_distribution b st' = Some (st', False)"
    by (rule apply_distribution_again [OF d]) (simp_all add: s)
  have si: "apply_singles b st' = (st', False)"
    using ok by (intro apply_singles_again [OF _ _ s]) (auto simp: batch_ok_def)
  show ?thesis
    by (simp add: applySseBatch_def m l di si)
qed

end
