(* ===== verification/DistributionSeries.thy ===== *)
theory DistributionSeries
  imports StoreLaws
begin

text \<open>
  The distribution series of the realtime store, as an abstract list of points. Appending on
  the heap refines \<open>append_point\<close> on lists; a run of distribution events leaves the window of
  the last 600; and because the items array is mutated in place, the value an earlier state
  holds shows the later points.
\<close>

section \<open>The abstract series\<close>

definition window :: "nat \<Rightarrow> 'a list \<Rightarrow> 'a list" where
  "window c xs = drop (length xs - c) xs"

lemma length_window [simp]: "length (window c xs) = min c (length xs)"
  by (simp add: window_def)

lemma window_Nil [simp]: "window c [] = []"
  by (simp add: window_def)

lemma map_window: "map f (window c xs) = window c (map f xs)"
  by (simp add: window_def drop_map)

lemma window_snoc: "window c (window c xs @ [x]) = window c (xs @ [x])"
proof (cases "length xs < c")
  case True
  then show ?thesis by (simp add: window_def)
next
  case False
  show ?thesis
  proof (cases "c = 0")
    case True
    then show ?thesis by (simp add: window_def)
  next
    case c: False
    then have "Suc (length xs - c) \<le> length xs" using False by linarith
    then show ?thesis
      using False c by (simp add: window_def Suc_diff_le drop_drop)
  qed
qed

lemma last_window: "xs \<noteq> [] \<Longrightarrow> 0 < c \<Longrightarrow> last (window c xs) = last xs"
  by (simp add: window_def)

lemma set_window: "set (window c xs) \<subseteq> set xs"
  by (simp add: window_def set_drop_subset)

definition append_point :: "jsval list \<Rightarrow> jsval \<Rightarrow> jsval list" where
  "append_point xs x =
     (if xs \<noteq> [] \<and> same_item (last xs) x then xs
      else if xs \<noteq> [] \<and> js_seq (js_get (last xs) ''ts'') (js_get x ''ts'') then butlast xs @ [x]
      else window SPOT_MARKET_DISTRIBUTION_SERIES_CAP (xs @ [x]))"

definition series_items :: "(nat \<Rightarrow> jsval list option) \<Rightarrow> jsval \<Rightarrow> jsval list" where
  "series_items h series = (case array_items h (js_get series ''items'') of Some xs \<Rightarrow> xs | None \<Rightarrow> [])"

definition series_points :: "rt_state \<Rightarrow> jsval list" where
  "series_points st = series_items (arrays st) (spotMarketDistributionSeries st)"

definition is_series :: "jsval \<Rightarrow> bool" where
  "is_series v \<longleftrightarrow> (\<exists>r ps a xs. v = Obj r ps \<and> js_get v ''items'' = Arr a xs)"

section \<open>Refinement\<close>

lemma append_refines:
  assumes ok: "v = Null \<or> is_series v" and items: "\<forall>x \<in> set (series_items h v). truthy x"
  obtains v' h' n' where "appendSpotMarketDistributionSeries h n v x = Some (v', h', n')"
    and "series_items h' v' = append_point (series_items h v) x" and "is_series v'"
proof (cases "v = Null")
  case True
  let ?v' = "Obj n [(''items'', Arr (n + 1) [x])]"
  have "append_point (series_items h v) x = [x]"
    using True by (simp add: series_items_def array_items_def append_point_def window_def
        SPOT_MARKET_DISTRIBUTION_SERIES_CAP_def)
  with True show ?thesis
    by (intro that [of ?v' "h(n + 1 \<mapsto> [x])" "n + 2"])
      (auto simp: appendSpotMarketDistributionSeries_def series_items_def array_items_def is_series_def)
next
  case False
  with ok obtain r ps a xs where v: "v = Obj r ps" and a: "js_get v ''items'' = Arr a xs"
    by (auto simp: is_series_def)
  define ys where "ys = (case h a of Some ys \<Rightarrow> ys | None \<Rightarrow> xs)"
  have ys: "series_items h v = ys" by (simp add: series_items_def array_items_def a ys_def)
  let ?v' = "Obj n [(''items'', Arr a xs)]"
  let ?same = "ys \<noteq> [] \<and> same_item (last ys) x"
  let ?ts = "ys \<noteq> [] \<and> js_seq (js_get (last ys) ''ts'') (js_get x ''ts'')"
  have tv: "truthy v" using v by simp
  have "ys \<noteq> [] \<Longrightarrow> truthy (last ys)" using items by (simp add: ys)
  then have app: "appendSpotMarketDistributionSeries h n v x =
      (if ?same then Some (v, h, n)
       else if ?ts then Some (?v', h(a \<mapsto> butlast ys @ [x]), n + 1)
       else Some (?v', h(a \<mapsto> window SPOT_MARKET_DISTRIBUTION_SERIES_CAP (ys @ [x])), n + 1))"
    using tv by (cases "ys = []")
      (simp_all add: appendSpotMarketDistributionSeries_def a Let_def window_def flip: ys_def)
  have vals: "series_items (h(a \<mapsto> zs)) ?v' = zs" "is_series ?v'" for zs
    by (auto simp: series_items_def array_items_def is_series_def)
  have "is_series v" using False ok by simp
  then show ?thesis
    using app vals ys
    by (cases ?same; cases ?ts) (auto simp: append_point_def intro!: that)
qed

text \<open>A batch with a distribution event only, and a sequence of deliveries.\<close>

definition distribution_batch :: "jsval \<Rightarrow> sse_batch" where
  "distribution_batch p = empty_batch\<lparr>b_spotMarketDistributionLatest := p\<rparr>"

fun deliver :: "(jsval \<Rightarrow> string) \<Rightarrow> sse_batch list \<Rightarrow> rt_state \<Rightarrow> rt_state option" where
  "deliver show_val [] st = Some st"
| "deliver show_val (b # bs) st =
     (case applySseBatch show_val b st of None \<Rightarrow> None | Some (st', _) \<Rightarrow> deliver show_val bs st')"

lemma deliver_append:
  "deliver show_val (bs @ cs) st = Option.bind (deliver show_val bs st) (deliver show_val cs)"
  by (induction bs arbitrary: st) (auto split: option.splits)

lemma apply_distribution_only:
  assumes p: "truthy p" and new: "\<not> shallowEqual (spotMarketDistributionLatest st) p"
    and ap: "appendSpotMarketDistributionSeries (arrays st) (fresh st + 1) (spotMarketDistributionSeries st)
      (toSpotMarketDistributionSeriesItem (fresh st) p) = Some (v, h, n)"
  shows "applySseBatch show_val (distribution_batch p) st =
    Some (st\<lparr>spotMarketDistributionLatest := p, spotMarketDistributionSeries := v, arrays := h, fresh := n\<rparr>, True)"
proof -
  have "apply_maps show_val (distribution_batch p) st = (st, False)"
    by (simp add: apply_maps_def distribution_batch_def empty_batch_def kbar_update_def
        batch_entries_def upsert_entries_def)
  moreover have "apply_list (distribution_batch p) st = (st, False)"
    by (simp add: apply_list_def distribution_batch_def empty_batch_def replace_if_def)
  moreover have "apply_distribution (distribution_batch p) st =
    Some (st\<lparr>spotMarketDistributionLatest := p, spotMarketDistributionSeries := v, arrays := h, fresh := n\<rparr>, True)"
    using p new ap
    by (simp add: apply_distribution_def distribution_batch_def empty_batch_def replace_if_def)
  moreover have "apply_singles (distribution_batch p) st' = (st', False)" for st'
    by (simp add: apply_singles_def distribution_batch_def empty_batch_def replace_if_def)
  ultimately show ?thesis by (simp add: applySseBatch_def)
qed

section \<open>A run of distribution events\<close>

definition item_values :: "jsval \<Rightarrow> jsval list" where
  "item_values v = map (js_get v) series_item_keys"

lemma item_values_item [simp]:
  "item_values (toSpotMarketDistributionSeriesItem ref p) = item_values p"
  by (simp add: item_values_def toSpotMarketDistributionSeriesItem_def series_item_keys_def)

lemma item_ts: "js_get v ''ts'' = hd (item_values v)"
  by (simp add: item_values_def series_item_keys_def)

definition newer :: "jsval \<Rightarrow> jsval \<Rightarrow> bool" where
  "newer p q \<longleftrightarrow> \<not> js_seq p q \<and> (\<exists>r ps s qs a b. p = Obj r ps \<and> q = Obj s qs
     \<and> js_get p ''ts'' = Num (Fin a) \<and> js_get q ''ts'' = Num (Fin b) \<and> a < b)"

lemma newer_not_equal:
  assumes "newer p q"
  shows "\<not> shallowEqual p q"
proof
  assume eq: "shallowEqual p q"
  from assms obtain r ps s qs a b where pq: "p = Obj r ps" "q = Obj s qs"
    and ts: "js_get p ''ts'' = Num (Fin a)" "js_get q ''ts'' = Num (Fin b)" "a < b"
    and ne: "\<not> js_seq p q"
    by (auto simp: newer_def)
  from ts(1) pq have "(''ts'', Num (Fin a)) \<in> set (own_props p)"
    by (auto split: option.splits dest: map_of_SomeD)
  with eq ne ts show False by (auto simp: shallowEqual_def)
qed

lemma window_of_run:
  assumes "ps \<noteq> [] \<longrightarrow> is_object (hd ps)" and "successively newer ps"
  shows "\<exists>st. deliver show_val (map distribution_batch ps) initialState = Some st
    \<and> map item_values (series_points st) = window SPOT_MARKET_DISTRIBUTION_SERIES_CAP (map item_values ps)
    \<and> spotMarketDistributionLatest st = (if ps = [] then Null else last ps)
    \<and> (if ps = [] then spotMarketDistributionSeries st = Null else is_series (spotMarketDistributionSeries st))
    \<and> (\<forall>x \<in> set (series_points st). truthy x)"
  using assms
proof (induction ps rule: rev_induct)
  case Nil
  then show ?case
    by (simp add: initialState_def series_points_def series_items_def array_items_def)
next
  case (snoc p ps)
  from snoc.prems have "ps \<noteq> [] \<longrightarrow> is_object (hd ps)" and succ: "successively newer ps"
    and new: "ps \<noteq> [] \<longrightarrow> newer (last ps) p"
    by (auto simp: successively_append_iff hd_append split: if_splits)
  from snoc.IH [OF this(1,2)] obtain st where
    st: "deliver show_val (map distribution_batch ps) initialState = Some st"
    and vals: "map item_values (series_points st) = window SPOT_MARKET_DISTRIBUTION_SERIES_CAP (map item_values ps)"
    and latest: "spotMarketDistributionLatest st = (if ps = [] then Null else last ps)"
    and ser: "if ps = [] then spotMarketDistributionSeries st = Null else is_series (spotMarketDistributionSeries st)"
    and tr: "\<forall>x \<in> set (series_points st). truthy x"
    by blast
  have p: "is_object p" using snoc.prems(1) new by (cases ps) (auto simp: newer_def)
  let ?x = "toSpotMarketDistributionSeriesItem (fresh st) p"
  have "spotMarketDistributionSeries st = Null \<or> is_series (spotMarketDistributionSeries st)"
    using ser by (auto split: if_splits)
  then obtain v h n where
    ap: "appendSpotMarketDistributionSeries (arrays st) (fresh st + 1) (spotMarketDistributionSeries st) ?x
      = Some (v, h, n)"
    and pts: "series_items h v = append_point (series_points st) ?x" and v: "is_series v"
    using tr unfolding series_points_def by (rule append_refines)
  have ne: "\<not> shallowEqual (spotMarketDistributionLatest st) p"
  proof (cases "ps = []")
    case True
    then show ?thesis using latest p by (cases p) (auto simp: shallowEqual_def)
  next
    case False
    then show ?thesis using latest new newer_not_equal by simp
  qed
  define st' where "st' = st\<lparr>spotMarketDistributionLatest := p, spotMarketDistributionSeries := v,
    arrays := h, fresh := n\<rparr>"
  have run: "deliver show_val (map distribution_batch (ps @ [p])) initialState = Some st'"
    using apply_distribution_only [OF is_object_truthy [OF p] ne ap] st
    by (simp add: deliver_append st'_def)
  have push: "append_point (series_points st) ?x = window SPOT_MARKET_DISTRIBUTION_SERIES_CAP (series_points st @ [?x])"
  proof (cases "series_points st = []")
    case True
    then show ?thesis by (simp add: append_point_def)
  next
    case False
    then have "ps \<noteq> []" using vals by (auto simp: window_def)
    have "item_values (last (series_points st)) = last (window SPOT_MARKET_DISTRIBUTION_SERIES_CAP (map item_values ps))"
      using False by (simp flip: vals add: last_map)
    also have "\<dots> = item_values (last ps)"
      using \<open>ps \<noteq> []\<close> by (simp add: last_window last_map SPOT_MARKET_DISTRIBUTION_SERIES_CAP_def)
    finally have "js_get (last (series_points st)) ''ts'' = js_get (last ps) ''ts''" by (simp add: item_ts)
    moreover have "js_get ?x ''ts'' = js_get p ''ts''" by (simp add: item_ts)
    moreover have "newer (last ps) p" using new \<open>ps \<noteq> []\<close> by simp
    ultimately have "\<not> js_seq (js_get (last (series_points st)) ''ts'') (js_get ?x ''ts'')"
      by (auto simp: newer_def)
    then show ?thesis
      by (auto simp: append_point_def same_item_def series_item_keys_def)
  qed
  have pts': "series_points st' = window SPOT_MARKET_DISTRIBUTION_SERIES_CAP (series_points st @ [?x])"
    by (subst series_points_def) (simp add: st'_def pts push)
  have "map item_values (series_points st') = window SPOT_MARKET_DISTRIBUTION_SERIES_CAP (map item_values (ps @ [p]))"
    using vals by (simp add: pts' map_window window_snoc)
  moreover have "\<forall>x \<in> set (series_points st'). truthy x"
  proof
    fix x assume "x \<in> set (series_points st')"
    then have "x \<in> set (series_points st @ [?x])" unfolding pts' by (rule subsetD [OF set_window])
    then show "truthy x" using tr by (auto simp: toSpotMarketDistributionSeriesItem_def)
  qed
  ultimately show ?case using run v by (simp add: st'_def)
qed

text \<open>Appending to an existing series: the array stays, its contents change.\<close>

lemma append_event:
  assumes p: "is_object p" and new: "\<not> shallowEqual (spotMarketDistributionLatest st) p"
    and v: "truthy (spotMarketDistributionSeries st)" and a: "js_get (spotMarketDistributionSeries st) ''items'' = Arr a xs"
    and tr: "\<forall>x \<in> set (series_points st). truthy x"
    and ts: "series_points st \<noteq> [] \<longrightarrow> \<not> js_seq (js_get (last (series_points st)) ''ts'') (js_get p ''ts'')"
  obtains st' x where "applySseBatch show_val (distribution_batch p) st = Some (st', True)"
    and "spotMarketDistributionLatest st' = p"
    and "truthy (spotMarketDistributionSeries st')" and "js_get (spotMarketDistributionSeries st') ''items'' = Arr a xs"
    and "arrays st' a = Some (series_points st')"
    and "series_points st' = window SPOT_MARKET_DISTRIBUTION_SERIES_CAP (series_points st @ [x])"
    and "item_values x = item_values p" and "truthy x"
proof -
  let ?x = "toSpotMarketDistributionSeriesItem (fresh st) p"
  define ys where "ys = (case arrays st a of Some ys \<Rightarrow> ys | None \<Rightarrow> xs)"
  have ys: "series_points st = ys" by (simp add: series_points_def series_items_def array_items_def a ys_def)
  have x: "js_get ?x ''ts'' = js_get p ''ts''" by (simp add: item_ts)
  have "ys \<noteq> [] \<Longrightarrow> truthy (last ys) \<and> \<not> js_seq (js_get (last ys) ''ts'') (js_get ?x ''ts'')
      \<and> \<not> same_item (last ys) ?x"
    using ts tr unfolding x ys by (auto simp: same_item_def series_item_keys_def x)
  then have ap: "appendSpotMarketDistributionSeries (arrays st) (fresh st + 1) (spotMarketDistributionSeries st) ?x
    = Some (Obj (fresh st + 1) [(''items'', Arr a xs)],
        (arrays st)(a \<mapsto> window SPOT_MARKET_DISTRIBUTION_SERIES_CAP (ys @ [?x])), fresh st + 2)"
    using v by (cases "ys = []")
      (simp_all add: appendSpotMarketDistributionSeries_def a Let_def window_def flip: ys_def)
  show ?thesis
    by (rule that [OF apply_distribution_only [OF is_object_truthy [OF p] new ap, of show_val], of ?x])
      (simp_all add: series_points_def series_items_def array_items_def ys [unfolded series_points_def series_items_def array_items_def]
        toSpotMarketDistributionSeriesItem_def item_values_def series_item_keys_def)
qed

lemma shared_append:
  assumes p: "is_object p" and new: "\<not> shallowEqual (spotMarketDistributionLatest st) p"
    and ser: "is_series (spotMarketDistributionSeries st)" and tr: "\<forall>x \<in> set (series_points st). truthy x"
    and ts: "series_points st \<noteq> [] \<longrightarrow> \<not> js_seq (js_get (last (series_points st)) ''ts'') (js_get p ''ts'')"
  shows "\<exists>st'. applySseBatch show_val (distribution_batch p) st = Some (st', True)
    \<and> js_seq (js_get (spotMarketDistributionSeries st) ''items'') (js_get (spotMarketDistributionSeries st') ''items'')
    \<and> series_items (arrays st') (spotMarketDistributionSeries st) = series_points st'
    \<and> item_values (last (series_points st')) = item_values p"
proof -
  obtain r ps a xs where "spotMarketDistributionSeries st = Obj r ps"
    and a: "js_get (spotMarketDistributionSeries st) ''items'' = Arr a xs"
    using ser by (auto simp: is_series_def)
  then have "truthy (spotMarketDistributionSeries st)" by simp
  from append_event [OF p new this a tr ts, of show_val] obtain st' x where
    "applySseBatch show_val (distribution_batch p) st = Some (st', True)"
    "js_get (spotMarketDistributionSeries st') ''items'' = Arr a xs" "arrays st' a = Some (series_points st')"
    "series_points st' = window SPOT_MARKET_DISTRIBUTION_SERIES_CAP (series_points st @ [x])" "item_values x = item_values p"
    by metis
  then show ?thesis
    by (intro exI [of _ st'])
      (simp add: a series_items_def [of _ "spotMarketDistributionSeries st"] array_items_def last_window SPOT_MARKET_DISTRIBUTION_SERIES_CAP_def)
qed

section \<open>Properties\<close>

text \<open>
  C10. The store reflects a batch: after \<open>applySseBatch\<close> every keyed map answers, for each key
  of the batch, the payload of the batch (or one the store's own comparison calls equal, with
  the same \<open>ts\<close>), and for every other key what it answered before; the k-bar of the batch is
  found under its own code, and under every other code what was there before.
\<close>

theorem store_reflects_batch:
  assumes "applySseBatch show_val b st = Some (st', ch)"
    and "dict_wf (batch_entries show_val (b_metricLatest b) (b_metricLatestMap b))"
    and "dict_wf (batch_entries show_val (b_marketSummaryLatest b) (b_marketSummaryMap b))"
    and "dict_wf (batch_entries show_val (b_otcSummaryLatest b) (b_otcSummaryMap b))"
    and "dict_wf (batch_entries show_val (b_quoteLatest b) (b_quoteLatestMap b))"
  shows "reflects (batch_entries show_val (b_metricLatest b) (b_metricLatestMap b))
      (metricLatestByCode st) (metricLatestByCode st')
    \<and> reflects (batch_entries show_val (b_marketSummaryLatest b) (b_marketSummaryMap b))
      (marketSummaryLatestByCode st) (marketSummaryLatestByCode st')
    \<and> reflects (batch_entries show_val (b_otcSummaryLatest b) (b_otcSummaryMap b))
      (otcSummaryLatestByCode st) (otcSummaryLatestByCode st')
    \<and> reflects (batch_entries show_val (b_quoteLatest b) (b_quoteLatestMap b))
      (quoteLatestByCode st) (quoteLatestByCode st')
    \<and> (truthy (b_kbarCurrent b) \<longrightarrow>
        js_seq (js_lookup (kbarCurrentByCode st') (to_key show_val (js_get (b_kbarCurrent b) ''code'')))
          (b_kbarCurrent b))
    \<and> (\<forall>code. truthy (b_kbarCurrent b) \<and> code = to_key show_val (js_get (b_kbarCurrent b) ''code'')
        \<or> dict_get (kbarCurrentByCode st') code = dict_get (kbarCurrentByCode st) code)"
  unfolding applySseBatch_maps [OF assms(1)]
  using assms(2-5) upsert_entries_reflects kbar_update_stored kbar_update_frame by auto

theorem store_reflects_batch_witness:
  "\<exists>st' ch. applySseBatch (\<lambda>_. '''')
      (empty_batch\<lparr>b_metricLatestMap := Some [(''TXFE6'', Obj 1 [(''ts'', Num (Fin 2)), (''mid'', Num (Fin 7))])]\<rparr>)
      (initialState\<lparr>metricLatestByCode := [(''TXFE6'', Obj 0 [(''ts'', Num (Fin 1))])]\<rparr>) = Some (st', ch)
    \<and> holds (metricLatestByCode st') ''TXFE6'' (Obj 1 [(''ts'', Num (Fin 2)), (''mid'', Num (Fin 7))])"
  (is "\<exists>st' ch. applySseBatch ?s ?b ?st = Some (st', ch) \<and> holds (metricLatestByCode st') ?k ?p")
proof -
  have "apply_distribution ?b st = Some (st, False)" for st
    by (simp add: apply_distribution_def empty_batch_def replace_if_def)
  then have "applySseBatch ?s ?b ?st \<noteq> None"
    by (simp add: applySseBatch_def split: prod.splits)
  then obtain st' ch where ap: "applySseBatch ?s ?b ?st = Some (st', ch)" by auto
  have entries: "batch_entries ?s (b_metricLatest ?b) (b_metricLatestMap ?b) = [(?k, ?p)]"
    "batch_entries ?s (b_marketSummaryLatest ?b) (b_marketSummaryMap ?b) = []"
    "batch_entries ?s (b_otcSummaryLatest ?b) (b_otcSummaryMap ?b) = []"
    "batch_entries ?s (b_quoteLatest ?b) (b_quoteLatestMap ?b) = []"
    by (simp_all add: batch_entries_def empty_batch_def object_entries_def array_index_def char_digit_def)
  show ?thesis
    using store_reflects_batch [OF ap] ap unfolding entries by (auto simp: reflects_def)
qed

text \<open>
  C11. Delivering the same batch twice: the second \<open>applySseBatch\<close> leaves the state untouched
  and reports no change, so no subscriber runs.
\<close>

theorem batch_idempotent:
  assumes "batch_ok b" and "applySseBatch show_val b st = Some (st', ch)"
  shows "applySseBatch show_val b st' = Some (st', False)"
  using assms by (rule applySseBatch_again)

theorem batch_idempotent_witness:
  "applySseBatch (\<lambda>_. '''') (empty_batch\<lparr>b_heartbeatTs := Num (Fin 5)\<rparr>)
     (initialState\<lparr>lastHeartbeatTs := Some (Fin 5)\<rparr>)
     = Some (initialState\<lparr>lastHeartbeatTs := Some (Fin 5)\<rparr>, False)"
proof (rule batch_idempotent [where ch = True and st = initialState])
  show "batch_ok (empty_batch\<lparr>b_heartbeatTs := Num (Fin 5)\<rparr>)"
    by (simp add: batch_ok_def map_ok_def empty_batch_def)
  show "applySseBatch (\<lambda>_. '''') (empty_batch\<lparr>b_heartbeatTs := Num (Fin 5)\<rparr>) initialState
      = Some (initialState\<lparr>lastHeartbeatTs := Some (Fin 5)\<rparr>, True)"
    by (simp add: applySseBatch_def apply_maps_def apply_list_def apply_distribution_def
        apply_singles_def empty_batch_def initialState_def replace_if_def kbar_update_def
        batch_entries_def upsert_entries_def)
qed

text \<open>
  The distribution series is a sliding window: delivering distribution events with
  increasing timestamps to an empty store never throws and leaves in the series the points of
  the last 600 events, in order.
\<close>

theorem series_is_window:
  assumes "ps \<noteq> [] \<longrightarrow> is_object (hd ps)" and "successively newer ps"
  shows "\<exists>st. deliver show_val (map distribution_batch ps) initialState = Some st
    \<and> map item_values (series_points st) = window SPOT_MARKET_DISTRIBUTION_SERIES_CAP (map item_values ps)"
  using window_of_run [OF assms] by blast

theorem series_is_window_witness:
  "\<exists>st. deliver (\<lambda>_. '''') (map distribution_batch
      [Obj 0 [(''ts'', Num (Fin 1)), (''up_count'', Num (Fin 3))], Obj 1 [(''ts'', Num (Fin 2))]]) initialState = Some st
    \<and> map item_values (series_points st) =
      [[Num (Fin 1), Num (Fin 3), Undef, Undef, Undef, Undef], [Num (Fin 2), Undef, Undef, Undef, Undef, Undef]]"
  using series_is_window [of "[Obj 0 [(''ts'', Num (Fin 1)), (''up_count'', Num (Fin 3))], Obj 1 [(''ts'', Num (Fin 2))]]"
      "\<lambda>_. ''''"]
  by (simp add: newer_def window_def SPOT_MARKET_DISTRIBUTION_SERIES_CAP_def item_values_def series_item_keys_def
      del: deliver.simps)

text \<open>
  The series array is shared between states: when an event with a new timestamp is
  appended, the items array of the new state is the very array of the old one, so a reader
  that kept the old series sees the new points in it.
\<close>

theorem series_array_shared:
  assumes "is_object p" and "\<not> shallowEqual (spotMarketDistributionLatest st) p"
    and "is_series (spotMarketDistributionSeries st)" and "\<forall>x \<in> set (series_points st). truthy x"
    and "series_points st \<noteq> [] \<longrightarrow> \<not> js_seq (js_get (last (series_points st)) ''ts'') (js_get p ''ts'')"
  shows "\<exists>st'. applySseBatch show_val (distribution_batch p) st = Some (st', True)
    \<and> js_seq (js_get (spotMarketDistributionSeries st) ''items'') (js_get (spotMarketDistributionSeries st') ''items'')
    \<and> series_items (arrays st') (spotMarketDistributionSeries st) = series_points st'
    \<and> item_values (last (series_points st')) = item_values p"
  using assms by (rule shared_append)

theorem series_array_shared_witness:
  "\<exists>st'. applySseBatch (\<lambda>_. '''') (distribution_batch (Obj 9 [(''ts'', Num (Fin 2))]))
      (initialState\<lparr>spotMarketDistributionSeries := Obj 7 [(''items'', Arr 8 [Obj 6 [(''ts'', Num (Fin 1))]])]\<rparr>)
        = Some (st', True)
    \<and> series_items (arrays st') (Obj 7 [(''items'', Arr 8 [Obj 6 [(''ts'', Num (Fin 1))]])]) = series_points st'"
  using series_array_shared [of "Obj 9 [(''ts'', Num (Fin 2))]"
      "initialState\<lparr>spotMarketDistributionSeries := Obj 7 [(''items'', Arr 8 [Obj 6 [(''ts'', Num (Fin 1))]])]\<rparr>"
      "\<lambda>_. ''''"]
  by (auto simp: initialState_def shallowEqual_def is_series_def series_points_def series_items_def array_items_def)

end
