(* ===== verification/TaipeiClock.thy ===== *)
theory TaipeiClock
  imports JsValue "HOL-Library.Monad_Syntax"
begin

text \<open>
  Calendar time. The first two sections are the part of the standard library the program
  uses: \<open>new Date(ms)\<close> with its range, \<open>Intl.DateTimeFormat\<close> for the zone Asia/Taipei (a
  fixed \<open>+08:00\<close>, as it has been since October 1979) and \<open>Date.parse\<close> on the date-time
  string format of ECMAScript; strings of other shapes go to the parameter \<open>legacy\<close>,
  because their result is left to the implementation. Then come the session bounds of
  \<open>features/realtime\<close> with their one-entry cache, and the facts that the bounds are the
  Taipei session of the day and that the cache cannot be observed.
\<close>

section \<open>Civil dates\<close>

text \<open>Days since 1970-01-01 to year, month, day of the proleptic Gregorian calendar, and back.\<close>

definition civil_of_days :: "int \<Rightarrow> int \<times> int \<times> int" where
  "civil_of_days z0 =
     (let z = z0 + 719468; era = z div 146097; doe = z mod 146097;
          c = min 3 (doe div 36524); r = doe - 36524 * c;
          q = r div 1461; r2 = r - 1461 * q;
          n = min 3 (r2 div 365); doy = r2 - 365 * n;
          mp = (5 * doy + 2) div 153;
          d = doy - (153 * mp + 2) div 5 + 1;
          m = (if mp < 10 then mp + 3 else mp - 9);
          y = 400 * era + (100 * c + 4 * q + n) + (if m \<le> 2 then 1 else 0)
      in (y, m, d))"

definition days_of_civil :: "int \<Rightarrow> int \<Rightarrow> int \<Rightarrow> int" where
  "days_of_civil y m d =
     (let y' = (if m \<le> 2 then y - 1 else y); era = y' div 400; yoe = y' mod 400;
          mp = (if m > 2 then m - 3 else m + 9);
          doy = (153 * mp + 2) div 5 + d - 1;
          doe = 365 * yoe + yoe div 4 - yoe div 100 + doy
      in 146097 * era + doe - 719468)"

lemma day_of_era_decomposition:
  fixes doe :: int
  assumes "0 \<le> doe" "doe \<le> 146096"
    and c: "c = min 3 (doe div 36524)" and r: "r = doe - 36524 * c"
    and q: "q = r div 1461" and r2: "r2 = r - 1461 * q"
    and n: "n = min 3 (r2 div 365)" and doy: "doy = r2 - 365 * n"
  shows "0 \<le> c" "c \<le> 3" "0 \<le> q" "q \<le> 24" "0 \<le> n" "n \<le> 3" "0 \<le> doy" "doy \<le> 365"
    "doe = 36524 * c + 1461 * q + 365 * n + doy"
proof -
  have c': "0 \<le> c \<and> c \<le> 3 \<and> 0 \<le> r \<and> r \<le> 36524"
    using assms(1,2) unfolding c r by (auto simp: min_def)
  then show "0 \<le> c" "c \<le> 3" by auto
  have "1461 * q \<le> r" "r < 1461 * q + 1461"
    unfolding q by linarith+
  then have q': "0 \<le> q \<and> q \<le> 24 \<and> 0 \<le> r2 \<and> r2 \<le> 1460"
    using c' unfolding r2 by linarith
  then show "0 \<le> q" "q \<le> 24" by auto
  have "0 \<le> n \<and> n \<le> 3 \<and> 0 \<le> doy \<and> doy \<le> 365"
    using q' unfolding n doy by (auto simp: min_def)
  then show "0 \<le> n" "n \<le> 3" "0 \<le> doy" "doy \<le> 365" by auto
  show "doe = 36524 * c + 1461 * q + 365 * n + doy"
    unfolding doy r2 r by simp
qed

lemma civil_of_days_props:
  assumes "civil_of_days z = (y, m, d)"
  shows days_of_civil_of_days: "days_of_civil y m d = z"
    and civil_month: "1 \<le> m" "m \<le> 12" and civil_day: "1 \<le> d" "d \<le> 31"
    and civil_year: "400 * ((z + 719468) div 146097) \<le> y" "y \<le> 400 * ((z + 719468) div 146097) + 400"
proof -
  define era where "era = (z + 719468) div 146097"
  define doe where "doe = (z + 719468) mod 146097"
  define c where "c = min 3 (doe div 36524)"
  define r where "r = doe - 36524 * c"
  define q where "q = r div 1461"
  define r2 where "r2 = r - 1461 * q"
  define n where "n = min 3 (r2 div 365)"
  define doy where "doy = r2 - 365 * n"
  define mp where "mp = (5 * doy + 2) div 153"
  define yoe where "yoe = 100 * c + 4 * q + n"
  have doe: "0 \<le> doe" "doe \<le> 146096"
    unfolding doe_def by (auto intro: pos_mod_bound [THEN zless_imp_add1_zle, simplified])
  note dec = day_of_era_decomposition [OF doe c_def r_def q_def r2_def n_def doy_def]
  have mp: "0 \<le> mp" "mp \<le> 11" using dec(7,8) unfolding mp_def by auto
  have eq: "civil_of_days z =
      (400 * era + yoe + (if (if mp < 10 then mp + 3 else mp - 9) \<le> 2 then 1 else 0),
       if mp < 10 then mp + 3 else mp - 9, doy - (153 * mp + 2) div 5 + 1)"
    unfolding civil_of_days_def Let_def yoe_def mp_def doy_def n_def r2_def q_def r_def c_def
      doe_def era_def
    by (rule refl)
  have m: "m = (if mp < 10 then mp + 3 else mp - 9)"
    and d: "d = doy - (153 * mp + 2) div 5 + 1"
    and y: "y = 400 * era + yoe + (if m \<le> 2 then 1 else 0)"
    using assms eq by (auto simp only: prod.inject)
  show "1 \<le> m" "m \<le> 12" using mp m by auto
  define t where "t = (153 * mp + 2) div 5"
  have "153 * mp \<le> 5 * doy + 2" "5 * doy + 2 < 153 * mp + 153"
    unfolding mp_def by linarith+
  moreover have "5 * t \<le> 153 * mp + 2" "153 * mp + 2 < 5 * t + 5"
    unfolding t_def by linarith+
  ultimately show "1 \<le> d" "d \<le> 31" unfolding d t_def [symmetric] by linarith+
  have yoe: "0 \<le> yoe" "yoe < 400" using dec unfolding yoe_def by auto
  then show "400 * ((z + 719468) div 146097) \<le> y" "y \<le> 400 * ((z + 719468) div 146097) + 400"
    using y unfolding era_def by auto
  have "(if m \<le> 2 then y - 1 else y) = 400 * era + yoe" using y by auto
  moreover have "(400 * era + yoe) div 400 = era" "(400 * era + yoe) mod 400 = yoe"
    using yoe by auto
  moreover have "(if m > 2 then m - 3 else m + 9) = mp" using mp m by auto
  moreover have "yoe div 4 = 25 * c + q"
    using dec(3-6) unfolding yoe_def by (intro int_div_pos_eq [of _ _ _ n]) auto
  moreover have "yoe div 100 = c"
    using dec(3-6) unfolding yoe_def by (intro int_div_pos_eq [of _ _ _ "4 * q + n"]) auto
  ultimately have "days_of_civil y m d
      = 146097 * era + (365 * yoe + (25 * c + q) - c + ((153 * mp + 2) div 5 + d - 1)) - 719468"
    unfolding days_of_civil_def Let_def by simp
  also have "\<dots> = 146097 * era + doe - 719468"
    using dec(9) d unfolding yoe_def by simp
  also have "\<dots> = z" unfolding era_def doe_def by simp
  finally show "days_of_civil y m d = z" .
qed

section \<open>Formatting and parsing\<close>

definition day_ms :: int where "day_ms = 86400000"
definition taipei_offset :: int where "taipei_offset = 28800000"

definition pad2 :: "nat \<Rightarrow> string" where
  "pad2 n = [digit_char (n div 10), digit_char (n mod 10)]"

text \<open>The \<open>en-CA\<close> rendering of a date: year, two-digit month, two-digit day.\<close>

definition format_ymd :: "int \<Rightarrow> string" where
  "format_ymd z =
     (case civil_of_days z of
        (y, m, d) \<Rightarrow>
          string_of_nat (nat (if 0 < y then y else 1 - y)) @ ''-'' @ pad2 (nat m) @ ''-'' @ pad2 (nat d))"

text \<open>
  \<open>new Date(x)\<close>: the instant in whole milliseconds, truncated towards zero; beyond
  \<open>8.64e15\<close> the date is invalid and formatting it throws a \<open>RangeError\<close> (None).
\<close>

definition time_clip :: "rat \<Rightarrow> int option" where
  "time_clip x =
     (if \<bar>x\<bar> > 8640000000000000 then None
      else Some (if 0 \<le> x then \<lfloor>x\<rfloor> else \<lceil>x\<rceil>))"

definition taipei_day :: "int \<Rightarrow> int" where
  "taipei_day t = (t + taipei_offset) div day_ms"

fun take_digits :: "nat \<Rightarrow> nat \<Rightarrow> string \<Rightarrow> (nat \<times> string) option" where
  "take_digits acc 0 s = Some (acc, s)"
| "take_digits acc (Suc k) [] = None"
| "take_digits acc (Suc k) (c # cs) =
     Option.bind (char_digit c) (\<lambda>d. take_digits (10 * acc + d) k cs)"

fun expect :: "char \<Rightarrow> string \<Rightarrow> string option" where
  "expect c [] = None"
| "expect c (x # xs) = (if x = c then Some xs else None)"

definition parse_ms :: "string \<Rightarrow> (nat \<times> string) option" where
  "parse_ms s = (case expect CHR ''.'' s of None \<Rightarrow> Some (0, s) | Some s' \<Rightarrow> take_digits 0 3 s')"

definition parse_zone :: "string \<Rightarrow> int option" where
  "parse_zone s =
     (if s = ''Z'' then Some 0
      else case s of [] \<Rightarrow> None
        | c # cs \<Rightarrow> do {
            (hh, s1) \<leftarrow> take_digits 0 2 cs;
            s2 \<leftarrow> expect CHR '':'' s1;
            (mm, s3) \<leftarrow> take_digits 0 2 s2;
            if s3 = [] \<and> hh < 24 \<and> mm < 60 \<and> c \<in> {CHR ''+'', CHR ''-''}
            then Some ((if c = CHR ''+'' then 1 else -1) * (60 * int hh + int mm) * 60000)
            else None })"

text \<open>
  The date-time string format: \<open>YYYY-MM-DD\<close>, alone (midnight UTC) or with a time and a zone.
\<close>

definition parse_iso :: "string \<Rightarrow> int option" where
  "parse_iso s = do {
     (y, s1) \<leftarrow> take_digits 0 4 s;
     s2 \<leftarrow> expect CHR ''-'' s1;
     (m, s3) \<leftarrow> take_digits 0 2 s2;
     s4 \<leftarrow> expect CHR ''-'' s3;
     (d, s5) \<leftarrow> take_digits 0 2 s4;
     let z = days_of_civil (int y) (int m) (int d);
     if civil_of_days z \<noteq> (int y, int m, int d) then None
     else if s5 = [] then Some (z * day_ms)
     else do {
       s6 \<leftarrow> expect CHR ''T'' s5;
       (hh, s7) \<leftarrow> take_digits 0 2 s6;
       s8 \<leftarrow> expect CHR '':'' s7;
       (mi, s9) \<leftarrow> take_digits 0 2 s8;
       s10 \<leftarrow> expect CHR '':'' s9;
       (sec, s11) \<leftarrow> take_digits 0 2 s10;
       (ms, s12) \<leftarrow> parse_ms s11;
       off \<leftarrow> parse_zone s12;
       if hh < 24 \<and> mi < 60 \<and> sec < 60
       then Some (z * day_ms + ((int hh * 60 + int mi) * 60 + int sec) * 1000 + int ms - off)
       else None } }"

definition date_parse :: "(string \<Rightarrow> jsnum) \<Rightarrow> string \<Rightarrow> jsnum" where
  "date_parse legacy s = (case parse_iso s of Some t \<Rightarrow> Fin (of_int t) | None \<Rightarrow> legacy s)"

lemma take_digits_pad2 [simp]:
  "n < 100 \<Longrightarrow> take_digits 0 2 (pad2 n @ s) = Some (n, s)"
  by (simp add: pad2_def numeral_2_eq_2)

lemma take_digits_pad2' [simp]:
  "n < 100 \<Longrightarrow> take_digits 0 2 (digit_char (n div 10) # digit_char (n mod 10) # s) = Some (n, s)"
  by (simp add: numeral_2_eq_2)

lemma nat_digits_4:
  assumes "1000 \<le> n" "n < 10000"
  shows "nat_digits n = [n div 1000, n div 100 mod 10, n div 10 mod 10, n mod 10]"
proof -
  have "n div 10 div 10 = n div 100" "n div 100 div 10 = n div 1000"
    by (simp_all add: div_mult2_eq [symmetric])
  moreover have "\<not> n < 10" "\<not> n div 10 < 10" "\<not> n div 100 < 10" "n div 1000 < 10"
    using assms by linarith+
  ultimately show ?thesis
    by (simp add: nat_digits.simps [of n] nat_digits.simps [of "n div 10"]
        nat_digits.simps [of "n div 100"] nat_digits.simps [of "n div 1000"])
qed

lemma take_digits_year:
  assumes "1000 \<le> n" "n < 10000"
  shows "take_digits 0 4 (string_of_nat n @ s) = Some (n, s)"
proof -
  define a b where "a = n div 10" and "b = n div 100"
  have ab: "b = a div 10" "n div 1000 = b div 10"
    unfolding a_def b_def by (simp_all add: div_mult2_eq [symmetric])
  have "10 * (n div 1000) + b mod 10 = b" "10 * b + a mod 10 = a" "10 * a + n mod 10 = n"
    unfolding ab a_def by simp_all
  moreover have "n div 1000 < 10" using assms by linarith
  moreover have "string_of_nat n = map digit_char [n div 1000, b mod 10, a mod 10, n mod 10]"
    unfolding string_of_nat_def nat_digits_4 [OF assms] a_def b_def by simp
  moreover have "(4::nat) = Suc (Suc (Suc (Suc 0)))" by simp
  ultimately show ?thesis
    by (simp only: take_digits.simps list.map append_Cons append_Nil char_digit_digit_char
        bind.bind_lunit) (simp add: mult.commute)
qed

text \<open>Days whose calendar year has four digits: from the epoch to the year 9599.\<close>

abbreviation modern_day :: "int \<Rightarrow> bool" where
  "modern_day z \<equiv> 0 \<le> z \<and> z < 2786860"

lemma modern_year:
  assumes "modern_day z" and "civil_of_days z = (y, m, d)"
  shows "1600 \<le> y" "y < 10000"
proof -
  have "4 \<le> (z + 719468) div 146097" "(z + 719468) div 146097 \<le> 23"
    using assms(1) by linarith+
  with civil_year [OF assms(2)] show "1600 \<le> y" "y < 10000" by linarith+
qed

text \<open>Printing a day and parsing it back with a time of the day and the Taipei zone.\<close>

lemma parse_iso_format:
  assumes z: "modern_day z" and hms: "hh < 24" "mi < 60" "sec < 60"
  shows "parse_iso (format_ymd z @ ''T'' @ (pad2 hh @ '':'' @ pad2 mi @ '':'' @ pad2 sec) @ ''+08:00'')
    = Some (z * day_ms + ((int hh * 60 + int mi) * 60 + int sec) * 1000 - taipei_offset)"
proof -
  obtain y m d where c: "civil_of_days z = (y, m, d)" by (cases "civil_of_days z") auto
  note y = modern_year [OF z c] and m = civil_month [OF c] and d = civil_day [OF c]
  have "parse_zone ''+08:00'' = Some taipei_offset"
    by (simp add: parse_zone_def char_digit_def numeral_2_eq_2 taipei_offset_def)
  moreover have "parse_ms ''+08:00'' = Some (0, ''+08:00'')"
    by (simp add: parse_ms_def)
  moreover have "take_digits 0 4 (string_of_nat (nat y) @ s) = Some (nat y, s)" for s
    using y by (intro take_digits_year) auto
  moreover have "nat m < 100" "nat d < 100" "hh < 100" "mi < 100" "sec < 100"
    using m d hms by auto
  ultimately show ?thesis
    using y m d c hms days_of_civil_of_days [OF c]
    by (simp add: parse_iso_def format_ymd_def Let_def)
qed

section \<open>The session clock\<close>

text \<open>
  \<open>resolveTaipeiDatePart\<close>, and the bounds \<open>resolveSessionBoundsForTs\<close> computes for a date.
\<close>

definition resolveTaipeiDatePart :: "rat \<Rightarrow> string option" where
  "resolveTaipeiDatePart tsMs = map_option (\<lambda>t. format_ymd (taipei_day t)) (time_clip tsMs)"

definition SESSION_START_HHMM :: string where "SESSION_START_HHMM = ''09:00:00''"
definition SESSION_END_HHMM :: string where "SESSION_END_HHMM = ''13:45:00''"

record session_bounds =
  startMs :: jsnum
  endMs :: jsnum

record session_cache =
  cachedSessionDatePart :: "string option"
  cachedSessionBounds :: "session_bounds option"

definition bounds_of_date :: "(string \<Rightarrow> jsnum) \<Rightarrow> string \<Rightarrow> session_bounds" where
  "bounds_of_date legacy datePart =
     \<lparr>startMs = date_parse legacy (datePart @ ''T'' @ SESSION_START_HHMM @ ''+08:00''),
      endMs = date_parse legacy (datePart @ ''T'' @ SESSION_END_HHMM @ ''+08:00'')\<rparr>"

text \<open>
  \<open>resolveSessionBoundsForTs\<close> of \<open>realtime-manager.ts\<close>, with its module-level cache as a
  state: None when formatting the date throws, in which case the cache is unchanged.
\<close>

definition resolveSessionBoundsForTs ::
  "(string \<Rightarrow> jsnum) \<Rightarrow> session_cache \<Rightarrow> rat \<Rightarrow> (session_bounds \<times> session_cache) option" where
  "resolveSessionBoundsForTs legacy cache tsMs =
     (case resolveTaipeiDatePart tsMs of
        None \<Rightarrow> None
      | Some datePart \<Rightarrow>
          (case cachedSessionBounds cache of
             Some bounds \<Rightarrow>
               if cachedSessionDatePart cache = Some datePart then Some (bounds, cache)
               else (let b = bounds_of_date legacy datePart
                     in Some (b, \<lparr>cachedSessionDatePart = Some datePart, cachedSessionBounds = Some b\<rparr>))
           | None \<Rightarrow>
               (let b = bounds_of_date legacy datePart
                in Some (b, \<lparr>cachedSessionDatePart = Some datePart, cachedSessionBounds = Some b\<rparr>))))"

definition empty_session_cache :: session_cache where
  "empty_session_cache = \<lparr>cachedSessionDatePart = None, cachedSessionBounds = None\<rparr>"

text \<open>What the cache holds was computed for the date it is filed under.\<close>

definition cache_ok :: "(string \<Rightarrow> jsnum) \<Rightarrow> session_cache \<Rightarrow> bool" where
  "cache_ok legacy cache \<longleftrightarrow>
     (case (cachedSessionDatePart cache, cachedSessionBounds cache) of
        (Some datePart, Some b) \<Rightarrow> b = bounds_of_date legacy datePart
      | _ \<Rightarrow> True)"

lemma cache_ok_empty [simp, inv_intros]: "cache_ok legacy empty_session_cache"
  by (simp add: cache_ok_def empty_session_cache_def)

definition fresh_bounds :: "(string \<Rightarrow> jsnum) \<Rightarrow> rat \<Rightarrow> session_bounds option" where
  "fresh_bounds legacy tsMs = map_option (bounds_of_date legacy) (resolveTaipeiDatePart tsMs)"

lemma session_bounds_cached:
  assumes "cache_ok legacy cache"
  shows "map_option fst (resolveSessionBoundsForTs legacy cache tsMs) = fresh_bounds legacy tsMs"
    and "resolveSessionBoundsForTs legacy cache tsMs = Some (b, cache') \<Longrightarrow> cache_ok legacy cache'"
  using assms
  by (auto simp: resolveSessionBoundsForTs_def fresh_bounds_def cache_ok_def Let_def
      split: option.splits if_splits)

text \<open>
  The session in numbers: \<open>nine\<close> o'clock and a quarter to two, as milliseconds of the day.
\<close>

definition session_open :: int where "session_open = 32400000"
definition session_close :: int where "session_close = 49500000"

text \<open>Time of the day in Taipei, in milliseconds since midnight.\<close>

definition taipei_time_of_day :: "rat \<Rightarrow> rat" where
  "taipei_time_of_day ts =
     ts + of_int taipei_offset - of_int (day_ms * \<lfloor>(ts + of_int taipei_offset) / of_int day_ms\<rfloor>)"

definition in_session :: "rat \<Rightarrow> bool" where
  "in_session ts \<longleftrightarrow>
     of_int session_open \<le> taipei_time_of_day ts \<and> taipei_time_of_day ts \<le> of_int session_close"

abbreviation modern_ts :: "rat \<Rightarrow> bool" where
  "modern_ts ts \<equiv> 0 \<le> ts \<and> ts < 240000000000000"

lemma bounds_of_modern_date:
  assumes "modern_day z"
  shows "bounds_of_date legacy (format_ymd z) =
    \<lparr>startMs = Fin (of_int (z * day_ms - taipei_offset + session_open)),
     endMs = Fin (of_int (z * day_ms - taipei_offset + session_close))\<rparr>"
proof -
  have d: "pad2 9 = ''09''" "pad2 0 = ''00''" "pad2 13 = ''13''" "pad2 45 = ''45''"
    by code_simp+
  have s: "SESSION_START_HHMM = pad2 9 @ '':'' @ pad2 0 @ '':'' @ pad2 0"
    "SESSION_END_HHMM = pad2 13 @ '':'' @ pad2 45 @ '':'' @ pad2 0"
    unfolding d by (simp_all add: SESSION_START_HHMM_def SESSION_END_HHMM_def)
  have "parse_iso (format_ymd z @ ''T'' @ SESSION_START_HHMM @ ''+08:00'')
      = Some (z * day_ms - taipei_offset + session_open)"
    unfolding s by (subst parse_iso_format [OF assms]) (simp_all add: session_open_def)
  moreover have "parse_iso (format_ymd z @ ''T'' @ SESSION_END_HHMM @ ''+08:00'')
      = Some (z * day_ms - taipei_offset + session_close)"
    unfolding s by (subst parse_iso_format [OF assms]) (simp_all add: session_close_def)
  ultimately show ?thesis
    by (simp add: bounds_of_date_def date_parse_def)
qed

lemma floor_divide_int_rat: "0 < b \<Longrightarrow> \<lfloor>x / of_int b\<rfloor> = \<lfloor>x\<rfloor> div b" for x :: rat
proof (rule floor_unique)
  assume b: "0 < b"
  have "b * (\<lfloor>x\<rfloor> div b) \<le> \<lfloor>x\<rfloor>" "\<lfloor>x\<rfloor> < b * (\<lfloor>x\<rfloor> div b) + b"
    using b pos_mod_bound [OF b, of "\<lfloor>x\<rfloor>"] pos_mod_sign [OF b, of "\<lfloor>x\<rfloor>"]
      mult_div_mod_eq [of b "\<lfloor>x\<rfloor>"] by linarith+
  then have "of_int (b * (\<lfloor>x\<rfloor> div b)) \<le> x" "x < of_int (b * (\<lfloor>x\<rfloor> div b) + b)"
    by linarith+
  with b show "of_int (\<lfloor>x\<rfloor> div b) \<le> x / of_int b" "x / of_int b < of_int (\<lfloor>x\<rfloor> div b) + 1"
    by (simp_all add: field_simps)
qed

lemma modern_ts_day:
  assumes "modern_ts ts"
  shows "time_clip ts = Some \<lfloor>ts\<rfloor>"
    and "taipei_day \<lfloor>ts\<rfloor> = \<lfloor>(ts + of_int taipei_offset) / of_int day_ms\<rfloor>"
    and "modern_day (taipei_day \<lfloor>ts\<rfloor>)"
proof -
  show "time_clip ts = Some \<lfloor>ts\<rfloor>" using assms by (simp add: time_clip_def)
  have "\<lfloor>(ts + of_int taipei_offset) / of_int day_ms\<rfloor> = \<lfloor>ts + of_int taipei_offset\<rfloor> div day_ms"
    by (rule floor_divide_int_rat) (simp add: day_ms_def)
  then show "taipei_day \<lfloor>ts\<rfloor> = \<lfloor>(ts + of_int taipei_offset) / of_int day_ms\<rfloor>"
    by (simp add: taipei_day_def)
  have "0 \<le> \<lfloor>ts\<rfloor>" "\<lfloor>ts\<rfloor> < 240000000000000" using assms by (simp_all add: floor_less_iff)
  then show "modern_day (taipei_day \<lfloor>ts\<rfloor>)"
    unfolding taipei_day_def taipei_offset_def day_ms_def by linarith
qed

lemma fresh_bounds_modern:
  assumes "modern_ts ts"
  obtains a b where "fresh_bounds legacy ts = Some \<lparr>startMs = Fin a, endMs = Fin b\<rparr>"
    and "a \<le> ts \<and> ts \<le> b \<longleftrightarrow> in_session ts"
proof -
  let ?z = "taipei_day \<lfloor>ts\<rfloor>"
  note day = modern_ts_day [OF assms]
  let ?a = "of_int (?z * day_ms - taipei_offset + session_open) :: rat"
  let ?b = "of_int (?z * day_ms - taipei_offset + session_close) :: rat"
  have "fresh_bounds legacy ts = Some (bounds_of_date legacy (format_ymd ?z))"
    by (simp add: fresh_bounds_def resolveTaipeiDatePart_def day(1))
  then have "fresh_bounds legacy ts = Some \<lparr>startMs = Fin ?a, endMs = Fin ?b\<rparr>"
    by (simp only: bounds_of_modern_date [OF day(3), of legacy])
  moreover have t: "taipei_time_of_day ts = ts + of_int taipei_offset - of_int (?z * day_ms)"
    by (simp add: taipei_time_of_day_def day(2) mult.commute)
  have "?a \<le> ts \<and> ts \<le> ?b \<longleftrightarrow> in_session ts"
    unfolding in_session_def t by (simp only: of_int_add of_int_diff) linarith
  ultimately show thesis by (rule that)
qed

end
