(* ===== verification/UrlEncoding.thy ===== *)
theory UrlEncoding
  imports JsValue
begin

text \<open>
  How a URL carries text: \<open>encodeURIComponent\<close> and \<open>URLSearchParams\<close> of the standard library, with
  the reader of the other side. A string is UTF-8 encoded and every byte outside a set of safe
  characters is written \<open>%XX\<close>; the laws say that reading gives the text back and that an encoded
  text holds no character that has a meaning in a URL.
\<close>

section \<open>Percent encoding\<close>

definition hex_digit :: "nat \<Rightarrow> char" where
  "hex_digit n = char_of (if n < 10 then 48 + n else 55 + n)"

definition hex_value :: "char \<Rightarrow> nat" where
  "hex_value c = (let n = of_char c :: nat in if n < 58 then n - 48 else if n < 97 then n - 55 else n - 87)"

definition percent :: "nat \<Rightarrow> string" where
  "percent b = [CHR ''%'', hex_digit (b div 16), hex_digit (b mod 16)]"

definition alphanumeric :: "char \<Rightarrow> bool" where
  "alphanumeric c \<longleftrightarrow>
     (let n = of_char c :: nat in 65 \<le> n \<and> n \<le> 90 \<or> 97 \<le> n \<and> n \<le> 122 \<or> 48 \<le> n \<and> n \<le> 57)"

definition utf8 :: "char \<Rightarrow> nat list" where
  "utf8 c = (let n = of_char c in if n < 128 then [n] else [192 + n div 64, 128 + n mod 64])"

definition percent_encode :: "(char \<Rightarrow> bool) \<Rightarrow> string \<Rightarrow> string" where
  "percent_encode safe s = concat (map (\<lambda>c. if safe c then [c] else concat (map percent (utf8 c))) s)"

text \<open>The reader: the bytes of a text, and the characters of the bytes.\<close>

fun percent_bytes :: "string \<Rightarrow> nat list" where
  "percent_bytes (c # a # b # s) =
     (if c = CHR ''%'' then (16 * hex_value a + hex_value b) # percent_bytes s
      else of_char c # percent_bytes (a # b # s))"
| "percent_bytes s = map of_char s"

fun utf8_chars :: "nat list \<Rightarrow> string" where
  "utf8_chars (a # b # s) =
     (if a < 128 then char_of a # utf8_chars (b # s)
      else char_of (64 * (a - 192) + (b - 128)) # utf8_chars s)"
| "utf8_chars s = map char_of s"

definition percent_decode :: "string \<Rightarrow> string" where
  "percent_decode s = utf8_chars (percent_bytes s)"

definition safe_set :: "(char \<Rightarrow> bool) \<Rightarrow> bool" where
  "safe_set safe \<longleftrightarrow> \<not> safe CHR ''%'' \<and> (\<forall>c. safe c \<longrightarrow> (of_char c :: nat) < 128)"

lemma of_char_char_of [simp]: "n < 256 \<Longrightarrow> of_char (char_of n) = (n :: nat)"
  by (simp add: of_char_of)

lemma of_char_less [simp]: "(of_char c :: nat) < 256"
  by (rule nat_of_char_less_256)

lemma hex_value_digit [simp]: "n < 16 \<Longrightarrow> hex_value (hex_digit n) = n"
  by (simp add: hex_value_def hex_digit_def Let_def)

lemma percent_bytes_percent [simp]: "b < 256 \<Longrightarrow> percent_bytes (percent b @ s) = b # percent_bytes s"
  by (simp add: percent_def)

lemma percent_bytes_plain [simp]: "c \<noteq> CHR ''%'' \<Longrightarrow> percent_bytes (c # s) = of_char c # percent_bytes s"
  by (cases "c # s" rule: percent_bytes.cases) auto

lemma utf8_bytes:
  assumes "b \<in> set (utf8 c)" shows "b < 256"
proof -
  have "(of_char c :: nat) div 64 < 4" using of_char_less [of c] by linarith
  moreover have "(of_char c :: nat) mod 64 < 64" by simp
  ultimately have "192 + (of_char c :: nat) div 64 < 256" "128 + (of_char c :: nat) mod 64 < 256" by linarith+
  then show ?thesis using assms by (auto simp: utf8_def Let_def split: if_splits)
qed

lemma percent_bytes_concat:
  "\<forall>b \<in> set bs. b < 256 \<Longrightarrow> percent_bytes (concat (map percent bs) @ s) = bs @ percent_bytes s"
  by (induction bs) auto

lemma utf8_chars_utf8 [simp]: "utf8_chars (utf8 c @ s) = c # utf8_chars s"
proof (cases "(of_char c :: nat) < 128")
  case True
  then show ?thesis by (cases s) (simp_all add: utf8_def)
next
  case False
  have "64 * ((of_char c :: nat) div 64) + of_char c mod 64 = of_char c" by simp
  then show ?thesis using False by (simp add: utf8_def Let_def char_of_char)
qed

lemma percent_decode_encode [simp]:
  assumes "safe_set safe" shows "percent_decode (percent_encode safe s) = s"
proof -
  have "percent_bytes (percent_encode safe s) = concat (map utf8 s)"
  proof (induction s)
    case Nil
    then show ?case by (simp add: percent_encode_def)
  next
    case (Cons c s)
    have "c \<noteq> CHR ''%''" "utf8 c = [of_char c]" if "safe c"
      using assms that by (auto simp: safe_set_def utf8_def)
    with Cons show ?case
      using percent_bytes_concat [of "utf8 c"] utf8_bytes [of _ c] by (auto simp: percent_encode_def)
  qed
  moreover have "utf8_chars (concat (map utf8 s)) = s" by (induction s) simp_all
  ultimately show ?thesis by (simp add: percent_decode_def)
qed

lemma percent_encode_inj: "safe_set safe \<Longrightarrow> percent_encode safe s = percent_encode safe t \<longleftrightarrow> s = t"
  by (metis percent_decode_encode)

lemma percent_encode_chars:
  assumes "c \<in> set (percent_encode safe s)"
  shows "safe c \<or> c = CHR ''%'' \<or> alphanumeric c"
proof -
  have "alphanumeric (hex_digit n)" if "n < 16" for n
    using that by (auto simp: alphanumeric_def hex_digit_def Let_def)
  then have "c = CHR ''%'' \<or> alphanumeric c" if "b < 256" "c \<in> set (percent b)" for b
    using that by (auto simp: percent_def)
  with assms utf8_bytes show ?thesis by (auto simp: percent_encode_def split: if_splits)
qed

section \<open>encodeURIComponent and URLSearchParams\<close>

definition unreserved :: "char \<Rightarrow> bool" where
  "unreserved c \<longleftrightarrow> alphanumeric c \<or> c \<in> set ''-_.!~*()'' \<or> c = CHR 0x27"

definition encodeURIComponent :: "string \<Rightarrow> string" where
  "encodeURIComponent s = percent_encode unreserved s"

definition form_safe :: "char \<Rightarrow> bool" where
  "form_safe c \<longleftrightarrow> alphanumeric c \<or> c \<in> set ''*-._'' \<or> c = CHR '' ''"

definition plus_space :: "char \<Rightarrow> char" where
  "plus_space c = (if c = CHR '' '' then CHR ''+'' else c)"

definition space_plus :: "char \<Rightarrow> char" where
  "space_plus c = (if c = CHR ''+'' then CHR '' '' else c)"

definition form_encode :: "string \<Rightarrow> string" where
  "form_encode s = map plus_space (percent_encode form_safe s)"

definition form_decode :: "string \<Rightarrow> string" where
  "form_decode s = percent_decode (map space_plus s)"

text \<open>\<open>toString()\<close> of \<open>URLSearchParams\<close>, a list of pairs in which \<open>set\<close> keeps one entry per name.\<close>

definition search_string :: "(string \<times> string) list \<Rightarrow> string" where
  "search_string ps = join_with CHR ''&'' (map (\<lambda>(k, v). form_encode k @ CHR ''='' # form_encode v) ps)"

definition search_entry :: "string \<Rightarrow> string \<times> string" where
  "search_entry e = (case split_on CHR ''='' e of
       [] \<Rightarrow> ([], []) | k # vs \<Rightarrow> (form_decode k, form_decode (join_with CHR ''='' vs)))"

definition parse_search :: "string \<Rightarrow> (string \<times> string) list" where
  "parse_search s = map search_entry (filter (\<lambda>e. e \<noteq> []) (split_on CHR ''&'' s))"

lemma alphanumeric_ascii: "alphanumeric c \<Longrightarrow> (of_char c :: nat) < 128"
  by (auto simp: alphanumeric_def Let_def)

lemma safe_set_unreserved [simp]: "safe_set unreserved"
  by (auto simp: safe_set_def unreserved_def alphanumeric_ascii) (simp add: alphanumeric_def)

lemma safe_set_form [simp]: "safe_set form_safe"
  by (auto simp: safe_set_def form_safe_def alphanumeric_ascii) (simp add: alphanumeric_def)

lemma decodeURIComponent [simp]: "percent_decode (encodeURIComponent s) = s"
  by (simp add: encodeURIComponent_def)

lemma component_plain:
  assumes "c \<in> set (encodeURIComponent s)"
  shows "c \<notin> {CHR ''/'', CHR ''?'', CHR ''#'', CHR ''&'', CHR ''='', CHR ''+'', CHR '' ''}"
proof -
  have "unreserved c \<or> c = CHR ''%'' \<or> alphanumeric c"
    using percent_encode_chars assms unfolding encodeURIComponent_def by blast
  then show ?thesis by (auto simp: unreserved_def alphanumeric_def)
qed

lemma form_plain:
  assumes "c \<in> set (form_encode s)"
  shows "c \<notin> {CHR ''/'', CHR ''?'', CHR ''#'', CHR ''&'', CHR ''='', CHR '' ''}"
proof -
  obtain d where "d \<in> set (percent_encode form_safe s)" and c: "c = plus_space d"
    using assms by (auto simp: form_encode_def)
  then have "form_safe d \<or> d = CHR ''%'' \<or> alphanumeric d"
    using percent_encode_chars by blast
  then show ?thesis unfolding c by (auto simp: plus_space_def form_safe_def alphanumeric_def)
qed

lemma form_decode_encode [simp]: "form_decode (form_encode s) = s"
proof -
  have "CHR ''+'' \<notin> set (percent_encode form_safe s)"
    using percent_encode_chars [of "CHR ''+''" form_safe s] by (auto simp: form_safe_def alphanumeric_def)
  then have "map space_plus (map plus_space (percent_encode form_safe s)) = percent_encode form_safe s"
    by (auto simp: space_plus_def plus_space_def intro!: map_idI)
  then show ?thesis by (simp add: form_decode_def form_encode_def)
qed

lemma split_join:
  "ts \<noteq> [] \<Longrightarrow> \<forall>t \<in> set ts. c \<notin> set t \<Longrightarrow> split_on c (join_with c ts) = ts"
  by (induction ts rule: induct_list012) (auto simp: split_on_no_sep split_on_append)

text \<open>Reading a query string gives the parameters back, in their order.\<close>

lemma parse_search_string [simp]: "parse_search (search_string ps) = ps"
proof (cases "ps = []")
  case True
  then show ?thesis by (simp add: parse_search_def search_string_def)
next
  case False
  let ?e = "\<lambda>(k, v). form_encode k @ CHR ''='' # form_encode v"
  have "CHR ''&'' \<notin> set (?e p)" for p
    using form_plain by (cases p) fastforce
  then have "split_on CHR ''&'' (search_string ps) = map ?e ps"
    using False by (simp add: search_string_def split_join)
  moreover have "search_entry (?e p) = p" for p
  proof (cases p)
    case (Pair k v)
    have "CHR ''='' \<notin> set (form_encode k)" "CHR ''='' \<notin> set (form_encode v)"
      using form_plain by fastforce+
    then show ?thesis by (simp add: Pair search_entry_def split_on_append split_on_no_sep)
  qed
  moreover have "filter (\<lambda>e. e \<noteq> []) (map ?e ps) = map ?e ps"
    by (auto intro!: filter_True)
  ultimately show ?thesis by (simp add: parse_search_def comp_def)
qed

lemma search_string_plain: "c \<in> set (search_string ps) \<Longrightarrow> c \<notin> {CHR ''/'', CHR ''?'', CHR ''#'', CHR '' ''}"
proof -
  have "c \<in> set (join_with d ts) \<Longrightarrow> c = d \<or> (\<exists>t \<in> set ts. c \<in> set t)" for d ts
    by (induction d ts rule: join_with.induct) auto
  moreover assume "c \<in> set (search_string ps)"
  ultimately show ?thesis using form_plain unfolding search_string_def by fastforce
qed

section \<open>Reading a URL\<close>

text \<open>
  How a URL is read at the other end. Before it is sent, \<open>fetch\<close> resolves the segments that are
  one or two dots, in any spelling (the second with the segment before it). The server decodes the
  whole path and only then looks at its segments; the query is read as the list of its parameters.
\<close>

fun remove_dots :: "string list \<Rightarrow> string list \<Rightarrow> string list" where
  "remove_dots out [] = out"
| "remove_dots out (s # ss) =
     (let end = (if ss = [] then [[]] else [])
      in if percent_decode s = ''..'' then remove_dots (butlast out @ end) ss
         else if percent_decode s = ''.'' then remove_dots (out @ end) ss
         else remove_dots (out @ [s]) ss)"

definition read_url :: "string \<Rightarrow> string list \<times> (string \<times> string) list" where
  "read_url url = (case split_on CHR ''?'' url of
       [] \<Rightarrow> ([], [])
     | path # rest \<Rightarrow>
         (split_on CHR ''/'' (percent_decode (join_with CHR ''/'' (remove_dots [] (split_on CHR ''/'' path)))),
          parse_search (join_with CHR ''?'' rest)))"

definition url_path :: "string list \<Rightarrow> string" where
  "url_path segments = concat (map (\<lambda>s. CHR ''/'' # encodeURIComponent s) segments)"

text \<open>The texts that stay one segment: no slash in them, and not one or two dots.\<close>

definition plain_segment :: "string \<Rightarrow> bool" where
  "plain_segment s \<longleftrightarrow> CHR ''/'' \<notin> set s \<and> s \<noteq> ''.'' \<and> s \<noteq> ''..''"

lemma url_path_plain: "c \<in> set (url_path segments) \<Longrightarrow> c \<notin> {CHR ''?'', CHR ''#''}"
  by (auto simp: url_path_def split: if_splits dest: component_plain)

lemma split_url_path: "split_on CHR ''/'' (url_path segments) = [] # map encodeURIComponent segments"
proof (induction segments)
  case Nil
  then show ?case by (simp add: url_path_def)
next
  case (Cons s segments)
  have "CHR ''/'' \<notin> set (encodeURIComponent s)" using component_plain by fastforce
  then show ?case
    using Cons by (cases segments) (simp_all add: url_path_def split_on_no_sep split_on_append)
qed

lemma percent_decode_Nil [simp]: "percent_decode [] = []"
  by (simp add: percent_decode_def)

lemma remove_dots_plain:
  "\<forall>s \<in> set ss. percent_decode s \<noteq> ''.'' \<and> percent_decode s \<noteq> ''..'' \<Longrightarrow> remove_dots out ss = out @ ss"
  by (induction ss arbitrary: out) (simp_all add: Let_def)

text \<open>The bytes of a path: encoding its segments is encoding all of it but the slashes.\<close>

lemma percent_decode_path:
  assumes "\<forall>s \<in> set segments. CHR ''/'' \<notin> set s"
  shows "percent_decode (url_path segments) = concat (map ((#) CHR ''/'') segments)"
proof -
  let ?safe = "\<lambda>c. unreserved c \<or> c = CHR ''/''"
  have "safe_set ?safe" using safe_set_unreserved by (auto simp: safe_set_def)
  moreover have "encodeURIComponent s = percent_encode ?safe s" if "CHR ''/'' \<notin> set s" for s
    using that by (auto simp: encodeURIComponent_def percent_encode_def intro!: arg_cong [where f = concat] map_cong)
  then have "url_path segments = percent_encode ?safe (concat (map ((#) CHR ''/'') segments))"
    using assms by (induction segments) (simp_all add: url_path_def, simp_all add: percent_encode_def)
  ultimately show ?thesis by simp
qed

lemma split_slashed:
  "\<forall>s \<in> set segments. CHR ''/'' \<notin> set s \<Longrightarrow> split_on CHR ''/'' (concat (map ((#) CHR ''/'') segments)) = [] # segments"
proof (induction segments)
  case (Cons s segments)
  then show ?case by (cases segments) (simp_all add: split_on_no_sep split_on_append)
qed simp

lemma read_url_path:
  assumes "\<forall>s \<in> set segments. plain_segment s"
  shows "read_url (url_path segments) = ([] # segments, [])"
    and "read_url (url_path segments @ CHR ''?'' # search_string ps) = ([] # segments, ps)"
proof -
  have no: "CHR ''?'' \<notin> set (url_path segments)" using url_path_plain by blast
  have no': "CHR ''?'' \<notin> set (search_string ps)" using search_string_plain by blast
  have "remove_dots [] (split_on CHR ''/'' (url_path segments)) = split_on CHR ''/'' (url_path segments)"
    using assms by (subst remove_dots_plain) (auto simp: split_url_path plain_segment_def)
  moreover have "split_on CHR ''/'' (percent_decode (url_path segments)) = [] # segments"
    using assms by (simp add: percent_decode_path split_slashed plain_segment_def)
  ultimately show "read_url (url_path segments) = ([] # segments, [])"
    and "read_url (url_path segments @ CHR ''?'' # search_string ps) = ([] # segments, ps)"
    using no no'
    by (simp_all add: read_url_def split_on_no_sep split_on_append parse_search_def [of "[]"])
qed

text \<open>
  The routes of the server: a list of literal segments and parameters (None), which match the decoded
  path segment by segment, a parameter only a segment that is not empty.
\<close>

type_synonym server_route = "string option list"

fun path_params :: "server_route \<Rightarrow> string list \<Rightarrow> string list option" where
  "path_params [] [] = Some []"
| "path_params (Some l # ps) (s # ss) = (if s = l then path_params ps ss else None)"
| "path_params (None # ps) (s # ss) = (if s = [] then None else map_option ((#) s) (path_params ps ss))"
| "path_params _ _ = None"

definition server_reads :: "server_route \<Rightarrow> string \<Rightarrow> (string list \<times> (string \<times> string) list) option" where
  "server_reads route url =
     (case read_url url of (segments, params) \<Rightarrow>
        map_option (\<lambda>ids. (ids, params)) (path_params (Some [] # route) segments))"

text \<open>A segment of safe characters is its own encoding.\<close>

lemma encode_safe: "\<forall>c \<in> set s. unreserved c \<Longrightarrow> encodeURIComponent s = s"
  by (induction s) (simp_all add: encodeURIComponent_def percent_encode_def)

lemma encode_literals [simp]:
  "encodeURIComponent ''analytics'' = ''analytics''" "encodeURIComponent ''events'' = ''events''"
  "encodeURIComponent ''stats'' = ''stats''" "encodeURIComponent ''samples'' = ''samples''"
  "encodeURIComponent ''distributions'' = ''distributions''" "encodeURIComponent ''billing'' = ''billing''"
  "encodeURIComponent ''checkout-session'' = ''checkout-session''" "encodeURIComponent ''api'' = ''api''"
  "encodeURIComponent ''admin'' = ''admin''" "encodeURIComponent ''logs'' = ''logs''"
  by (rule encode_safe, simp add: unreserved_def alphanumeric_def)+

end
