(* ===== verification/ApiClient.thy ===== *)
theory ApiClient
  imports TaipeiClock UrlEncoding
begin

text \<open>
  The HTTP layer: \<open>lib/api/transport.ts\<close>, \<open>lib/api/client.ts\<close> and the requests of
  \<open>features/dashboard/api/market-overview.ts\<close>.

  The network is a parameter: a function from a request to what \<open>fetch\<close> does with it. A call
  returns the request it sent, if any, beside its result, so that not sending can be stated. Parsing a
  URL (\<open>url_host\<close>) and \<open>String\<close> on numbers (\<open>show_num\<close>) are parameters too.
\<close>

section \<open>Transport\<close>

definition ascii_lower :: "char \<Rightarrow> char" where
  "ascii_lower c = (let n = of_char c :: nat in if 65 \<le> n \<and> n \<le> 90 then char_of (n + 32) else c)"

definition absolute_http :: "string \<Rightarrow> bool" where
  "absolute_http url \<longleftrightarrow> starts_with ''http://'' (map ascii_lower (take 7 url))"

definition LOOPBACK_HOSTS :: "string list" where
  "LOOPBACK_HOSTS = [''localhost'', ''127.0.0.1'', ''[::1]'', ''::1'']"

definition isLoopbackHttpUrl :: "(string \<Rightarrow> string option) \<Rightarrow> string \<Rightarrow> bool" where
  "isLoopbackHttpUrl url_host apiBaseUrl =
     (if \<not> absolute_http apiBaseUrl then False
      else case url_host apiBaseUrl of Some host \<Rightarrow> host \<in> set LOOPBACK_HOSTS | None \<Rightarrow> False)"

definition shouldBlockInsecureTransport ::
  "(string \<Rightarrow> string option) \<Rightarrow> string \<Rightarrow> string \<Rightarrow> bool \<Rightarrow> bool" where
  "shouldBlockInsecureTransport url_host apiBaseUrl pageProtocol isProduction =
     (if \<not> absolute_http apiBaseUrl then False
      else if isLoopbackHttpUrl url_host apiBaseUrl then False
      else pageProtocol = ''https:'' \<or> isProduction)"

section \<open>The client\<close>

datatype js_error = ApiError string int | AbortError | OtherError string

record response =
  rs_status :: int
  rs_json :: "jsval option"

datatype fetched = Rejected js_error | Responded response

record http_request =
  rq_method :: string
  rq_url :: string
  rq_headers :: "(string, string) dict"
  rq_body :: "jsval option"

record api_env =
  API_BASE_URL :: string
  env_protocol :: string
  env_prod :: bool
  env_url_host :: "string \<Rightarrow> string option"

definition isAbortError :: "js_error \<Rightarrow> bool" where
  "isAbortError e \<longleftrightarrow> e = AbortError"

definition response_ok :: "response \<Rightarrow> bool" where
  "response_ok r \<longleftrightarrow> 200 \<le> rs_status r \<and> rs_status r < 300"

definition parseError :: "response \<Rightarrow> js_error" where
  "parseError response =
     (let payload = (case rs_json response of Some v \<Rightarrow> v | None \<Rightarrow> Null);
          detail = js_get payload ''detail''
      in case detail of
           Str s \<Rightarrow> ApiError s (rs_status response)
         | _ \<Rightarrow>
             (if is_object detail
              then (case js_get detail ''reason'' of
                      Str s \<Rightarrow> ApiError s (rs_status response)
                    | _ \<Rightarrow> ApiError ''api_request_failed'' (rs_status response))
              else ApiError ''api_request_failed'' (rs_status response)))"

definition request ::
  "api_env \<Rightarrow> (http_request \<Rightarrow> fetched) \<Rightarrow> string \<Rightarrow> http_request
     \<Rightarrow> http_request option \<times> (js_error + jsval)" where
  "request env fetch path init =
     (if shouldBlockInsecureTransport (env_url_host env) (API_BASE_URL env) (env_protocol env) (env_prod env)
      then (None, Inl (ApiError ''insecure_transport'' 0))
      else
        (let req = init\<lparr>rq_url := API_BASE_URL env @ path\<rparr>
         in (Some req,
             case fetch req of
               Rejected e \<Rightarrow> Inl e
             | Responded response \<Rightarrow>
                 if \<not> response_ok response then Inl (parseError response)
                 else if rs_status response = 204 then Inr (Obj 0 [])
                 else (case rs_json response of Some v \<Rightarrow> Inr v | None \<Rightarrow> Inl (OtherError ''SyntaxError'')))))"

definition getJson ::
  "api_env \<Rightarrow> (http_request \<Rightarrow> fetched) \<Rightarrow> string \<Rightarrow> (string, string) dict
     \<Rightarrow> http_request option \<times> (js_error + jsval)" where
  "getJson env fetch path headers =
     request env fetch path \<lparr>rq_method = ''GET'', rq_url = [], rq_headers = headers, rq_body = None\<rparr>"

definition postJson ::
  "api_env \<Rightarrow> (http_request \<Rightarrow> fetched) \<Rightarrow> string \<Rightarrow> jsval \<Rightarrow> (string, string) dict
     \<Rightarrow> http_request option \<times> (js_error + jsval)" where
  "postJson env fetch path body headers =
     request env fetch path
       \<lparr>rq_method = ''POST'', rq_url = [],
        rq_headers = dict_assign [(''Content-Type'', ''application/json'')] headers, rq_body = Some body\<rparr>"

lemma getJson_blocked:
  "shouldBlockInsecureTransport (env_url_host env) (API_BASE_URL env) (env_protocol env) (env_prod env) \<Longrightarrow>
    getJson env fetch path headers = (None, Inl (ApiError ''insecure_transport'' 0))"
  by (simp add: getJson_def request_def)

text \<open>
  C26. Nothing leaves an unsafe page: when the base URL is plain HTTP to a host that is not the
  machine itself, and the page is served over HTTPS or the build is for production, no call of the
  client reaches the network, and the caller gets the error \<open>insecure_transport\<close>. In every other
  case exactly the request asked for is sent.
\<close>

theorem insecure_transport_blocked:
  "(let blocked = (absolute_http (API_BASE_URL env)
        \<and> \<not> (\<exists>h \<in> set LOOPBACK_HOSTS. env_url_host env (API_BASE_URL env) = Some h)
        \<and> (env_protocol env = ''https:'' \<or> env_prod env))
    in (fst (getJson env fetch path headers) = None \<longleftrightarrow> blocked)
     \<and> (fst (postJson env fetch path body headers) = None \<longleftrightarrow> blocked)
     \<and> (blocked \<longrightarrow> snd (getJson env fetch path headers) = Inl (ApiError ''insecure_transport'' 0)
                   \<and> snd (postJson env fetch path body headers) = Inl (ApiError ''insecure_transport'' 0)))"
proof -
  have "shouldBlockInsecureTransport (env_url_host env) (API_BASE_URL env) (env_protocol env) (env_prod env)
      \<longleftrightarrow> absolute_http (API_BASE_URL env)
        \<and> \<not> (\<exists>h \<in> set LOOPBACK_HOSTS. env_url_host env (API_BASE_URL env) = Some h)
        \<and> (env_protocol env = ''https:'' \<or> env_prod env)"
    by (auto simp: shouldBlockInsecureTransport_def isLoopbackHttpUrl_def split: option.splits)
  then show ?thesis by (simp add: getJson_def postJson_def request_def Let_def)
qed

theorem insecure_transport_blocked_witness:
  "fst (getJson \<lparr>API_BASE_URL = ''http://api.example.com'', env_protocol = ''https:'', env_prod = False,
      env_url_host = (\<lambda>_. Some ''api.example.com'')\<rparr> (\<lambda>_. Rejected AbortError) ''/x'' []) = None"
  using insecure_transport_blocked [of "\<lparr>API_BASE_URL = ''http://api.example.com'', env_protocol = ''https:'',
      env_prod = False, env_url_host = (\<lambda>_. Some ''api.example.com'')\<rparr>" "\<lambda>_. Rejected AbortError" "''/x''" "[]" Null]
  by (simp add: Let_def LOOPBACK_HOSTS_def absolute_http_def ascii_lower_def)

section \<open>Requests of the dashboard\<close>

definition DEFAULT_ORDER_FLOW_CODE :: string where "DEFAULT_ORDER_FLOW_CODE = ''TXFE6''"

definition resolveOrFallbackOnNotFound :: "js_error + jsval \<Rightarrow> jsval \<Rightarrow> js_error + jsval" where
  "resolveOrFallbackOnNotFound r fallback =
     (case r of Inl (ApiError code status) \<Rightarrow> if status = 404 then Inr fallback else r | _ \<Rightarrow> r)"

record range_ms =
  fromMs :: jsnum
  toMs :: jsnum

fun num_min :: "jsnum \<Rightarrow> jsnum \<Rightarrow> jsnum" where
  "num_min NaN _ = NaN"
| "num_min _ NaN = NaN"
| "num_min x y = (if num_lt x y then x else y)"

fun num_max :: "jsnum \<Rightarrow> jsnum \<Rightarrow> jsnum" where
  "num_max NaN _ = NaN"
| "num_max _ NaN = NaN"
| "num_max x y = (if num_lt x y then y else x)"

fun num_add :: "jsnum \<Rightarrow> jsnum \<Rightarrow> jsnum" where
  "num_add (Fin x) (Fin y) = Fin (x + y)"
| "num_add NaN _ = NaN"
| "num_add _ NaN = NaN"
| "num_add PInf NInf = NaN"
| "num_add NInf PInf = NaN"
| "num_add PInf _ = PInf"
| "num_add NInf _ = NInf"
| "num_add (Fin _) PInf = PInf"
| "num_add (Fin _) NInf = NInf"

definition resolveSessionRangeMs :: "(string \<Rightarrow> jsnum) \<Rightarrow> rat \<Rightarrow> range_ms option" where
  "resolveSessionRangeMs legacy tsMs =
     map_option (\<lambda>datePart.
       let sessionCloseMs = date_parse legacy (datePart @ ''T'' @ pad2 13 @ '':'' @ pad2 45 @ '':00+08:00'')
       in \<lparr>fromMs = date_parse legacy (datePart @ ''T'' @ pad2 9 @ '':00:00+08:00''),
           toMs = num_min (Fin tsMs) sessionCloseMs\<rparr>)
       (resolveTaipeiDatePart tsMs)"

definition resolveTodayRangeMs :: "(string \<Rightarrow> jsnum) \<Rightarrow> rat \<Rightarrow> range_ms option" where
  "resolveTodayRangeMs legacy now = resolveSessionRangeMs legacy now"

definition resolveYesterdayRangeMs :: "(string \<Rightarrow> jsnum) \<Rightarrow> rat \<Rightarrow> range_ms option" where
  "resolveYesterdayRangeMs legacy nowMs =
     Option.bind (resolveSessionRangeMs legacy nowMs) (\<lambda>todayRange.
       map_option (\<lambda>yesterdayRange.
         let elapsedMs = num_max (Fin 0) (num_sub (toMs todayRange) (fromMs todayRange))
         in \<lparr>fromMs = fromMs yesterdayRange,
             toMs = num_min (num_add (fromMs yesterdayRange) elapsedMs) (toMs yesterdayRange)\<rparr>)
         (resolveSessionRangeMs legacy (nowMs - of_int (24 * 60 * 60 * 1000))))"

lemma session_range_modern:
  assumes "modern_ts now"
  shows "resolveSessionRangeMs legacy now =
    Some \<lparr>fromMs = Fin (of_int (taipei_day \<lfloor>now\<rfloor> * day_ms - taipei_offset + session_open)),
          toMs = Fin (min now (of_int (taipei_day \<lfloor>now\<rfloor> * day_ms - taipei_offset + session_close)))\<rparr>"
proof -
  let ?z = "taipei_day \<lfloor>now\<rfloor>"
  note day = modern_ts_day [OF assms]
  have d: "pad2 9 = ''09''" "pad2 13 = ''13''" "pad2 45 = ''45''" by code_simp+
  have "bounds_of_date legacy (format_ymd ?z) =
      \<lparr>startMs = date_parse legacy (format_ymd ?z @ ''T'' @ pad2 9 @ '':00:00+08:00''),
       endMs = date_parse legacy (format_ymd ?z @ ''T'' @ pad2 13 @ '':'' @ pad2 45 @ '':00+08:00'')\<rparr>"
    by (simp add: bounds_of_date_def SESSION_START_HHMM_def SESSION_END_HHMM_def d)
  then have "date_parse legacy (format_ymd ?z @ ''T'' @ pad2 9 @ '':00:00+08:00'')
      = Fin (of_int (?z * day_ms - taipei_offset + session_open))"
    "date_parse legacy (format_ymd ?z @ ''T'' @ pad2 13 @ '':'' @ pad2 45 @ '':00+08:00'')
      = Fin (of_int (?z * day_ms - taipei_offset + session_close))"
    unfolding bounds_of_modern_date [OF day(3)] by simp_all
  then show ?thesis
    by (simp add: resolveSessionRangeMs_def resolveTaipeiDatePart_def day(1) Let_def min_def)
qed

text \<open>
  The ranges asked for: today's goes from nine o'clock to the close or to now, whichever is
  earlier, and yesterday's is today's moved back by one day, at any time of the day; before nine
  o'clock both are inverted.
\<close>

theorem baseline_ranges:
  assumes "modern_ts now" and "of_int day_ms \<le> now"
  shows "\<exists>a b. resolveTodayRangeMs legacy now = Some \<lparr>fromMs = Fin a, toMs = Fin b\<rparr>
    \<and> resolveYesterdayRangeMs legacy now = Some \<lparr>fromMs = Fin (a - of_int day_ms), toMs = Fin (b - of_int day_ms)\<rparr>
    \<and> b \<le> now \<and> b - a \<le> of_int (session_close - session_open)
    \<and> (b < a \<longleftrightarrow> taipei_time_of_day now < of_int session_open)"
proof -
  let ?z = "taipei_day \<lfloor>now\<rfloor>"
  define a where "a = (of_int (?z * day_ms - taipei_offset + session_open) :: rat)"
  define c where "c = (of_int (?z * day_ms - taipei_offset + session_close) :: rat)"
  define b where "b = min now c"
  have y: "modern_ts (now - of_int day_ms)" using assms by (simp add: day_ms_def)
  have z: "taipei_day (\<lfloor>now\<rfloor> - day_ms) = ?z - 1"
    by (simp add: taipei_day_def day_ms_def)
  have today: "resolveSessionRangeMs legacy now = Some \<lparr>fromMs = Fin a, toMs = Fin b\<rparr>"
    by (simp add: session_range_modern [OF assms(1)] a_def b_def c_def)
  have "resolveSessionRangeMs legacy (now - of_int day_ms) =
      Some \<lparr>fromMs = Fin (a - of_int day_ms), toMs = Fin (min (now - of_int day_ms) (c - of_int day_ms))\<rparr>"
    by (simp add: session_range_modern [OF y] z a_def c_def algebra_simps)
  then have yesterday: "resolveSessionRangeMs legacy (now - of_int (24 * 60 * 60 * 1000)) =
      Some \<lparr>fromMs = Fin (a - of_int day_ms), toMs = Fin (b - of_int day_ms)\<rparr>"
    by (simp add: day_ms_def b_def min_def)
  have "num_min (num_add (Fin (a - of_int day_ms)) (num_max (Fin 0) (num_sub (Fin b) (Fin a)))) (Fin (b - of_int day_ms))
      = Fin (b - of_int day_ms)"
    by (auto simp: not_less)
  then have r: "resolveYesterdayRangeMs legacy now =
      Some \<lparr>fromMs = Fin (a - of_int day_ms), toMs = Fin (b - of_int day_ms)\<rparr>"
    unfolding resolveYesterdayRangeMs_def today yesterday bind.bind_lunit option.map Let_def range_ms.simps
    by simp
  have ac: "c - a = of_int (session_close - session_open)" and "a \<le> c"
    by (simp_all add: a_def c_def session_open_def session_close_def)
  have "b < a \<longleftrightarrow> now < a" using \<open>a \<le> c\<close> by (auto simp: b_def min_def)
  also have "\<dots> \<longleftrightarrow> taipei_time_of_day now < of_int session_open"
    by (simp add: a_def taipei_time_of_day_def modern_ts_day(2) [OF assms(1), symmetric] algebra_simps)
  finally have inv: "b < a \<longleftrightarrow> taipei_time_of_day now < of_int session_open" .
  have "b \<le> now" "b - a \<le> of_int (session_close - session_open)"
    using ac by (auto simp: b_def min_def)
  then show ?thesis using today r inv by (auto simp: resolveTodayRangeMs_def)
qed

theorem baseline_ranges_witness:
  "\<exists>a b. resolveTodayRangeMs (\<lambda>_. NaN) 100000000 = Some \<lparr>fromMs = Fin a, toMs = Fin b\<rparr>
    \<and> resolveYesterdayRangeMs (\<lambda>_. NaN) 100000000 = Some \<lparr>fromMs = Fin (a - of_int day_ms), toMs = Fin (b - of_int day_ms)\<rparr>
    \<and> b \<le> 100000000 \<and> b - a \<le> of_int (session_close - session_open)
    \<and> (b < a \<longleftrightarrow> taipei_time_of_day 100000000 < of_int session_open)"
  by (rule baseline_ranges) (simp_all add: day_ms_def)

text \<open>\<open>Promise.all\<close> of two calls; \<open>leftFirst\<close> tells which rejection comes first when both reject.\<close>

definition promise_all :: "bool \<Rightarrow> js_error + 'a \<Rightarrow> js_error + 'b \<Rightarrow> js_error + 'a \<times> 'b" where
  "promise_all leftFirst l r =
     (case (l, r) of
        (Inr x, Inr y) \<Rightarrow> Inr (x, y)
      | (Inl e, Inr _) \<Rightarrow> Inl e
      | (Inr _, Inl e) \<Rightarrow> Inl e
      | (Inl e, Inl e') \<Rightarrow> Inl (if leftFirst then e else e'))"

definition bearer :: "string \<Rightarrow> (string, string) dict" where
  "bearer token = [(''Authorization'', ''Bearer '' @ token)]"

text \<open>What every request of the dashboard depends on beside its arguments.\<close>

record dash_env = api_env +
  de_fetch :: "http_request \<Rightarrow> fetched"
  de_legacy :: "string \<Rightarrow> jsnum"
  de_show_num :: "jsnum \<Rightarrow> string"
  de_now :: rat
  de_leftFirst :: bool

definition get_data :: "dash_env \<Rightarrow> string \<Rightarrow> string \<Rightarrow> js_error + jsval" where
  "get_data d token path = snd (getJson (api_env.truncate d) (de_fetch d) path (bearer token))"

definition range_query :: "dash_env \<Rightarrow> range_ms \<Rightarrow> string" where
  "range_query d r = ''from_ms='' @ de_show_num d (fromMs r) @ ''&to_ms='' @ de_show_num d (toMs r)"

definition code_query :: "string \<Rightarrow> string" where
  "code_query code = ''code='' @ encodeURIComponent code @ ''&''"

definition range_error :: js_error where "range_error = OtherError ''RangeError''"

definition getEstimatedVolumeBaseline :: "dash_env \<Rightarrow> string \<Rightarrow> string \<Rightarrow> js_error + jsval \<times> jsval" where
  "getEstimatedVolumeBaseline d token code =
     (case (resolveTodayRangeMs (de_legacy d) (de_now d), resolveYesterdayRangeMs (de_legacy d) (de_now d)) of
        (Some today, Some yesterday) \<Rightarrow>
          promise_all (de_leftFirst d)
            (resolveOrFallbackOnNotFound
               (get_data d token (''/v1/market-summary/today?'' @ code_query code @ range_query d today)) (Arr 0 []))
            (resolveOrFallbackOnNotFound
               (get_data d token (''/v1/market-summary/history?'' @ code_query code @ range_query d yesterday)) (Arr 0 []))
      | _ \<Rightarrow> Inl range_error)"

definition getDailyAmplitudeHistory :: "dash_env \<Rightarrow> string \<Rightarrow> string \<Rightarrow> nat \<Rightarrow> js_error + jsval" where
  "getDailyAmplitudeHistory d token code n =
     get_data d token (''/v1/kbar/1m/daily-amplitude?'' @ code_query code @ ''n='' @ string_of_nat n)"

definition getOrderFlowBaseline :: "dash_env \<Rightarrow> string \<Rightarrow> string \<Rightarrow> js_error + jsval \<times> jsval" where
  "getOrderFlowBaseline d token code =
     (case resolveTodayRangeMs (de_legacy d) (de_now d) of
        Some r \<Rightarrow>
          promise_all (de_leftFirst d)
            (resolveOrFallbackOnNotFound
               (get_data d token (''/v1/kbar/1m/today?'' @ code_query code @ range_query d r)) (Arr 0 []))
            (resolveOrFallbackOnNotFound
               (get_data d token (''/v1/metric/bidask/today?'' @ code_query code @ range_query d r)) (Arr 0 []))
      | None \<Rightarrow> Inl range_error)"

definition getQuoteToday :: "dash_env \<Rightarrow> string \<Rightarrow> string \<Rightarrow> js_error + jsval" where
  "getQuoteToday d token code =
     (case resolveTodayRangeMs (de_legacy d) (de_now d) of
        Some r \<Rightarrow> get_data d token (''/v1/quote/today?'' @ code_query code @ range_query d r)
      | None \<Rightarrow> Inl range_error)"

definition getOtcSummaryToday :: "dash_env \<Rightarrow> string \<Rightarrow> string \<Rightarrow> js_error + jsval" where
  "getOtcSummaryToday d token code =
     (case resolveTaipeiDatePart (de_now d) of
        Some datePart \<Rightarrow>
          (let r = \<lparr>fromMs = date_parse (de_legacy d) (datePart @ ''T'' @ pad2 8 @ '':'' @ pad2 45 @ '':00+08:00''),
                   toMs = date_parse (de_legacy d) (datePart @ ''T'' @ pad2 13 @ '':'' @ pad2 44 @ '':00+08:00'')\<rparr>
           in get_data d token (''/v1/otc-summary/today?'' @ code_query code @ range_query d r))
      | None \<Rightarrow> Inl range_error)"

definition getSpotMarketDistributionBaseline :: "dash_env \<Rightarrow> string \<Rightarrow> js_error + jsval \<times> jsval" where
  "getSpotMarketDistributionBaseline d token =
     (case resolveTodayRangeMs (de_legacy d) (de_now d) of
        Some r \<Rightarrow>
          promise_all (de_leftFirst d)
            (resolveOrFallbackOnNotFound (get_data d token ''/v1/spot/market-distribution/latest'') Null)
            (resolveOrFallbackOnNotFound
               (get_data d token (''/v1/spot/market-distribution/today?'' @ range_query d r)) (Arr 0 []))
      | None \<Rightarrow> Inl range_error)"

definition not_found :: "js_error + 'a \<Rightarrow> bool" where
  "not_found r \<longleftrightarrow> (\<exists>code. r = Inl (ApiError code 404))"

lemma fallback_cases:
  "resolveOrFallbackOnNotFound r v = (if not_found r then Inr v else r)"
  by (auto simp: resolveOrFallbackOnNotFound_def not_found_def split: sum.splits js_error.splits)

lemma promise_all_Inl:
  "promise_all b l r = Inl e \<longleftrightarrow>
    (l = Inl e \<and> (b \<or> (\<exists>y. r = Inr y))) \<or> (r = Inl e \<and> (\<not> b \<or> (\<exists>x. l = Inr x)))"
  by (auto simp: promise_all_def split: sum.splits)

text \<open>
  A missing half does not lose the other: a 404 for the k-bars or for the metrics counts as no
  rows, any other failure of either request fails the baseline with that very error, and otherwise
  both responses arrive unchanged.
\<close>

theorem baseline_halves:
  assumes "resolveTodayRangeMs (de_legacy d) (de_now d) = Some r"
    and k: "kbars = get_data d token (''/v1/kbar/1m/today?'' @ code_query code @ range_query d r)"
    and m: "metrics = get_data d token (''/v1/metric/bidask/today?'' @ code_query code @ range_query d r)"
  shows "(\<forall>e. getOrderFlowBaseline d token code = Inl e \<longrightarrow>
            e \<in> {e. kbars = Inl e \<or> metrics = Inl e} \<and> \<not> not_found (Inl e :: js_error + jsval))
    \<and> (\<forall>x y. getOrderFlowBaseline d token code = Inr (x, y) \<longleftrightarrow>
            (if not_found kbars then x = Arr 0 [] else kbars = Inr x)
            \<and> (if not_found metrics then y = Arr 0 [] else metrics = Inr y))"
proof -
  have g: "getOrderFlowBaseline d token code =
      promise_all (de_leftFirst d) (if not_found kbars then Inr (Arr 0 []) else kbars)
        (if not_found metrics then Inr (Arr 0 []) else metrics)"
    by (simp add: getOrderFlowBaseline_def assms(1) fallback_cases k m)
  show ?thesis
    unfolding g promise_all_Inl
    by (auto simp: promise_all_def not_found_def split: sum.splits if_splits)
qed

theorem baseline_halves_witness:
  "\<exists>d x y. getOrderFlowBaseline d ''t'' ''TXFE6'' = Inr (x, y) \<and> x = Arr 0 [] \<and> y = Arr 0 []"
proof -
  define d where "d = \<lparr>API_BASE_URL = ''/api'', env_protocol = ''https:'', env_prod = True, env_url_host = (\<lambda>_. None),
    de_fetch = (\<lambda>_. Responded \<lparr>rs_status = 404, rs_json = None\<rparr>), de_legacy = (\<lambda>_. NaN), de_show_num = (\<lambda>_. ''0''),
    de_now = 0, de_leftFirst = True\<rparr>"
  have now: "modern_ts (de_now d)" by (simp add: d_def)
  obtain r where r: "resolveTodayRangeMs (de_legacy d) (de_now d) = Some r"
    using session_range_modern [OF now, of "de_legacy d"] by (simp add: resolveTodayRangeMs_def)
  have "not_found (get_data d token path)" for token path
    by (simp add: get_data_def getJson_def request_def d_def shouldBlockInsecureTransport_def absolute_http_def
        ascii_lower_def not_found_def response_ok_def parseError_def api_env.defs Let_def)
  then have "getOrderFlowBaseline d ''t'' ''TXFE6'' = Inr (Arr 0 [], Arr 0 [])"
    using baseline_halves [OF r refl refl, of "''t''" "''TXFE6''"] by simp
  then show ?thesis by blast
qed

end
