(* ===== verification/Session.thy ===== *)
theory Session
  imports ApiClient
begin

text \<open>
  The session of the user: \<open>lib/types/auth.ts\<close>, \<open>lib/store/auth-store.ts\<close>,
  \<open>features/auth/lib/token.ts\<close>, \<open>features/subscription/lib/entitlement.ts\<close>, the bootstrap
  \<open>app/SessionBootstrap.tsx\<close>, \<open>applyAuthenticatedSession\<close> and the route guard
  \<open>lib/guards/GuardedRoute.tsx\<close> with the route table \<open>app/router.tsx\<close>.

  \<open>JSON.parse\<close> is the parameter \<open>json\<close>. A throw is None where the program only tells that there
  was one, and a \<open>js_error\<close> where it looks at the error.
\<close>

section \<open>Roles and entitlements\<close>

datatype user_role = Visitor | Member | Admin
datatype entitlement_state = NoEntitlement | Pending | Active

fun roleRank :: "user_role \<Rightarrow> nat" where
  "roleRank Visitor = 0"
| "roleRank Member = 1"
| "roleRank Admin = 2"

instantiation user_role :: linorder
begin

definition less_eq_user_role :: "user_role \<Rightarrow> user_role \<Rightarrow> bool" where
  "less_eq_user_role a b \<longleftrightarrow> roleRank a \<le> roleRank b"

definition less_user_role :: "user_role \<Rightarrow> user_role \<Rightarrow> bool" where
  "less_user_role a b \<longleftrightarrow> roleRank a < roleRank b"

instance
proof
  fix a b :: user_role
  assume "a \<le> b" "b \<le> a"
  then show "a = b" by (cases a; cases b) (auto simp: less_eq_user_role_def)
qed (auto simp: less_eq_user_role_def less_user_role_def)

end

definition mapEntitlement :: "jsval \<Rightarrow> entitlement_state" where
  "mapEntitlement status =
     (if status = Str ''active'' then Active
      else if status = Str ''pending'' \<or> status = Str ''checkout_started'' then Pending
      else NoEntitlement)"

definition resolveEntitlementFromBillingStatus :: "jsval \<Rightarrow> entitlement_state" where
  "resolveEntitlementFromBillingStatus status =
     (case js_get status ''entitlement_active'' of
        Bool b \<Rightarrow> if b then Active else NoEntitlement
      | _ \<Rightarrow> mapEntitlement (js_get status ''status''))"

section \<open>The access token\<close>

text \<open>\<open>atob\<close>, the forgiving base64 decoder of the platform: None when it throws.\<close>

definition b64_value :: "char \<Rightarrow> nat option" where
  "b64_value c =
     (let n = of_char c :: nat in
      if 65 \<le> n \<and> n \<le> 90 then Some (n - 65)
      else if 97 \<le> n \<and> n \<le> 122 then Some (n - 71)
      else if 48 \<le> n \<and> n \<le> 57 then Some (n + 4)
      else if n = 43 then Some 62 else if n = 47 then Some 63 else None)"

fun b64_bytes :: "nat list \<Rightarrow> nat list" where
  "b64_bytes (a # b # c # d # r) =
     [4 * a + b div 16, 16 * (b mod 16) + c div 4, 64 * (c mod 4) + d] @ b64_bytes r"
| "b64_bytes [a, b, c] = [4 * a + b div 16, 16 * (b mod 16) + c div 4]"
| "b64_bytes [a, b] = [4 * a + b div 16]"
| "b64_bytes _ = []"

definition strip_padding :: "string \<Rightarrow> string" where
  "strip_padding s =
     (if length s mod 4 \<noteq> 0 then s
      else if length s \<ge> 2 \<and> drop (length s - 2) s = ''=='' then take (length s - 2) s
      else if s \<noteq> [] \<and> last s = CHR ''='' then butlast s else s)"

definition atob :: "string \<Rightarrow> string option" where
  "atob s =
     (let t = strip_padding (filter (\<lambda>c. c \<notin> {CHR 0x09, CHR 0x0A, CHR 0x0C, CHR 0x0D, CHR 0x20}) s)
      in if length t mod 4 = 1 then None
         else map_option (\<lambda>vs. map char_of (b64_bytes vs)) (those (map b64_value t)))"

definition decodeBase64Url :: "string \<Rightarrow> string option" where
  "decodeBase64Url value =
     (let normalized = map (\<lambda>c. if c = CHR ''-'' then CHR ''+'' else if c = CHR ''_'' then CHR ''/'' else c) value
      in atob (normalized @ replicate (4 * ((length normalized + 3) div 4) - length normalized) CHR ''=''))"

definition decodeAccessToken :: "(string \<Rightarrow> jsval option) \<Rightarrow> string \<Rightarrow> jsval option" where
  "decodeAccessToken json token =
     (let parts = split_on CHR ''.'' token
      in if length parts \<noteq> 3 then None else Option.bind (decodeBase64Url (parts ! 1)) json)"

definition mapTokenRole :: "jsval \<Rightarrow> user_role option" where
  "mapTokenRole role =
     (if role = Str ''admin'' then Some Admin else if role = Str ''user'' then Some Member else None)"

section \<open>The store\<close>

record session_state =
  s_token :: "string option"
  s_role :: user_role
  s_entitlement :: entitlement_state
  s_resolved :: bool
  s_checkoutSessionId :: "string option"
  s_storage :: "string option"

definition initial_session :: "string option \<Rightarrow> session_state" where
  "initial_session stored =
     \<lparr>s_token = None, s_role = Visitor, s_entitlement = NoEntitlement, s_resolved = False,
      s_checkoutSessionId = stored, s_storage = stored\<rparr>"

definition setResolved :: "bool \<Rightarrow> session_state \<Rightarrow> session_state" where
  "setResolved b st = st\<lparr>s_resolved := b\<rparr>"

definition setSession :: "string \<Rightarrow> user_role \<Rightarrow> entitlement_state \<Rightarrow> session_state \<Rightarrow> session_state" where
  "setSession token role entitlement st =
     st\<lparr>s_token := Some token, s_role := role, s_entitlement := entitlement, s_resolved := True\<rparr>"

definition writeCheckoutSessionId :: "string option \<Rightarrow> session_state \<Rightarrow> session_state" where
  "writeCheckoutSessionId sessionId st =
     (case sessionId of
        Some s \<Rightarrow> if s \<noteq> [] then st\<lparr>s_storage := Some s\<rparr> else st\<lparr>s_storage := None\<rparr>
      | None \<Rightarrow> st\<lparr>s_storage := None\<rparr>)"

definition setCheckoutSessionId :: "string option \<Rightarrow> session_state \<Rightarrow> session_state" where
  "setCheckoutSessionId sessionId st = (writeCheckoutSessionId sessionId st)\<lparr>s_checkoutSessionId := sessionId\<rparr>"

definition clearSession :: "session_state \<Rightarrow> session_state" where
  "clearSession st =
     (writeCheckoutSessionId None st)
       \<lparr>s_token := None, s_role := Visitor, s_entitlement := NoEntitlement, s_resolved := True,
        s_checkoutSessionId := None\<rparr>"

section \<open>Starting a session\<close>

definition token_session ::
  "(string \<Rightarrow> jsval option) \<Rightarrow> string \<Rightarrow> (string \<times> user_role) option" where
  "token_session json token =
     Option.bind (decodeAccessToken json token) (\<lambda>payload.
       map_option (Pair token) (mapTokenRole (js_get payload ''role'')))"

text \<open>\<open>resolveSessionBootstrap\<close>, from what the refresh and the billing calls return.\<close>

definition resolveSessionBootstrap ::
  "(string \<Rightarrow> jsval option) \<Rightarrow> js_error + jsval \<Rightarrow> js_error + jsval
     \<Rightarrow> js_error + string \<times> user_role \<times> entitlement_state" where
  "resolveSessionBootstrap json refreshed billing =
     (case refreshed of
        Inl e \<Rightarrow> Inl e
      | Inr body \<Rightarrow>
          (case js_get body ''access_token'' of
             Str token \<Rightarrow>
               (case token_session json token of
                  None \<Rightarrow> Inl (OtherError ''invalid_access_token'')
                | Some (token, role) \<Rightarrow>
                    (case billing of
                       Inr status \<Rightarrow> Inr (token, role, resolveEntitlementFromBillingStatus status)
                     | Inl e \<Rightarrow>
                         if isAbortError e then Inl e else Inr (token, role, mapEntitlement (Str ''none''))))
           | _ \<Rightarrow> Inl (OtherError ''TypeError'')))"

definition bootstrap_start :: "session_state \<Rightarrow> session_state" where
  "bootstrap_start st = setResolved False st"

definition bootstrap_settle ::
  "bool \<Rightarrow> js_error + string \<times> user_role \<times> entitlement_state \<Rightarrow> session_state \<Rightarrow> session_state" where
  "bootstrap_settle cancelled result st =
     (let st1 =
        (case result of
           Inr (token, role, entitlement) \<Rightarrow> if cancelled then st else setSession token role entitlement st
         | Inl e \<Rightarrow>
             if isAbortError e \<or> cancelled then st
             else (let hasActiveSession = (s_token st \<noteq> None \<and> s_token st \<noteq> Some [] \<and> s_role st \<noteq> Visitor)
                   in if hasActiveSession then st else clearSession st))
      in if cancelled then st1 else setResolved True st1)"

text \<open>\<open>applyAuthenticatedSession\<close> after a login or a registration: None when it throws.\<close>

definition applyAuthenticatedSession ::
  "(string \<Rightarrow> jsval option) \<Rightarrow> string \<Rightarrow> js_error + jsval \<Rightarrow> session_state \<Rightarrow> session_state option" where
  "applyAuthenticatedSession json token billing st =
     map_option (\<lambda>(token, role).
       setSession token role
         (case billing of Inr status \<Rightarrow> resolveEntitlementFromBillingStatus status
          | Inl e \<Rightarrow> mapEntitlement (Str ''none'')) st)
       (token_session json token)"

definition getRedirectTarget :: "jsval \<Rightarrow> string" where
  "getRedirectTarget state =
     (if is_object state then (case js_get state ''from'' of Str s \<Rightarrow> s | _ \<Rightarrow> ''/dashboard'') else ''/dashboard'')"

section \<open>The guard\<close>

record guard_props =
  requiredRole :: user_role
  requireActiveEntitlement :: bool
  allowAdminBypassEntitlement :: bool

datatype guard_result = PageSkeleton | To_login string | To_subscription | Children

record toast_refs =
  loginToastPath :: "string option"
  subscriptionToastPath :: "string option"

text \<open>One render of the guard: what it shows, the toasts it raises, and its refs.\<close>

definition GuardedRoute ::
  "guard_props \<Rightarrow> string \<Rightarrow> session_state \<Rightarrow> toast_refs \<Rightarrow> guard_result \<times> string list \<times> toast_refs" where
  "GuardedRoute g pathname st refs =
     (if \<not> s_resolved st then (PageSkeleton, [], refs)
      else if roleRank (s_role st) < roleRank (requiredRole g) then
        (if loginToastPath refs \<noteq> Some pathname
         then (To_login pathname, [''guard.redirect.login''], refs\<lparr>loginToastPath := Some pathname\<rparr>)
         else (To_login pathname, [], refs))
      else if requireActiveEntitlement g \<and> s_entitlement st \<noteq> Active
          \<and> \<not> (allowAdminBypassEntitlement g \<and> s_role st = Admin) then
        (if subscriptionToastPath refs \<noteq> Some pathname
         then (To_subscription, [''guard.redirect.subscription''], refs\<lparr>subscriptionToastPath := Some pathname\<rparr>)
         else (To_subscription, [], refs))
      else (Children, [], refs))"

section \<open>The route table\<close>

datatype page =
    LoginPage | SignupPage | SignupEmailVerificationPage | CheckoutSuccessPage | CheckoutCancelPage
  | SubscriptionPage | ComingSoonPage | RealtimeDashboardPage | HistoricalDataAnalysisPage
  | MarketThermometerPage | HistoricalDataLoaderPage | HistoricalAmplitudeDistributionPage
  | TreemapDemoPage | EventAnalyticsPage | DistributionAnalyticsPage | AdminAuditPage
  | ForbiddenPage | NotFoundPage | Redirect string

record route =
  r_path :: string
  r_guard :: "guard_props option"
  r_shell :: bool
  r_page :: page

definition open_route :: "string \<Rightarrow> page \<Rightarrow> route" where
  "open_route path page = \<lparr>r_path = path, r_guard = None, r_shell = False, r_page = page\<rparr>"

definition guarded :: "user_role \<Rightarrow> bool \<Rightarrow> guard_props" where
  "guarded role entitled =
     \<lparr>requiredRole = role, requireActiveEntitlement = entitled, allowAdminBypassEntitlement = True\<rparr>"

definition shell_route :: "string \<Rightarrow> user_role \<Rightarrow> bool \<Rightarrow> page \<Rightarrow> route" where
  "shell_route path role entitled page =
     \<lparr>r_path = path, r_guard = Some (guarded role entitled), r_shell = True, r_page = page\<rparr>"

definition router :: "route list" where
  "router =
     [open_route ''/'' (Redirect ''/dashboard''),
      open_route ''/login'' LoginPage,
      open_route ''/signup'' SignupPage,
      open_route ''/signup/verify-email'' SignupEmailVerificationPage,
      open_route ''/subscription/checkout/success'' CheckoutSuccessPage,
      open_route ''/subscription/checkout/cancel'' CheckoutCancelPage,
      (open_route ''/subscription'' SubscriptionPage)\<lparr>r_guard := Some (guarded Visitor False)\<rparr>,
      open_route ''/options-positioning'' ComingSoonPage,
      open_route ''/options-add-close'' ComingSoonPage,
      shell_route ''/dashboard'' Visitor False RealtimeDashboardPage,
      shell_route ''/historical-data-analysis'' Member True HistoricalDataAnalysisPage,
      shell_route ''/market-thermometer'' Member True MarketThermometerPage,
      shell_route ''/historical-data-loader'' Admin False HistoricalDataLoaderPage,
      shell_route ''/historical-amplitude-distribution'' Member True HistoricalAmplitudeDistributionPage,
      shell_route ''/industry-contribution-heatmap'' Member True TreemapDemoPage,
      shell_route ''/analytics/events'' Member False EventAnalyticsPage,
      shell_route ''/analytics/distributions'' Member False DistributionAnalyticsPage,
      shell_route ''/subscription'' Visitor False SubscriptionPage,
      shell_route ''/admin/audit'' Admin False AdminAuditPage,
      open_route ''/forbidden'' ForbiddenPage]"

text \<open>
  The route of a path. The router compares without regard to case and to slashes at the end (the
  defaults of \<open>createBrowserRouter\<close>), here by a key of both; the argument is the path with its
  escapes decoded. All paths are static, so among equal ones React Router takes the first of the
  table; \<open>*\<close> is what is left.
\<close>

definition route_key :: "string \<Rightarrow> string" where
  "route_key pathname = map ascii_lower (rev (dropWhile (\<lambda>c. c = CHR ''/'') (rev pathname)))"

definition match_route :: "string \<Rightarrow> route" where
  "match_route pathname =
     (case find (\<lambda>r. route_key (r_path r) = route_key pathname) router of
        Some r \<Rightarrow> r | None \<Rightarrow> open_route ''*'' NotFoundPage)"

text \<open>Every spelling of an address has the same route, and each path of the table has its own.\<close>

lemma match_route_spelling:
  "match_route (pathname @ ''/'') = match_route pathname"
  "match_route (map ascii_lower pathname) = match_route pathname"
proof -
  have idem: "ascii_lower (ascii_lower c) = ascii_lower c" for c
  proof -
    have "(of_char c :: nat) < 256" by simp
    then show ?thesis by (auto simp: ascii_lower_def Let_def)
  qed
  have slash: "(\<lambda>c. c = CHR ''/'') \<circ> ascii_lower = (\<lambda>c. c = CHR ''/'')"
  proof
    fix c
    have "(of_char (ascii_lower c) :: nat) = (if (65 :: nat) \<le> of_char c \<and> of_char c \<le> (90 :: nat) then of_char c + 32 else of_char c)"
      by (simp add: ascii_lower_def Let_def)
    then have "(of_char (ascii_lower c) = (of_char CHR ''/'' :: nat)) = (of_char c = (of_char CHR ''/'' :: nat))" by auto
    then show "((\<lambda>c. c = CHR ''/'') \<circ> ascii_lower) c = (c = CHR ''/'')"
      by (simp only: of_char_eq_iff comp_def)
  qed
  show "match_route (pathname @ ''/'') = match_route pathname"
    by (simp add: match_route_def route_key_def)
  have "route_key (map ascii_lower pathname) = route_key pathname"
    unfolding route_key_def rev_map dropWhile_map slash by (simp add: rev_map [symmetric] idem comp_def)
  then show "match_route (map ascii_lower pathname) = match_route pathname"
    by (simp add: match_route_def)
qed

lemma match_route_static [simp]:
  "match_route ''/login'' = open_route ''/login'' LoginPage"
  "match_route ''/dashboard'' = shell_route ''/dashboard'' Visitor False RealtimeDashboardPage"
  "match_route ''/market-thermometer'' = shell_route ''/market-thermometer'' Member True MarketThermometerPage"
  "match_route ''/industry-contribution-heatmap'' = shell_route ''/industry-contribution-heatmap'' Member True TreemapDemoPage"
  "match_route ''/historical-data-analysis'' = shell_route ''/historical-data-analysis'' Member True HistoricalDataAnalysisPage"
  "match_route ''/historical-amplitude-distribution''
     = shell_route ''/historical-amplitude-distribution'' Member True HistoricalAmplitudeDistributionPage"
  "match_route ''/options-positioning'' = open_route ''/options-positioning'' ComingSoonPage"
  "match_route ''/options-add-close'' = open_route ''/options-add-close'' ComingSoonPage"
  "match_route ''/subscription'' = (open_route ''/subscription'' SubscriptionPage)\<lparr>r_guard := Some (guarded Visitor False)\<rparr>"
  "match_route ''/historical-data-loader'' = shell_route ''/historical-data-loader'' Admin False HistoricalDataLoaderPage"
  "match_route ''/admin/audit'' = shell_route ''/admin/audit'' Admin False AdminAuditPage"
  by code_simp+

definition shown_page :: "string \<Rightarrow> session_state \<Rightarrow> toast_refs \<Rightarrow> page option" where
  "shown_page pathname st refs =
     (let r = match_route pathname in
      case r_guard r of
        None \<Rightarrow> Some (r_page r)
      | Some g \<Rightarrow> (if fst (GuardedRoute g pathname st refs) = Children then Some (r_page r) else None))"

section \<open>Tokens round-trip\<close>

text \<open>The base64url encoding without padding, as the issuer of a token writes it.\<close>

fun b64_sextets :: "nat list \<Rightarrow> nat list" where
  "b64_sextets (a # b # c # r) =
     [a div 4, 16 * (a mod 4) + b div 16, 4 * (b mod 16) + c div 64, c mod 64] @ b64_sextets r"
| "b64_sextets [a, b] = [a div 4, 16 * (a mod 4) + b div 16, 4 * (b mod 16)]"
| "b64_sextets [a] = [a div 4, 16 * (a mod 4)]"
| "b64_sextets [] = []"

definition b64url_char :: "nat \<Rightarrow> char" where
  "b64url_char v =
     (if v < 26 then char_of (65 + v) else if v < 52 then char_of (71 + v)
      else if v < 62 then char_of (v - 4) else if v = 62 then CHR ''-'' else CHR ''_'')"

definition b64url :: "string \<Rightarrow> string" where
  "b64url s = map b64url_char (b64_sextets (map of_char s))"

lemma low_part: "y < n \<Longrightarrow> (n * x + y) div n = x \<and> (n * x + y) mod n = y" for x y n :: nat
  by simp

lemma b64_bytes_sextets: "\<forall>b \<in> set bs. b < 256 \<Longrightarrow> b64_bytes (b64_sextets bs) = bs"
proof (induction bs rule: b64_sextets.induct)
  case (1 a b c r)
  have "b div 16 < 16" "c div 64 < 4" using "1.prems" by auto
  then have "(16 * (a mod 4) + b div 16) div 16 = a mod 4" "(16 * (a mod 4) + b div 16) mod 16 = b div 16"
    "(4 * (b mod 16) + c div 64) div 4 = b mod 16" "(4 * (b mod 16) + c div 64) mod 4 = c div 64"
    using low_part [of "b div 16" 16 "a mod 4"] low_part [of "c div 64" 4 "b mod 16"] by blast+
  then show ?case using 1 by simp
next
  case (2 a b)
  then have "b div 16 < 16" by auto
  then have "(16 * (a mod 4) + b div 16) div 16 = a mod 4" "(16 * (a mod 4) + b div 16) mod 16 = b div 16"
    using low_part [of "b div 16" 16 "a mod 4"] by blast+
  then show ?case by simp
next
  case (3 a)
  then show ?case by simp
qed simp

lemma b64_sextets_range: "\<forall>b \<in> set bs. b < 256 \<Longrightarrow> \<forall>v \<in> set (b64_sextets bs). v < 64"
  by (induction bs rule: b64_sextets.induct) auto

lemma b64_sextets_length: "length (b64_sextets bs) mod 4 \<noteq> 1"
  by (induction bs rule: b64_sextets.induct) simp_all

abbreviation url_plain :: "char \<Rightarrow> char" where
  "url_plain c \<equiv> if c = CHR ''-'' then CHR ''+'' else if c = CHR ''_'' then CHR ''/'' else c"

lemma b64_alphabet:
  assumes "v < 64"
  shows "b64_value (url_plain (b64url_char v)) = Some v"
    and "url_plain (b64url_char v) \<notin> {CHR 0x09, CHR 0x0A, CHR 0x0C, CHR 0x0D, CHR 0x20, CHR ''=''}"
    and "b64url_char v \<noteq> CHR ''.''"
proof -
  let ?c = "b64url_char v"
  have eq: "of_char (b64url_char v) = of_char d" if "b64url_char v = d" for d :: char using that by simp
  show "b64_value (url_plain ?c) = Some v"
    "url_plain ?c \<notin> {CHR 0x09, CHR 0x0A, CHR 0x0C, CHR 0x0D, CHR 0x20, CHR ''=''}"
    "?c \<noteq> CHR ''.''"
  proof -
    consider "v < 62" | "v = 62" | "v = 63" using assms by linarith
    then have "b64_value (url_plain ?c) = Some v
      \<and> url_plain ?c \<notin> {CHR 0x09, CHR 0x0A, CHR 0x0C, CHR 0x0D, CHR 0x20, CHR ''=''} \<and> ?c \<noteq> CHR ''.''"
    proof cases
      case 1
      then have n: "of_char ?c = (if v < 26 then 65 + v else if v < 52 then 71 + v else v - 4 :: nat)"
        by (simp add: b64url_char_def)
      then have r: "of_char ?c \<in> {48..57} \<union> {65..90} \<union> {97..122::nat}" using 1 by auto
      have ne: "?c \<noteq> d" if "of_char d \<notin> {48..57} \<union> {65..90} \<union> {97..122::nat}" for d using r that by blast
      have "?c \<noteq> CHR ''-'' \<and> ?c \<noteq> CHR ''_'' \<and> ?c \<noteq> CHR ''.'' \<and> ?c \<noteq> CHR 0x09 \<and> ?c \<noteq> CHR 0x0A
          \<and> ?c \<noteq> CHR 0x0C \<and> ?c \<noteq> CHR 0x0D \<and> ?c \<noteq> CHR 0x20 \<and> ?c \<noteq> CHR ''=''"
        by (intro conjI; rule ne; simp)
      moreover have "b64_value ?c = Some v" using 1 by (auto simp: b64_value_def Let_def n)
      ultimately show ?thesis by simp
    qed (simp_all add: b64url_char_def b64_value_def)
    then show "b64_value (url_plain ?c) = Some v"
      "url_plain ?c \<notin> {CHR 0x09, CHR 0x0A, CHR 0x0C, CHR 0x0D, CHR 0x20, CHR ''=''}"
      "?c \<noteq> CHR ''.''" by blast+
  qed
qed

lemma strip_added_padding:
  assumes "CHR ''='' \<notin> set t" and "length t mod 4 \<noteq> 1"
  shows "strip_padding (t @ replicate (4 * ((length t + 3) div 4) - length t) CHR ''='') = t"
proof -
  let ?k = "4 * ((length t + 3) div 4) - length t"
  have len: "(length t + ?k) mod 4 = 0" by presburger
  have "?k = 0 \<or> ?k = 1 \<or> ?k = 2" using assms(2) by presburger
  then show ?thesis
  proof (elim disjE)
    assume 1: "?k = 0"
    have "drop (length t - 2) t \<noteq> ''==''"
    proof
      assume "drop (length t - 2) t = ''==''"
      then have "CHR ''='' \<in> set (drop (length t - 2) t)" by simp
      then show False using assms(1) in_set_dropD by fast
    qed
    moreover have "t = [] \<or> last t \<noteq> CHR ''=''" using assms(1) last_in_set by metis
    ultimately show ?thesis using 1 by (auto simp: strip_padding_def)
  next
    assume 2: "?k = 1"
    have "drop (length t + 1 - 2) (t @ ''='') \<noteq> ''==''"
    proof
      assume d: "drop (length t + 1 - 2) (t @ ''='') = ''==''"
      then have "t \<noteq> []" by auto
      then have "drop (length t + 1 - 2) (t @ ''='') = [last t] @ ''=''"
        by (cases t rule: rev_cases) auto
      then have "last t = CHR ''=''" using d by simp
      then show False using assms(1) \<open>t \<noteq> []\<close> last_in_set by metis
    qed
    then show ?thesis using 2 len by (simp add: strip_padding_def)
  next
    assume 3: "?k = 2"
    then have "t @ replicate ?k CHR ''='' = t @ ''==''" by (simp add: numeral_2_eq_2)
    then show ?thesis using 3 len by (simp add: strip_padding_def)
  qed
qed

lemma decode_b64url: "decodeBase64Url (b64url s) = Some s"
proof -
  let ?vs = "b64_sextets (map of_char s)"
  let ?t = "map (\<lambda>v. url_plain (b64url_char v)) ?vs"
  have bytes: "\<forall>b \<in> set (map of_char s). b < (256::nat)" by auto
  note v = b64_sextets_range [OF bytes]
  have ws: "CHR ''='' \<notin> set ?t" "filter (\<lambda>c. c \<notin> {CHR 0x09, CHR 0x0A, CHR 0x0C, CHR 0x0D, CHR 0x20}) ?t = ?t"
    using v b64_alphabet(2) by (fastforce simp: filter_id_conv)+
  have "those (map b64_value ?t) = Some ?vs"
    using those_eq_Some [of ?vs "\<lambda>v. b64_value (url_plain (b64url_char v))" "\<lambda>v. v"] v b64_alphabet(1)
    by (simp add: comp_def)
  moreover have "b64_bytes ?vs = map of_char s" by (rule b64_bytes_sextets [OF bytes])
  moreover have norm: "map url_plain (b64url s) = ?t" by (simp add: b64url_def comp_def)
  moreover have "length ?t mod 4 \<noteq> 1" using b64_sextets_length [of "map of_char s"] by simp
  ultimately show ?thesis
    unfolding decodeBase64Url_def Let_def atob_def norm
    using strip_added_padding [OF ws(1)] ws(2)
    by (simp add: comp_def)
qed

lemma b64url_no_dot: "CHR ''.'' \<notin> set (b64url s)"
proof -
  have "\<forall>v \<in> set (b64_sextets (map of_char s)). v < (64::nat)"
    by (rule b64_sextets_range) auto
  then show ?thesis using b64_alphabet(3) by (fastforce simp: b64url_def)
qed

lemma decode_b64url_token:
  assumes "CHR ''.'' \<notin> set header" and "CHR ''.'' \<notin> set sig"
  shows "decodeAccessToken json (header @ ''.'' @ b64url payload @ ''.'' @ sig) = json payload"
proof -
  have "split_on CHR ''.'' (header @ ''.'' @ b64url payload @ ''.'' @ sig) = [header, b64url payload, sig]"
    using split_on_append [OF assms(1), of "b64url payload @ ''.'' @ sig"]
      split_on_append [OF b64url_no_dot, of payload sig] split_on_no_sep [OF assms(2)]
    by simp
  then show ?thesis by (simp add: decodeAccessToken_def decode_b64url)
qed

text \<open>
  C25. Reading a token back: whatever text the issuer encodes as the payload (base64url, without
  padding), between a header and a signature without dots, \<open>decodeAccessToken\<close> hands exactly that
  text to \<open>JSON.parse\<close>.
\<close>

theorem token_roundtrip:
  assumes "CHR ''.'' \<notin> set header" and "CHR ''.'' \<notin> set sig"
  shows "decodeAccessToken json (header @ ''.'' @ b64url payload @ ''.'' @ sig) = json payload"
  by (rule decode_b64url_token [OF assms])

definition demo_json :: "string \<Rightarrow> jsval option" where
  "demo_json s = Some (Obj 1 [(''role'', Str s)])"

theorem token_roundtrip_witness:
  "decodeAccessToken demo_json (''h'' @ ''.'' @ b64url ''admin'' @ ''.'' @ ''s'') = demo_json ''admin''"
  by (rule token_roundtrip) simp_all

section \<open>The bootstrap\<close>

definition active_session :: "session_state \<Rightarrow> bool" where
  "active_session st \<longleftrightarrow> s_token st \<noteq> None \<and> s_token st \<noteq> Some [] \<and> s_role st \<noteq> Visitor"

text \<open>
  How the bootstrap settles: cancelled, it changes nothing; otherwise the session is resolved
  afterwards, a good refresh puts its session in place, an abort keeps what there is, and any other
  failure logs out only a user who was not logged in: a session established meanwhile survives.
\<close>

theorem bootstrap_settles:
  "bootstrap_settle True result st = st
    \<and> bootstrap_settle False (Inr (token, role, ent)) st = setSession token role ent st
    \<and> bootstrap_settle False (Inl AbortError) st = setResolved True st
    \<and> (\<forall>e. e \<noteq> AbortError \<longrightarrow>
         bootstrap_settle False (Inl e) st = (if active_session st then setResolved True st else clearSession st))"
  by (auto simp: bootstrap_settle_def setSession_def setResolved_def clearSession_def active_session_def
      isAbortError_def writeCheckoutSessionId_def Let_def split: sum.splits)

theorem bootstrap_settles_witness:
  "bootstrap_settle False (Inl (ApiError ''expired'' 401)) (setSession ''t'' Member Active (initial_session None))
    = setResolved True (setSession ''t'' Member Active (initial_session None))"
  using bootstrap_settles [of "Inl AbortError" "setSession ''t'' Member Active (initial_session None)"]
  by (simp add: active_session_def setSession_def)

definition session_ok :: "session_state \<Rightarrow> bool" where
  "session_ok st \<longleftrightarrow> (s_token st = None \<longleftrightarrow> s_role st = Visitor) \<and> s_token st \<noteq> Some []"

text \<open>
  Everything the program does to the session. The subscription pages write an entitlement with the
  token and the role their callback captured when it was made (\<open>st_billing\<close>): the session may have
  changed since, so the captured one is any session there can have been.
\<close>

inductive session_step :: "(string \<Rightarrow> jsval option) \<Rightarrow> session_state \<Rightarrow> session_state \<Rightarrow> bool" for json where
  st_boot: "session_step json st (bootstrap_start st)"
| st_settle: "session_step json st
    (bootstrap_settle cancelled (resolveSessionBootstrap json refreshed billing) st)"
| st_login: "applyAuthenticatedSession json tok billing st = Some st' \<Longrightarrow> session_step json st st'"
| st_checkout: "session_step json st (setCheckoutSessionId sid st)"
| st_billing: "session_ok captured \<Longrightarrow> s_token captured = Some tok \<Longrightarrow>
    session_step json st (setSession tok (s_role captured) ent st)"
| st_logout: "session_step json st (clearSession st)"

lemma token_session_ok:
  "token_session json tok = Some (tok', role) \<Longrightarrow> tok' = tok \<and> tok \<noteq> [] \<and> role \<noteq> Visitor"
  by (auto simp: token_session_def decodeAccessToken_def mapTokenRole_def bind_eq_Some_conv split: if_splits)

lemma bootstrap_result_ok:
  "resolveSessionBootstrap json refreshed billing = Inr (tok, role, ent) \<Longrightarrow> tok \<noteq> [] \<and> role \<noteq> Visitor"
  by (auto simp: resolveSessionBootstrap_def split: sum.splits jsval.splits option.splits if_splits
      dest: token_session_ok)

lemma session_ok_set [simp]: "session_ok (setSession tok role ent st) \<longleftrightarrow> tok \<noteq> [] \<and> role \<noteq> Visitor"
  by (auto simp: session_ok_def setSession_def)

lemma session_ok_others [simp]:
  "session_ok (setResolved b st) = session_ok st" "session_ok (clearSession st)"
  "session_ok (setCheckoutSessionId sid st) = session_ok st"
  by (auto simp: session_ok_def setResolved_def clearSession_def setCheckoutSessionId_def writeCheckoutSessionId_def
      split: option.splits)

lemma session_ok_step:
  assumes "session_step json st st'" and ok: "session_ok st"
  shows "session_ok st'"
  using assms(1)
proof cases
  case st_boot
  then show ?thesis using ok by (simp add: bootstrap_start_def)
next
  case (st_settle cancelled refreshed billing)
  then show ?thesis
    using ok bootstrap_result_ok [of json refreshed billing]
    by (cases "resolveSessionBootstrap json refreshed billing")
      (auto simp: bootstrap_settle_def Let_def)
next
  case (st_login tok billing)
  then show ?thesis by (auto simp: applyAuthenticatedSession_def dest: token_session_ok)
next
  case (st_billing captured tok ent)
  then have "s_role captured \<noteq> Visitor" "tok \<noteq> []" by (auto simp: session_ok_def)
  then show ?thesis using st_billing(1) by simp
qed (use ok in simp_all)

definition fresh_session :: "session_state \<Rightarrow> bool" where
  "fresh_session st \<longleftrightarrow> (\<exists>stored. st = initial_session stored)"

interpretation session: invariant_of fresh_session "session_step json" session_ok for json
proof unfold_locales
  show "fresh_session st \<Longrightarrow> session_ok st" for st
    by (auto simp: fresh_session_def initial_session_def session_ok_def)
  show "session_ok st \<Longrightarrow> session_step json st st' \<Longrightarrow> session_ok st'" for st st'
    by (rule session_ok_step)
qed

section \<open>Who sees which page\<close>

definition may_enter :: "guard_props \<Rightarrow> session_state \<Rightarrow> bool" where
  "may_enter g st \<longleftrightarrow>
     s_resolved st \<and> requiredRole g \<le> s_role st
     \<and> (requireActiveEntitlement g \<longrightarrow>
          s_entitlement st = Active \<or> allowAdminBypassEntitlement g \<and> s_role st = Admin)"

lemma guard_shows: "fst (GuardedRoute g pathname st refs) = Children \<longleftrightarrow> may_enter g st"
  by (auto simp: GuardedRoute_def may_enter_def less_eq_user_role_def)

lemma guard_monotone:
  "may_enter g st \<Longrightarrow> s_role st \<le> role \<Longrightarrow> may_enter g (st\<lparr>s_role := role\<rparr>)"
  by (cases "s_role st"; cases role) (auto simp: may_enter_def less_eq_user_role_def)

text \<open>An administrator's session, as a login makes it.\<close>

definition demo_admin :: session_state where
  "demo_admin = setSession (''h'' @ ''.'' @ b64url ''admin'' @ ''.'' @ ''s'') Admin NoEntitlement (initial_session None)"

lemma demo_admin_reachable: "reachable fresh_session (session_step demo_json) demo_admin"
proof -
  let ?tok = "''h'' @ ''.'' @ b64url ''admin'' @ ''.'' @ ''s''"
  have "decodeAccessToken demo_json ?tok = Some (Obj 1 [(''role'', Str ''admin'')])"
    by (subst decode_b64url_token) (simp_all add: demo_json_def)
  then have "applyAuthenticatedSession demo_json ?tok (Inl AbortError) (initial_session None) = Some demo_admin"
    by (simp add: applyAuthenticatedSession_def token_session_def mapTokenRole_def mapEntitlement_def demo_admin_def)
  moreover have "reachable fresh_session (session_step demo_json) (initial_session None)"
    by (rule reachable_init) (auto simp: fresh_session_def)
  ultimately show ?thesis by (blast intro: reachable_step st_login)
qed

lemma demo_admin_fields [simp]:
  "s_token demo_admin \<noteq> None" "s_role demo_admin = Admin" "s_resolved demo_admin" "s_entitlement demo_admin = NoEntitlement"
  by (simp_all add: demo_admin_def setSession_def initial_session_def)

text \<open>
  C2. Access control of the whole application: in every session the program can reach and at every
  address, the administration pages are shown to administrators only, the paid pages to logged-in
  users with an active entitlement (or administrators), the analytics pages to logged-in users, all
  only once the session is resolved, and being logged in means holding a token.
\<close>

theorem page_access:
  assumes "reachable fresh_session (session_step json) st" and "shown_page pathname st refs = Some pg"
  shows "(pg \<in> {HistoricalDataLoaderPage, AdminAuditPage} \<longrightarrow>
            s_resolved st \<and> s_role st = Admin \<and> s_token st \<noteq> None)
    \<and> (pg \<in> {HistoricalDataAnalysisPage, MarketThermometerPage, HistoricalAmplitudeDistributionPage, TreemapDemoPage} \<longrightarrow>
            s_resolved st \<and> s_token st \<noteq> None \<and> (s_entitlement st = Active \<or> s_role st = Admin))
    \<and> (pg \<in> {EventAnalyticsPage, DistributionAnalyticsPage} \<longrightarrow> s_resolved st \<and> s_token st \<noteq> None)"
proof -
  have ok: "session_ok st" by (rule session.reachable_inv [OF assms(1)])
  define r where "r = match_route pathname"
  have r: "r \<in> set router \<or> r = open_route ''*'' NotFoundPage"
    by (auto simp: r_def match_route_def find_Some_iff split: option.splits)
  have pg: "pg = r_page r" and g: "r_guard r = Some g \<longrightarrow> may_enter g st" for g
    using assms(2) by (auto simp: shown_page_def r_def [symmetric] guard_shows Let_def split: option.splits if_splits)
  have table: "\<forall>r \<in> set router.
      (r_page r \<in> {HistoricalDataLoaderPage, AdminAuditPage} \<longrightarrow> r_guard r = Some (guarded Admin False))
    \<and> (r_page r \<in> {HistoricalDataAnalysisPage, MarketThermometerPage, HistoricalAmplitudeDistributionPage, TreemapDemoPage}
         \<longrightarrow> r_guard r = Some (guarded Member True))
    \<and> (r_page r \<in> {EventAnalyticsPage, DistributionAnalyticsPage} \<longrightarrow> r_guard r = Some (guarded Member False))"
    by (simp add: router_def open_route_def shell_route_def)
  have role: "Member \<le> s_role st \<Longrightarrow> s_token st \<noteq> None" "Admin \<le> s_role st \<Longrightarrow> s_role st = Admin"
    using ok by (cases "s_role st"; auto simp: session_ok_def less_eq_user_role_def)+
  have adm: "Admin \<le> s_role st \<Longrightarrow> Member \<le> s_role st" by (auto simp: less_eq_user_role_def)
  show ?thesis
    using r
  proof
    assume "r \<in> set router"
    with table have t: "(pg \<in> {HistoricalDataLoaderPage, AdminAuditPage} \<longrightarrow> may_enter (guarded Admin False) st)
      \<and> (pg \<in> {HistoricalDataAnalysisPage, MarketThermometerPage, HistoricalAmplitudeDistributionPage, TreemapDemoPage}
           \<longrightarrow> may_enter (guarded Member True) st)
      \<and> (pg \<in> {EventAnalyticsPage, DistributionAnalyticsPage} \<longrightarrow> may_enter (guarded Member False) st)"
      unfolding pg using g by blast
    then show ?thesis using role adm by (simp add: may_enter_def guarded_def)
  next
    assume "r = open_route ''*'' NotFoundPage"
    then show ?thesis by (simp add: pg open_route_def)
  qed
qed

theorem page_access_witness:
  "\<exists>st. reachable fresh_session (session_step demo_json) st
    \<and> shown_page ''/Admin/audit/'' st \<lparr>loginToastPath = None, subscriptionToastPath = None\<rparr> = Some AdminAuditPage
    \<and> s_role st = Admin"
proof -
  let ?refs = "\<lparr>loginToastPath = None, subscriptionToastPath = None\<rparr>"
  have "match_route ''/Admin/audit/'' = shell_route ''/admin/audit'' Admin False AdminAuditPage"
    by code_simp
  then have p: "shown_page ''/Admin/audit/'' demo_admin ?refs = Some AdminAuditPage"
    by (simp add: shown_page_def shell_route_def guarded_def GuardedRoute_def Let_def)
  show ?thesis using demo_admin_reachable p page_access [OF demo_admin_reachable p] by blast
qed

end
