(* ===== verification/Signup.thy ===== *)
theory Signup
  imports Session
begin

text \<open>
  Accounts: the requests of \<open>features/auth/api/auth.ts\<close>, the form rules of
  \<open>features/auth/validation/auth-schema.ts\<close>, the messages of \<open>formatAuthError\<close> in
  \<open>features/auth/lib/auth-page-shared.ts\<close>, the pages \<open>LoginPage.tsx\<close>, \<open>SignupPage.tsx\<close> and
  \<open>SignupEmailVerificationPage.tsx\<close> of \<open>features/auth/pages\<close> with the buttons of
  \<open>components/signup-form.tsx\<close>, and the billing portal and the logout of
  \<open>components/nav-user-authenticated.tsx\<close>.

  A mutation (React Query) is its status: what it was asked while pending, the message of its error
  when it failed. Its success callback runs before it leaves the pending status, and an error the
  callback throws is the mutation's error. A text is named by its translation key. The e-mail
  pattern of the schema library is the parameter \<open>email_ok\<close>.
\<close>

section \<open>Requests\<close>

definition login :: "api_env \<Rightarrow> (http_request \<Rightarrow> fetched) \<Rightarrow> jsval \<Rightarrow> http_request option \<times> (js_error + jsval)" where
  "login env fetch payload = postJson env fetch ''/auth/login'' payload []"

definition sendEmailOtp :: "api_env \<Rightarrow> (http_request \<Rightarrow> fetched) \<Rightarrow> jsval \<Rightarrow> http_request option \<times> (js_error + jsval)" where
  "sendEmailOtp env fetch payload = postJson env fetch ''/auth/email/send-otp'' payload []"

definition verifyEmailOtp :: "api_env \<Rightarrow> (http_request \<Rightarrow> fetched) \<Rightarrow> jsval \<Rightarrow> http_request option \<times> (js_error + jsval)" where
  "verifyEmailOtp env fetch payload = postJson env fetch ''/auth/email/verify-otp'' payload []"

definition register :: "api_env \<Rightarrow> (http_request \<Rightarrow> fetched) \<Rightarrow> jsval \<Rightarrow> http_request option \<times> (js_error + jsval)" where
  "register env fetch payload = postJson env fetch ''/auth/register'' payload []"

definition refresh :: "api_env \<Rightarrow> (http_request \<Rightarrow> fetched) \<Rightarrow> http_request option \<times> (js_error + jsval)" where
  "refresh env fetch = postJson env fetch ''/auth/refresh'' (Obj 0 []) []"

definition logout :: "api_env \<Rightarrow> (http_request \<Rightarrow> fetched) \<Rightarrow> http_request option \<times> (js_error + jsval)" where
  "logout env fetch = postJson env fetch ''/auth/logout'' (Obj 0 []) []"

section \<open>Forms\<close>

record login_form =
  lf_user_id :: string
  lf_password :: string

record register_form =
  rf_user_id :: string
  rf_email :: string
  rf_password :: string
  rf_confirmPassword :: string

definition has_char_between :: "nat \<Rightarrow> nat \<Rightarrow> string \<Rightarrow> bool" where
  "has_char_between a b s \<longleftrightarrow> (\<exists>c \<in> set s. a \<le> of_char c \<and> of_char c \<le> b)"

definition issue :: "bool \<Rightarrow> string \<Rightarrow> string \<Rightarrow> (string \<times> string) list" where
  "issue ok field message = (if ok then [] else [(field, message)])"

text \<open>The issues of a form in the order of the schema: the field and the message.\<close>

definition createLoginSchema :: "login_form \<Rightarrow> (string \<times> string) list" where
  "createLoginSchema f =
     issue (3 \<le> length (lf_user_id f)) ''user_id'' ''user_id_required''
     @ issue (8 \<le> length (lf_password f)) ''password'' ''password_required''"

definition createRegisterSchema :: "(string \<Rightarrow> bool) \<Rightarrow> register_form \<Rightarrow> (string \<times> string) list" where
  "createRegisterSchema email_ok f =
     issue (3 \<le> length (rf_user_id f)) ''user_id'' ''user_id_required''
     @ issue (email_ok (rf_email f)) ''email'' ''email_invalid''
     @ issue (8 \<le> length (rf_password f)) ''password'' ''password_min_chars''
     @ issue (has_char_between 65 90 (rf_password f)) ''password'' ''password_uppercase''
     @ issue (has_char_between 97 122 (rf_password f)) ''password'' ''password_lowercase''
     @ issue (has_char_between 48 57 (rf_password f)) ''password'' ''password_number''
     @ issue (1 \<le> length (rf_confirmPassword f)) ''confirmPassword'' ''confirm_password_required''
     @ issue (rf_password f = rf_confirmPassword f) ''confirmPassword'' ''passwords_mismatch''"

section \<open>Mutations and messages\<close>

datatype mutation = Mut_idle | Mut_pending jsval | Mut_failed string | Mut_success

definition isPending :: "mutation \<Rightarrow> bool" where
  "isPending m \<longleftrightarrow> (case m of Mut_pending _ \<Rightarrow> True | _ \<Rightarrow> False)"

definition error_message :: "mutation \<Rightarrow> string option" where
  "error_message m = (case m of Mut_failed e \<Rightarrow> Some e | _ \<Rightarrow> None)"

fun message_of :: "js_error \<Rightarrow> string" where
  "message_of (ApiError code _) = code"
| "message_of AbortError = ''AbortError''"
| "message_of (OtherError m) = m"

definition formatAuthError :: "string option \<Rightarrow> string option" where
  "formatAuthError message =
     (case message of
        None \<Rightarrow> None
      | Some m \<Rightarrow>
          if m \<in> {''invalid_credentials'', ''user_exists'', ''verification_required'', ''invalid_email'', ''invalid_user_id'',
                  ''invalid_password'', ''invalid_otp'', ''expired''} then Some m
          else if m = ''cooldown'' \<or> m = ''rate_limited'' then Some ''cooldown''
          else if m = ''locked'' then Some ''locked''
          else if m = ''auth_request_failed'' \<or> m = ''api_request_failed'' then Some ''auth_request_failed''
          else if m = ''invalid_access_token'' \<or> m = ''unsupported_role'' then Some ''invalid_access_token''
          else if m \<noteq> [] then Some ''generic'' else None)"

text \<open>Why a token is refused.\<close>

definition token_error :: "(string \<Rightarrow> jsval option) \<Rightarrow> string \<Rightarrow> string" where
  "token_error json token =
     (case decodeAccessToken json token of
        None \<Rightarrow> ''invalid_access_token''
      | Some payload \<Rightarrow> if nullish payload then ''TypeError'' else ''unsupported_role'')"

text \<open>
  The answer of a login or a registration, with the answer of the billing request made with its
  token: the session, the mutation, and where the page navigates.
\<close>

definition authenticated ::
  "(string \<Rightarrow> jsval option) \<Rightarrow> jsval \<Rightarrow> js_error + jsval \<Rightarrow> js_error + jsval \<Rightarrow> session_state
     \<Rightarrow> session_state \<times> mutation \<times> string option" where
  "authenticated json location_state result billing st =
     (case result of
        Inl e \<Rightarrow> (st, Mut_failed (message_of e), None)
      | Inr body \<Rightarrow>
          (case js_get body ''access_token'' of
             Str token \<Rightarrow>
               (case applyAuthenticatedSession json token billing st of
                  Some st' \<Rightarrow> (st', Mut_success, Some (getRedirectTarget location_state))
                | None \<Rightarrow> (st, Mut_failed (token_error json token), None))
           | _ \<Rightarrow> (st, Mut_failed ''TypeError'', None)))"

datatype auth_view = Auth_skeleton | Auth_to string | Auth_form

section \<open>The login page\<close>

record login_page =
  lp_form :: login_form
  lp_errors :: "(string \<times> string) list"
  lp_mutation :: mutation
  lp_sent :: "jsval list"

definition initial_login :: login_page where
  "initial_login = \<lparr>lp_form = \<lparr>lf_user_id = [], lf_password = []\<rparr>, lp_errors = [], lp_mutation = Mut_idle, lp_sent = []\<rparr>"

definition login_view :: "session_state \<Rightarrow> auth_view" where
  "login_view st =
     (if \<not> s_resolved st then Auth_skeleton
      else if s_role st \<noteq> Visitor then Auth_to ''/dashboard''
      else Auth_form)"

definition login_payload :: "login_form \<Rightarrow> jsval" where
  "login_payload f = Obj 0 [(''user_id'', Str (lf_user_id f)), (''password'', Str (lf_password f))]"

definition login_submit :: "login_page \<Rightarrow> login_page" where
  "login_submit p =
     (if createLoginSchema (lp_form p) \<noteq> [] then p\<lparr>lp_errors := createLoginSchema (lp_form p)\<rparr>
      else p\<lparr>lp_errors := [], lp_mutation := Mut_pending (login_payload (lp_form p)),
             lp_sent := lp_sent p @ [login_payload (lp_form p)]\<rparr>)"

section \<open>The sign-up page\<close>

definition otp_payload :: "jsval \<Rightarrow> jsval" where
  "otp_payload email = Obj 0 [(''email'', email)]"

text \<open>Submitting the account form: the issues shown, or the request for a code.\<close>

definition signup_submit :: "(string \<Rightarrow> bool) \<Rightarrow> register_form \<Rightarrow> (string \<times> string) list + jsval" where
  "signup_submit email_ok f =
     (if createRegisterSchema email_ok f \<noteq> [] then Inl (createRegisterSchema email_ok f)
      else Inr (otp_payload (Str (rf_email f))))"

text \<open>The state handed to the verification page when the request \<open>variables\<close> has succeeded.\<close>

definition signup_success :: "register_form \<Rightarrow> jsval \<Rightarrow> jsval" where
  "signup_success f variables =
     Obj 0 [(''registration'',
        Obj 0 [(''user_id'', Str (rf_user_id f)), (''email'', js_get variables ''email''), (''password'', Str (rf_password f)),
               (''confirmPassword'', Str (rf_confirmPassword f))])]"

text \<open>What a submission that is answered leads to: the state of the next page.\<close>

definition signup_result :: "(string \<Rightarrow> bool) \<Rightarrow> register_form \<Rightarrow> js_error + jsval \<Rightarrow> jsval option" where
  "signup_result email_ok f answer =
     (case (signup_submit email_ok f, answer) of
        (Inr variables, Inr _) \<Rightarrow> Some (signup_success f variables)
      | _ \<Rightarrow> None)"

section \<open>The verification page\<close>

definition OTP_RESEND_COOLDOWN_SECONDS :: nat where "OTP_RESEND_COOLDOWN_SECONDS = 60"

text \<open>The registration in the state of the location, when it is usable.\<close>

definition getPageState :: "jsval \<Rightarrow> jsval option" where
  "getPageState state =
     (let reg = js_get state ''registration''
      in if \<not> is_object state then None
         else if \<not> truthy (js_get reg ''email'') \<or> \<not> truthy (js_get reg ''user_id'') \<or> \<not> truthy (js_get reg ''password'')
         then None else Some reg)"

text \<open>
  The traffic of the page: a request with its body, an answer. The state of one mounted page has the
  registration it works on, its input, its countdown, the error of its own, its three mutations,
  the session, and, for the record, the traffic and the seconds counted down.
\<close>

datatype exchange = Sent string jsval | Answered string "js_error + jsval"

record verify_page =
  vp_location :: jsval
  vp_otpCode :: string
  vp_cooldown :: nat
  vp_localError :: "string option"
  vp_resend :: mutation
  vp_verify :: mutation
  vp_register :: mutation
  vp_mounted :: bool
  vp_session :: session_state
  vp_target :: "string option"
  vp_log :: "exchange list"
  vp_seconds :: nat

definition initial_verify :: "jsval \<Rightarrow> session_state \<Rightarrow> verify_page" where
  "initial_verify location st =
     \<lparr>vp_location = location, vp_otpCode = [], vp_cooldown = OTP_RESEND_COOLDOWN_SECONDS, vp_localError = None,
      vp_resend = Mut_idle, vp_verify = Mut_idle, vp_register = Mut_idle, vp_mounted = True, vp_session = st,
      vp_target = None, vp_log = [], vp_seconds = 0\<rparr>"

definition verify_view :: "verify_page \<Rightarrow> auth_view" where
  "verify_view p =
     (if \<not> s_resolved (vp_session p) then Auth_skeleton
      else if s_role (vp_session p) \<noteq> Visitor then Auth_to ''/dashboard''
      else if getPageState (vp_location p) = None then Auth_to ''/signup''
      else Auth_form)"

definition registration :: "verify_page \<Rightarrow> jsval" where
  "registration p = (case getPageState (vp_location p) of Some reg \<Rightarrow> reg | None \<Rightarrow> Undef)"

definition isBusy :: "verify_page \<Rightarrow> bool" where
  "isBusy p \<longleftrightarrow> isPending (vp_resend p) \<or> isPending (vp_verify p) \<or> isPending (vp_register p)"

definition first_error :: "string option \<Rightarrow> string option \<Rightarrow> string option" where
  "first_error a b = (case a of Some x \<Rightarrow> Some x | None \<Rightarrow> b)"

definition errorMessage :: "verify_page \<Rightarrow> string option" where
  "errorMessage p =
     first_error (vp_localError p)
       (first_error (formatAuthError (error_message (vp_register p)))
         (first_error (formatAuthError (error_message (vp_verify p)))
           (formatAuthError (error_message (vp_resend p)))))"

definition onResendCode :: "verify_page \<Rightarrow> verify_page" where
  "onResendCode p =
     (let payload = otp_payload (js_get (registration p) ''email'')
      in p\<lparr>vp_localError := None, vp_resend := Mut_pending payload,
           vp_log := vp_log p @ [Sent ''/auth/email/send-otp'' payload]\<rparr>)"

definition code_payload :: "jsval \<Rightarrow> string \<Rightarrow> jsval" where
  "code_payload email code = Obj 0 [(''email'', email), (''otp_code'', Str code)]"

definition onVerifyAndCreate :: "verify_page \<Rightarrow> verify_page" where
  "onVerifyAndCreate p =
     (let p1 = p\<lparr>vp_localError := None, vp_verify := Mut_idle, vp_register := Mut_idle\<rparr>;
          payload = code_payload (js_get (registration p) ''email'') (trim (vp_otpCode p))
      in if length (trim (vp_otpCode p)) \<noteq> 6 then p1\<lparr>vp_localError := Some ''required''\<rparr>
         else p1\<lparr>vp_verify := Mut_pending payload,
                 vp_log := vp_log p @ [Sent ''/auth/email/verify-otp'' payload]\<rparr>)"

definition resend_settles :: "js_error + jsval \<Rightarrow> verify_page \<Rightarrow> verify_page" where
  "resend_settles answer p =
     (let p1 = p\<lparr>vp_log := vp_log p @ [Answered ''/auth/email/send-otp'' answer]\<rparr>
      in case answer of
           Inl e \<Rightarrow> p1\<lparr>vp_resend := Mut_failed (message_of e)\<rparr>
         | Inr _ \<Rightarrow> p1\<lparr>vp_resend := Mut_success, vp_cooldown := OTP_RESEND_COOLDOWN_SECONDS, vp_localError := None\<rparr>)"

definition register_payload :: "jsval \<Rightarrow> jsval \<Rightarrow> jsval" where
  "register_payload reg data =
     Obj 0 [(''user_id'', js_get reg ''user_id''), (''email'', js_get reg ''email''), (''password'', js_get reg ''password''),
            (''verification_token'', js_get data ''verification_token'')]"

definition verify_settles :: "js_error + jsval \<Rightarrow> verify_page \<Rightarrow> verify_page" where
  "verify_settles answer p =
     (let p1 = p\<lparr>vp_log := vp_log p @ [Answered ''/auth/email/verify-otp'' answer]\<rparr>
      in case answer of
           Inl e \<Rightarrow> p1\<lparr>vp_verify := Mut_failed (message_of e)\<rparr>
         | Inr data \<Rightarrow>
             (case getPageState (vp_location p) of
                None \<Rightarrow> p1\<lparr>vp_verify := Mut_success, vp_target := Some ''/signup''\<rparr>
              | Some reg \<Rightarrow>
                  if nullish data then p1\<lparr>vp_localError := None, vp_verify := Mut_failed ''TypeError''\<rparr>
                  else p1\<lparr>vp_localError := None, vp_verify := Mut_success,
                          vp_register := Mut_pending (register_payload reg data),
                          vp_log := vp_log p1 @ [Sent ''/auth/register'' (register_payload reg data)]\<rparr>))"

definition register_settles ::
  "(string \<Rightarrow> jsval option) \<Rightarrow> js_error + jsval \<Rightarrow> js_error + jsval \<Rightarrow> verify_page \<Rightarrow> verify_page" where
  "register_settles json answer billing p =
     (let (st, m, dest) = authenticated json (vp_location p) answer billing (vp_session p)
      in p\<lparr>vp_session := st, vp_register := m, vp_target := (case dest of None \<Rightarrow> vp_target p | Some d \<Rightarrow> Some d),
           vp_log := vp_log p @ [Answered ''/auth/register'' answer]\<rparr>)"

definition second_passes :: "verify_page \<Rightarrow> verify_page" where
  "second_passes p = p\<lparr>vp_cooldown := vp_cooldown p - 1, vp_seconds := vp_seconds p + 1\<rparr>"

text \<open>
  What happens to the page. The user acts on what is shown and enabled; answers arrive, also after
  the page has been left; the session may be replaced from outside.
\<close>

definition usable :: "verify_page \<Rightarrow> bool" where
  "usable p \<longleftrightarrow> vp_mounted p \<and> verify_view p = Auth_form \<and> \<not> isBusy p"

inductive verify_step :: "(string \<Rightarrow> jsval option) \<Rightarrow> verify_page \<Rightarrow> verify_page \<Rightarrow> bool" for json where
  vs_type: "usable p \<Longrightarrow> verify_step json p (p\<lparr>vp_otpCode := code\<rparr>)"
| vs_resend: "usable p \<Longrightarrow> vp_cooldown p = 0 \<Longrightarrow> verify_step json p (onResendCode p)"
| vs_verify: "usable p \<Longrightarrow> length (trim (vp_otpCode p)) = 6 \<Longrightarrow> verify_step json p (onVerifyAndCreate p)"
| vs_resent: "isPending (vp_resend p) \<Longrightarrow> verify_step json p (resend_settles answer p)"
| vs_verified: "isPending (vp_verify p) \<Longrightarrow> verify_step json p (verify_settles answer p)"
| vs_registered: "isPending (vp_register p) \<Longrightarrow> verify_step json p (register_settles json answer billing p)"
| vs_second: "vp_mounted p \<Longrightarrow> 0 < vp_cooldown p \<Longrightarrow> verify_step json p (second_passes p)"
| vs_leave: "verify_step json p (p\<lparr>vp_mounted := False\<rparr>)"
| vs_session: "verify_step json p (p\<lparr>vp_session := st\<rparr>)"

text \<open>The page as the sign-up page opens it, for a form that passed its rules.\<close>

definition opened_by_signup :: "(string \<Rightarrow> bool) \<Rightarrow> register_form \<Rightarrow> verify_page \<Rightarrow> bool" where
  "opened_by_signup email_ok f p \<longleftrightarrow>
     (\<exists>answer location st. signup_result email_ok f answer = Some location \<and> p = initial_verify location st)"

text \<open>Rules of the form as a whole.\<close>

definition acceptable :: "(string \<Rightarrow> bool) \<Rightarrow> register_form \<Rightarrow> bool" where
  "acceptable email_ok f \<longleftrightarrow>
     3 \<le> length (rf_user_id f) \<and> email_ok (rf_email f) \<and> 8 \<le> length (rf_password f)
     \<and> set (rf_password f) \<inter> set ''ABCDEFGHIJKLMNOPQRSTUVWXYZ'' \<noteq> {}
     \<and> set (rf_password f) \<inter> set ''abcdefghijklmnopqrstuvwxyz'' \<noteq> {}
     \<and> set (rf_password f) \<inter> set ''0123456789'' \<noteq> {}
     \<and> rf_confirmPassword f = rf_password f"

section \<open>Only verified addresses get an account\<close>

lemma char_range: "(a \<le> (of_char c :: nat) \<and> of_char c \<le> b) \<longleftrightarrow> c \<in> char_of ` {a..b}" if "b < 256"
proof
  assume "a \<le> (of_char c :: nat) \<and> of_char c \<le> b"
  then show "c \<in> char_of ` {a..b}" by (intro image_eqI [of _ _ "of_char c"]) simp_all
qed (use that in auto)

lemma upper_codes: "map char_of [65..<91::nat] = ''ABCDEFGHIJKLMNOPQRSTUVWXYZ''" by code_simp
lemma lower_codes: "map char_of [97..<123::nat] = ''abcdefghijklmnopqrstuvwxyz''" by code_simp
lemma digit_codes: "map char_of [48..<58::nat] = ''0123456789''" by code_simp

lemma char_classes:
  "char_of ` {65..90::nat} = set ''ABCDEFGHIJKLMNOPQRSTUVWXYZ''"
  "char_of ` {97..122::nat} = set ''abcdefghijklmnopqrstuvwxyz''"
  "char_of ` {48..57::nat} = set ''0123456789''"
  unfolding upper_codes [symmetric] lower_codes [symmetric] digit_codes [symmetric] set_map set_upt
  by (intro arg_cong [where f = "image char_of"]; auto)+

lemma acceptable_iff: "createRegisterSchema email_ok f = [] \<longleftrightarrow> acceptable email_ok f"
proof -
  have "has_char_between a b s \<longleftrightarrow> set s \<inter> char_of ` {a..b} \<noteq> {}" if "b < 256" for a b s
    using char_range [OF that] by (auto simp: has_char_between_def)
  from this [of 90 65] this [of 122 97] this [of 57 48] have
    "has_char_between 65 90 s \<longleftrightarrow> set s \<inter> set ''ABCDEFGHIJKLMNOPQRSTUVWXYZ'' \<noteq> {}"
    "has_char_between 97 122 s \<longleftrightarrow> set s \<inter> set ''abcdefghijklmnopqrstuvwxyz'' \<noteq> {}"
    "has_char_between 48 57 s \<longleftrightarrow> set s \<inter> set ''0123456789'' \<noteq> {}" for s
    unfolding char_classes by simp_all
  moreover have "issue ok field message = [] \<longleftrightarrow> ok" for ok field message by (simp add: issue_def)
  moreover have "A \<and> B \<and> 8 \<le> length p \<and> U \<and> L \<and> D \<and> 1 \<le> length c \<and> p = c
      \<longleftrightarrow> A \<and> B \<and> 8 \<le> length p \<and> U \<and> L \<and> D \<and> c = p" for A B U L D and p c :: string
    by auto
  ultimately show ?thesis
    unfolding createRegisterSchema_def acceptable_def append_is_Nil_conv by simp
qed

definition registration_of :: "register_form \<Rightarrow> jsval" where
  "registration_of f = Obj 0 [(''user_id'', Str (rf_user_id f)), (''email'', Str (rf_email f)),
     (''password'', Str (rf_password f)), (''confirmPassword'', Str (rf_confirmPassword f))]"

lemma signup_resultD:
  assumes "signup_result email_ok f answer = Some location"
  shows "acceptable email_ok f" and "location = Obj 0 [(''registration'', registration_of f)]"
  using assms acceptable_iff [of email_ok f]
  by (auto simp: signup_result_def signup_submit_def signup_success_def otp_payload_def registration_of_def
      split: sum.splits if_splits)

text \<open>Every entry of a list holds of what came before it.\<close>

definition in_context :: "('a list \<Rightarrow> 'a \<Rightarrow> bool) \<Rightarrow> 'a list \<Rightarrow> bool" where
  "in_context P l \<longleftrightarrow> (\<forall>xs y ys. l = xs @ y # ys \<longrightarrow> P xs y)"

lemma in_context_Nil [simp]: "in_context P []"
  by (simp add: in_context_def)

lemma in_context_snoc [simp]: "in_context P (l @ [x]) \<longleftrightarrow> in_context P l \<and> P l x"
proof
  assume "in_context P (l @ [x])"
  then have *: "l @ [x] = xs @ y # ys \<Longrightarrow> P xs y" for xs y ys by (auto simp: in_context_def)
  have "l = xs @ y # ys \<Longrightarrow> P xs y" for xs y ys using * [of xs y "ys @ [x]"] by simp
  then show "in_context P l \<and> P l x" using * [of l x "[]"] by (auto simp: in_context_def)
next
  assume *: "in_context P l \<and> P l x"
  have "P xs y" if "l @ [x] = xs @ y # ys" for xs y ys
    using that * by (cases ys rule: rev_cases) (auto simp: in_context_def)
  then show "in_context P (l @ [x])" by (auto simp: in_context_def)
qed

text \<open>A registration is sent right after an accepted code of six characters for the same address.\<close>

definition account_request_ok :: "register_form \<Rightarrow> exchange list \<Rightarrow> exchange \<Rightarrow> bool" where
  "account_request_ok f before x \<longleftrightarrow>
     (\<forall>body. x = Sent ''/auth/register'' body \<longrightarrow>
        (\<exists>earlier data code.
           before = earlier @ [Answered ''/auth/email/verify-otp'' (Inr data)] \<and> length code = 6
           \<and> Sent ''/auth/email/verify-otp'' (Obj 0 [(''email'', Str (rf_email f)), (''otp_code'', Str code)]) \<in> set earlier
           \<and> body = Obj 0 [(''user_id'', Str (rf_user_id f)), (''email'', Str (rf_email f)),
                           (''password'', Str (rf_password f)), (''verification_token'', js_get data ''verification_token'')]))"

definition resent :: "exchange list \<Rightarrow> nat" where
  "resent l = length (filter (\<lambda>x. \<exists>data. x = Answered ''/auth/email/send-otp'' (Inr data)) l)"

lemma resent_snoc [simp]:
  "resent [] = 0"
  "resent (l @ [x]) = resent l + (if \<exists>data. x = Answered ''/auth/email/send-otp'' (Inr data) then 1 else 0)"
  by (simp_all add: resent_def)

definition verify_ok :: "register_form \<Rightarrow> verify_page \<Rightarrow> bool" where
  "verify_ok f p \<longleftrightarrow>
     vp_location p = Obj 0 [(''registration'', registration_of f)]
     \<and> (isPending (vp_resend p) \<longrightarrow> \<not> isPending (vp_verify p) \<and> \<not> isPending (vp_register p) \<and> vp_cooldown p = 0)
     \<and> (isPending (vp_verify p) \<longrightarrow> \<not> isPending (vp_register p)
         \<and> (\<exists>code. length code = 6 \<and> Sent ''/auth/email/verify-otp'' (code_payload (Str (rf_email f)) code) \<in> set (vp_log p)))
     \<and> in_context (account_request_ok f) (vp_log p)
     \<and> 60 * (1 + resent (vp_log p)) = vp_cooldown p + vp_seconds p
     \<and> vp_cooldown p \<le> 60"

lemma page_state_of_signup:
  "getPageState (Obj 0 [(''registration'', registration_of f)]) = None
    \<or> getPageState (Obj 0 [(''registration'', registration_of f)]) = Some (registration_of f)"
  by (simp add: getPageState_def Let_def)

lemma usable_registration:
  assumes "usable p" and "verify_ok f p"
  shows "registration p = registration_of f" and "\<not> isPending (vp_resend p)" "\<not> isPending (vp_verify p)" "\<not> isPending (vp_register p)"
  using assms page_state_of_signup [of f]
  by (auto simp: usable_def verify_view_def registration_def verify_ok_def isBusy_def split: if_splits)

lemma isPending_simps [simp]:
  "\<not> isPending Mut_idle" "isPending (Mut_pending b)" "\<not> isPending (Mut_failed e)" "\<not> isPending Mut_success"
  by (simp_all add: isPending_def)

lemma authenticated_not_pending: "authenticated json loc r b st = (st', m, d) \<Longrightarrow> \<not> isPending m"
  by (auto simp: authenticated_def split: sum.splits jsval.splits option.splits)

lemma verify_ok_verified:
  assumes ok: "verify_ok f p" and pending: "isPending (vp_verify p)"
  shows "verify_ok f (verify_settles answer p)"
proof -
  obtain code where code: "length code = 6"
    "Sent ''/auth/email/verify-otp'' (code_payload (Str (rf_email f)) code) \<in> set (vp_log p)"
    using assms by (auto simp: verify_ok_def)
  have answered: "account_request_ok f (vp_log p) (Answered path a)" for path a
    by (simp add: account_request_ok_def)
  have sent: "account_request_ok f (vp_log p @ [Answered ''/auth/email/verify-otp'' (Inr d)])
      (Sent ''/auth/register'' (register_payload (registration_of f) d))" for d
    using code by (auto simp: account_request_ok_def register_payload_def registration_of_def code_payload_def)
  have log: "in_context (account_request_ok f) (vp_log p @ [Answered ''/auth/email/verify-otp'' (Inr d)]
      @ [Sent ''/auth/register'' (register_payload (registration_of f) d)])" for d
    using ok answered sent unfolding append_assoc [symmetric] in_context_snoc by (simp add: verify_ok_def)
  have count: "resent (vp_log p @ [Answered ''/auth/email/verify-otp'' (Inr d)]
      @ [Sent ''/auth/register'' b]) = resent (vp_log p)" for d b
    by (simp add: resent_def)
  have loc: "getPageState (vp_location p) = None \<or> getPageState (vp_location p) = Some (registration_of f)"
    using ok page_state_of_signup [of f] by (simp add: verify_ok_def)
  show ?thesis
  proof (cases answer)
    case (Inl e)
    then show ?thesis using ok pending answered by (simp add: verify_ok_def verify_settles_def Let_def)
  next
    case (Inr d)
    show ?thesis
    proof (cases "getPageState (vp_location p) = None \<or> nullish d")
      case True
      then show ?thesis using Inr ok pending answered loc
        by (auto simp: verify_ok_def verify_settles_def Let_def)
    next
      case False
      then show ?thesis using Inr ok pending answered loc log [of d] count [of d]
        by (auto simp: verify_ok_def verify_settles_def Let_def)
    qed
  qed
qed

lemma verify_ok_step:
  assumes "verify_ok f p" and "verify_step json p p'"
  shows "verify_ok f p'"
  using assms(2)
proof cases
  case (vs_type code)
  then show ?thesis using assms(1) by (simp add: verify_ok_def)
next
  case vs_resend
  then show ?thesis using assms(1) usable_registration [OF _ assms(1)]
    by (auto simp: onResendCode_def verify_ok_def Let_def account_request_ok_def)
next
  case vs_verify
  then show ?thesis using assms(1) usable_registration [OF _ assms(1)]
    by (auto simp: onVerifyAndCreate_def verify_ok_def Let_def account_request_ok_def registration_of_def)
next
  case (vs_resent answer)
  then show ?thesis using assms(1)
    by (auto simp: resend_settles_def verify_ok_def Let_def account_request_ok_def OTP_RESEND_COOLDOWN_SECONDS_def split: sum.split)
next
  case (vs_verified answer)
  then show ?thesis using verify_ok_verified [OF assms(1)] by simp
next
  case (vs_registered answer billing)
  then show ?thesis using assms(1)
    by (auto simp: register_settles_def verify_ok_def account_request_ok_def split: prod.split dest: authenticated_not_pending)
next
  case vs_second
  then show ?thesis using assms(1) by (auto simp: second_passes_def verify_ok_def)
next
  case vs_leave
  then show ?thesis using assms(1) by (simp add: verify_ok_def)
next
  case (vs_session st)
  then show ?thesis using assms(1) by (simp add: verify_ok_def)
qed

lemma verify_ok_init: "opened_by_signup email_ok f p \<Longrightarrow> verify_ok f p"
  by (auto simp: opened_by_signup_def verify_ok_def initial_verify_def OTP_RESEND_COOLDOWN_SECONDS_def dest: signup_resultD)

lemma opened_acceptable: "opened_by_signup email_ok f p \<Longrightarrow> acceptable email_ok f"
  by (auto simp: opened_by_signup_def dest: signup_resultD)

interpretation verify_machine: invariant_of "opened_by_signup email_ok f" "verify_step json"
  "\<lambda>p. acceptable email_ok f \<and> verify_ok f p"
  by unfold_locales (auto intro: verify_ok_init verify_ok_step opened_acceptable)

text \<open>
  C22. Accounts are created for verified addresses only: on the page opened for a submitted form,
  whatever the user does, whatever the server answers and even after the page has been left, the form
  satisfies the rules of the account form, at most one of the three requests is under way, and every
  request for a new account follows directly the acceptance of a six-character code that was sent
  for the form's address, and consists of the form's name, address and password with the token of
  that acceptance.
\<close>

theorem signup_account_verified:
  assumes "reachable (opened_by_signup email_ok f) (verify_step json) p"
  shows "acceptable email_ok f
    \<and> length (filter isPending [vp_resend p, vp_verify p, vp_register p]) \<le> 1
    \<and> (\<forall>before body after. vp_log p = before @ Sent ''/auth/register'' body # after \<longrightarrow>
        (\<exists>earlier data code.
           before = earlier @ [Answered ''/auth/email/verify-otp'' (Inr data)] \<and> length code = 6
           \<and> Sent ''/auth/email/verify-otp'' (Obj 0 [(''email'', Str (rf_email f)), (''otp_code'', Str code)]) \<in> set earlier
           \<and> body = Obj 0 [(''user_id'', Str (rf_user_id f)), (''email'', Str (rf_email f)),
                           (''password'', Str (rf_password f)), (''verification_token'', js_get data ''verification_token'')]))"
  using verify_machine.reachable_inv [OF assms]
  by (auto simp: verify_ok_def in_context_def account_request_ok_def)

text \<open>
  C23. Accepted codes are paced: over the life of the page, sixty seconds have been counted down for
  every further code that was sent, and sixty more before another is asked for; the countdown never
  exceeds a minute. Only a code that was sent restarts it: a request that failed may be repeated at
  once (\<open>failed_resend_repeats\<close>).
\<close>

theorem resend_paced:
  assumes "reachable (opened_by_signup email_ok f) (verify_step json) p"
  shows "60 * resent (vp_log p) \<le> vp_seconds p
    \<and> (isPending (vp_resend p) \<longrightarrow> 60 * (resent (vp_log p) + 1) \<le> vp_seconds p)
    \<and> vp_cooldown p \<le> OTP_RESEND_COOLDOWN_SECONDS"
  using verify_machine.reachable_inv [OF assms]
  by (auto simp: verify_ok_def OTP_RESEND_COOLDOWN_SECONDS_def)

text \<open>A run: the code is typed and accepted, and the account asked for.\<close>

definition demo_form :: register_form where
  "demo_form = \<lparr>rf_user_id = ''abc'', rf_email = ''a@b.c'', rf_password = ''Passw0rd'', rf_confirmPassword = ''Passw0rd''\<rparr>"

definition demo_page :: verify_page where
  "demo_page = initial_verify (Obj 0 [(''registration'', registration_of demo_form)]) (setResolved True (initial_session None))"

abbreviation demo_reachable :: "verify_page \<Rightarrow> bool" where
  "demo_reachable \<equiv> reachable (opened_by_signup (\<lambda>_. True) demo_form) (verify_step (\<lambda>_. None))"

lemma demo_usable: "\<not> isPending (vp_resend p) \<Longrightarrow> \<not> isPending (vp_verify p) \<Longrightarrow> \<not> isPending (vp_register p) \<Longrightarrow> vp_mounted p
  \<Longrightarrow> vp_location p = vp_location demo_page \<Longrightarrow> vp_session p = vp_session demo_page \<Longrightarrow> usable p"
  by (simp add: usable_def verify_view_def demo_page_def initial_verify_def setResolved_def initial_session_def isBusy_def
      getPageState_def registration_of_def demo_form_def)

lemma demo_start: "demo_reachable demo_page"
proof (rule reachable_init)
  have "acceptable (\<lambda>_. True) demo_form" by (simp add: acceptable_def demo_form_def)
  then have "signup_result (\<lambda>_. True) demo_form (Inr Null) = Some (Obj 0 [(''registration'', registration_of demo_form)])"
    by (simp add: signup_result_def signup_submit_def acceptable_iff signup_success_def otp_payload_def registration_of_def)
  then show "opened_by_signup (\<lambda>_. True) demo_form demo_page"
    by (auto simp: opened_by_signup_def demo_page_def)
qed

definition demo_answer :: "js_error + jsval" where
  "demo_answer = Inr (Obj 1 [(''verification_token'', Str ''t'')])"

lemma demo_run:
  "demo_reachable (verify_settles demo_answer (onVerifyAndCreate (demo_page\<lparr>vp_otpCode := ''123456''\<rparr>)))"
proof -
  let ?p = "demo_page\<lparr>vp_otpCode := ''123456''\<rparr>"
  have "demo_reachable ?p"
    by (rule reachable_step [OF demo_start], rule vs_type, rule demo_usable) (simp_all add: demo_page_def initial_verify_def)
  then have "demo_reachable (onVerifyAndCreate ?p)"
    by (rule reachable_step, intro vs_verify demo_usable)
       (simp_all add: demo_page_def initial_verify_def trim_id is_ws_def)
  then show ?thesis
    by (rule reachable_step, intro vs_verified) (simp add: onVerifyAndCreate_def trim_id is_ws_def Let_def)
qed

lemma demo_run_log:
  "vp_log (verify_settles demo_answer (onVerifyAndCreate (demo_page\<lparr>vp_otpCode := ''123456''\<rparr>)))
    = [Sent ''/auth/email/verify-otp'' (Obj 0 [(''email'', Str ''a@b.c''), (''otp_code'', Str ''123456'')]),
       Answered ''/auth/email/verify-otp'' demo_answer,
       Sent ''/auth/register'' (Obj 0 [(''user_id'', Str ''abc''), (''email'', Str ''a@b.c''), (''password'', Str ''Passw0rd''),
         (''verification_token'', Str ''t'')])]"
  by (simp add: verify_settles_def onVerifyAndCreate_def demo_page_def initial_verify_def trim_id is_ws_def code_payload_def
      registration_def getPageState_def registration_of_def demo_form_def demo_answer_def nullish_def register_payload_def Let_def)

theorem signup_account_verified_witness:
  "\<exists>p body. demo_reachable p \<and> Sent ''/auth/register'' body \<in> set (vp_log p)
    \<and> js_get body ''email'' = Str (rf_email demo_form) \<and> length (filter isPending [vp_resend p, vp_verify p, vp_register p]) \<le> 1"
proof -
  let ?p = "verify_settles demo_answer (onVerifyAndCreate (demo_page\<lparr>vp_otpCode := ''123456''\<rparr>))"
  let ?body = "Obj 0 [(''user_id'', Str ''abc''), (''email'', Str ''a@b.c''), (''password'', Str ''Passw0rd''),
         (''verification_token'', Str ''t'')]"
  note ok = signup_account_verified [OF demo_run]
  have "\<exists>before after. vp_log ?p = before @ Sent ''/auth/register'' ?body # after"
    unfolding demo_run_log by (intro exI [of _ "[_, _]"] exI [of _ "[]"]) simp
  with ok have "js_get ?body ''email'' = Str (rf_email demo_form)" by fastforce
  with ok show ?thesis by (intro exI [of _ ?p] exI [of _ ?body]) (auto simp: demo_run demo_run_log)
qed

text \<open>Two rounds: a code is asked for after a minute and sent, and asked for again after another.\<close>

lemma demo_wait:
  assumes "demo_reachable p" and "vp_mounted p" and "n \<le> vp_cooldown p"
  shows "demo_reachable (p\<lparr>vp_cooldown := vp_cooldown p - n, vp_seconds := vp_seconds p + n\<rparr>)"
  using assms(3)
proof (induction n)
  case (Suc n)
  let ?q = "p\<lparr>vp_cooldown := vp_cooldown p - n, vp_seconds := vp_seconds p + n\<rparr>"
  have "verify_step (\<lambda>_. None) ?q (second_passes ?q)"
    by (rule vs_second) (use Suc.prems assms(2) in simp_all)
  moreover have "demo_reachable ?q" using Suc by simp
  ultimately have "demo_reachable (second_passes ?q)" by (rule reachable_step [rotated])
  then show ?case by (simp add: second_passes_def)
qed (use assms(1) in simp)

theorem resend_paced_witness:
  "\<exists>p. demo_reachable p \<and> resent (vp_log p) = 1 \<and> isPending (vp_resend p) \<and> 120 \<le> vp_seconds p"
proof -
  let ?wait = "\<lambda>p. p\<lparr>vp_cooldown := vp_cooldown p - 60, vp_seconds := vp_seconds p + 60\<rparr>"
  let ?sent = "resend_settles (Inr Null) (onResendCode (?wait demo_page))"
  note defs = onResendCode_def resend_settles_def demo_page_def initial_verify_def OTP_RESEND_COOLDOWN_SECONDS_def isPending_def Let_def
  have "demo_reachable (?wait demo_page)"
    by (rule demo_wait [OF demo_start]) (simp_all add: defs)
  then have "demo_reachable (onResendCode (?wait demo_page))"
    by (rule reachable_step, intro vs_resend demo_usable) (simp_all add: defs)
  then have "demo_reachable ?sent" by (rule reachable_step, intro vs_resent) (simp add: defs)
  then have "demo_reachable (?wait ?sent)" by (rule demo_wait) (simp_all add: defs)
  then have r: "demo_reachable (onResendCode (?wait ?sent))"
    by (rule reachable_step, intro vs_resend demo_usable) (simp_all add: defs)
  have "resent (vp_log (onResendCode (?wait ?sent))) = 1" "isPending (vp_resend (onResendCode (?wait ?sent)))"
    by (simp_all add: defs resent_def)
  with resend_paced [OF r] r show ?thesis by (intro exI [of _ "onResendCode (?wait ?sent)"]) simp
qed

text \<open>The page always leads on to the dashboard: sign-up hands on no other target.\<close>

lemma signup_target: "signup_result email_ok f answer = Some location \<Longrightarrow> getRedirectTarget location = ''/dashboard''"
  by (drule signup_resultD(2)) (simp add: getRedirectTarget_def)

text \<open>
  The message of a refused code stays on show after a new one has been sent: asking for a code
  resets only its own mutation.
\<close>

lemma refused_code_stays:
  assumes "vp_verify p = Mut_failed ''expired''" and "vp_register p = Mut_idle"
  shows "errorMessage (resend_settles (Inr data) (onResendCode p)) = Some ''expired''"
  using assms by (simp add: errorMessage_def resend_settles_def onResendCode_def first_error_def error_message_def
      formatAuthError_def Let_def)

text \<open>A request for a code that failed can be repeated at once, whatever the server said.\<close>

lemma failed_resend_repeats:
  assumes "usable p" and "vp_cooldown p = 0"
  shows "usable (resend_settles (Inl e) (onResendCode p)) \<and> vp_cooldown (resend_settles (Inl e) (onResendCode p)) = 0"
proof -
  let ?q = "resend_settles (Inl e) (onResendCode p)"
  have "vp_location ?q = vp_location p" "vp_session ?q = vp_session p" "vp_mounted ?q = vp_mounted p"
    "vp_verify ?q = vp_verify p" "vp_register ?q = vp_register p" "vp_resend ?q = Mut_failed (message_of e)"
    "vp_cooldown ?q = vp_cooldown p"
    by (simp_all add: resend_settles_def onResendCode_def Let_def)
  then show ?thesis using assms by (auto simp: usable_def verify_view_def isBusy_def split: if_splits)
qed

section \<open>The billing portal and the logout\<close>

text \<open>
  Requests are numbered as they are started; the component remembers the controller of the newest.
  What becomes visible: the notices, and the address the browser is sent to.
\<close>

datatype portal_effect = Portal_opened | Portal_failed | Assigned string

record portal =
  pt_controller :: "nat option"
  pt_started :: nat
  pt_open :: "nat list"
  pt_loading :: bool
  pt_mounted :: bool
  pt_effects :: "(nat \<times> portal_effect) list"

definition initial_portal :: portal where
  "initial_portal = \<lparr>pt_controller = None, pt_started = 0, pt_open = [], pt_loading = False, pt_mounted = True, pt_effects = []\<rparr>"

definition handleOpenPortal :: "string option \<Rightarrow> portal \<Rightarrow> portal" where
  "handleOpenPortal token p =
     (case token of
        None \<Rightarrow> p
      | Some t \<Rightarrow>
          if t = [] then p
          else p\<lparr>pt_controller := Some (pt_started p), pt_started := pt_started p + 1,
                 pt_open := pt_open p @ [pt_started p], pt_loading := True\<rparr>)"

text \<open>The notices and the navigation of request \<open>i\<close> when it is answered.\<close>

definition portal_effects :: "bool \<Rightarrow> nat \<Rightarrow> js_error + jsval \<Rightarrow> portal \<Rightarrow> portal_effect list" where
  "portal_effects isJsdom i answer p =
     (if pt_controller p \<noteq> Some i then []
      else case answer of
             Inr result \<Rightarrow>
               (if isJsdom then [Portal_opened]
                else if nullish result then [Portal_opened, Portal_failed]
                else case js_get result ''portal_url'' of
                       Str url \<Rightarrow> if url = [] then [Portal_opened] else [Portal_opened, Assigned url]
                     | _ \<Rightarrow> [Portal_opened])
           | Inl e \<Rightarrow> if isAbortError e then [] else [Portal_failed])"

definition portal_settles :: "bool \<Rightarrow> nat \<Rightarrow> js_error + jsval \<Rightarrow> portal \<Rightarrow> portal" where
  "portal_settles isJsdom i answer p =
     (let p1 = p\<lparr>pt_open := remove1 i (pt_open p),
                 pt_effects := pt_effects p @ map (Pair i) (portal_effects isJsdom i answer p)\<rparr>
      in if pt_controller p = Some i then p1\<lparr>pt_controller := None, pt_loading := False\<rparr> else p1)"

definition portal_unmounts :: "portal \<Rightarrow> portal" where
  "portal_unmounts p = p\<lparr>pt_controller := None, pt_mounted := False\<rparr>"

inductive portal_step :: "bool \<Rightarrow> portal \<Rightarrow> portal \<Rightarrow> bool" for isJsdom where
  ps_open: "pt_mounted p \<Longrightarrow> portal_step isJsdom p (handleOpenPortal token p)"
| ps_settle: "i \<in> set (pt_open p) \<Longrightarrow> portal_step isJsdom p (portal_settles isJsdom i answer p)"
| ps_unmount: "portal_step isJsdom p (portal_unmounts p)"

definition portal_ok :: "portal \<Rightarrow> bool" where
  "portal_ok p \<longleftrightarrow>
     distinct (pt_open p)
     \<and> (\<forall>i \<in> set (pt_open p). i < pt_started p)
     \<and> (\<forall>i. pt_controller p = Some i \<longleftrightarrow> pt_mounted p \<and> i \<in> set (pt_open p) \<and> Suc i = pt_started p)
     \<and> (pt_mounted p \<longrightarrow> pt_loading p = (pt_controller p \<noteq> None))"

lemma portal_okI:
  assumes "distinct (pt_open p)" and "\<And>i. i \<in> set (pt_open p) \<Longrightarrow> i < pt_started p"
    and "\<And>i. pt_controller p = Some i \<longleftrightarrow> pt_mounted p \<and> i \<in> set (pt_open p) \<and> Suc i = pt_started p"
    and "pt_mounted p \<Longrightarrow> pt_loading p = (pt_controller p \<noteq> None)"
  shows "portal_ok p"
  unfolding portal_ok_def by (intro conjI allI ballI impI; rule assms; assumption)

lemma portal_okD:
  assumes "portal_ok p"
  shows portal_distinct: "distinct (pt_open p)" and portal_less: "i \<in> set (pt_open p) \<Longrightarrow> i < pt_started p"
    and portal_newest: "pt_controller p = Some i \<longleftrightarrow> pt_mounted p \<and> i \<in> set (pt_open p) \<and> Suc i = pt_started p"
    and portal_loading: "pt_mounted p \<Longrightarrow> pt_loading p = (pt_controller p \<noteq> None)"
proof -
  note c = assms [unfolded portal_ok_def]
  show "distinct (pt_open p)" by (rule c [THEN conjunct1])
  show "i \<in> set (pt_open p) \<Longrightarrow> i < pt_started p" by (rule c [THEN conjunct2, THEN conjunct1, rule_format])
  show "pt_controller p = Some i \<longleftrightarrow> pt_mounted p \<and> i \<in> set (pt_open p) \<and> Suc i = pt_started p"
    by (rule c [THEN conjunct2, THEN conjunct2, THEN conjunct1, rule_format])
  show "pt_mounted p \<Longrightarrow> pt_loading p = (pt_controller p \<noteq> None)"
    by (rule c [THEN conjunct2, THEN conjunct2, THEN conjunct2, rule_format])
qed

lemma portal_ok_open:
  assumes ok: "portal_ok p" and "pt_mounted p"
  shows "portal_ok (handleOpenPortal token p)"
proof (cases "token = None \<or> token = Some []")
  case True
  then show ?thesis using ok by (auto simp: handleOpenPortal_def)
next
  case False
  then have q: "handleOpenPortal token p = p\<lparr>pt_controller := Some (pt_started p), pt_started := pt_started p + 1,
      pt_open := pt_open p @ [pt_started p], pt_loading := True\<rparr>"
    by (cases token) (simp_all add: handleOpenPortal_def)
  have "pt_started p \<notin> set (pt_open p)" using portal_less [OF ok] by blast
  then show ?thesis
    unfolding q using portal_distinct [OF ok] portal_less [OF ok] assms(2)
    by (intro portal_okI) (auto simp: less_Suc_eq)
qed

lemma portal_ok_settle:
  assumes ok: "portal_ok p" and "i \<in> set (pt_open p)"
  shows "portal_ok (portal_settles isJsdom i answer p)"
proof (rule portal_okI)
  let ?q = "portal_settles isJsdom i answer p"
  have fields: "pt_open ?q = remove1 i (pt_open p)" "pt_started ?q = pt_started p" "pt_mounted ?q = pt_mounted p"
    "pt_controller ?q = (if pt_controller p = Some i then None else pt_controller p)"
    "pt_loading ?q = (pt_loading p \<and> pt_controller p \<noteq> Some i)"
    by (simp_all add: portal_settles_def Let_def)
  have gone: "set (remove1 i (pt_open p)) = set (pt_open p) - {i}"
    using portal_distinct [OF ok] by (rule set_remove1_eq)
  show "distinct (pt_open ?q)" using portal_distinct [OF ok] by (simp add: fields)
  show "j \<in> set (pt_open ?q) \<Longrightarrow> j < pt_started ?q" for j using portal_less [OF ok] by (simp add: fields gone)
  show "pt_controller ?q = Some j \<longleftrightarrow> pt_mounted ?q \<and> j \<in> set (pt_open ?q) \<and> Suc j = pt_started ?q" for j
    using portal_newest [OF ok, of j] portal_newest [OF ok, of i] by (simp add: fields gone) (metis nat.inject)
  show "pt_mounted ?q \<Longrightarrow> pt_loading ?q = (pt_controller ?q \<noteq> None)"
    using portal_loading [OF ok] by (simp add: fields)
qed

interpretation portal_machine: invariant_of "\<lambda>p. p = initial_portal" "portal_step isJsdom" portal_ok
proof
  show "p = initial_portal \<Longrightarrow> portal_ok p" for p by (simp add: portal_ok_def initial_portal_def)
  show "portal_ok p'" if ok: "portal_ok p" and step: "portal_step isJsdom p p'" for p p'
    using step
  proof cases
    case ps_unmount
    then show ?thesis using portal_distinct [OF ok] portal_less [OF ok]
      by (intro portal_okI) (simp_all add: portal_unmounts_def)
  qed (simp_all add: ok portal_ok_open portal_ok_settle)
qed

text \<open>
  C24. The billing portal: whatever the order of clicks, answers and leaving, the button shows loading
  exactly while the newest request is open; the answer of any other request, and of every request
  once the component has gone, shows nothing and sends the browser nowhere.
\<close>

theorem portal_newest_only:
  assumes "reachable (\<lambda>p. p = initial_portal) (portal_step isJsdom) p"
  shows "(pt_mounted p \<longrightarrow> (pt_loading p \<longleftrightarrow> (\<exists>newest \<in> set (pt_open p). newest + 1 = pt_started p)))
    \<and> (i + 1 \<noteq> pt_started p \<or> \<not> pt_mounted p \<longrightarrow>
        pt_effects (portal_settles isJsdom i answer p) = pt_effects p
        \<and> pt_loading (portal_settles isJsdom i answer p) = pt_loading p)"
proof -
  note ok = portal_machine.reachable_inv [OF assms]
  have "pt_loading p \<longleftrightarrow> (\<exists>j \<in> set (pt_open p). j + 1 = pt_started p)" if "pt_mounted p"
    using portal_loading [OF ok that] portal_newest [OF ok] that by (auto simp: not_None_eq)
  moreover have "pt_controller p \<noteq> Some i" if "i + 1 \<noteq> pt_started p \<or> \<not> pt_mounted p"
    using portal_newest [OF ok, of i] that by auto
  ultimately show ?thesis by (simp add: portal_settles_def portal_effects_def Let_def)
qed

theorem portal_newest_only_witness:
  "(let p = handleOpenPortal (Some ''t'') (handleOpenPortal (Some ''t'') initial_portal)
    in pt_loading p \<and> pt_effects (portal_settles False 0 (Inr Null) p) = [])"
proof -
  let ?p = "handleOpenPortal (Some ''t'') (handleOpenPortal (Some ''t'') initial_portal)"
  have "reachable (\<lambda>p. p = initial_portal) (portal_step False) (handleOpenPortal (Some ''t'') initial_portal)"
    by (rule reachable_step, rule reachable_init, rule refl, rule ps_open) (simp add: initial_portal_def)
  then have "reachable (\<lambda>p. p = initial_portal) (portal_step False) ?p"
    by (rule reachable_step, intro ps_open) (simp add: initial_portal_def handleOpenPortal_def)
  from portal_newest_only [OF this, of 0 "Inr Null"] show ?thesis
    by (simp add: handleOpenPortal_def initial_portal_def)
qed

text \<open>
  Logging out clears the session and leaves for the login page before the request is made; the
  answer of the request only chooses the notice.
\<close>

definition handleLogout :: "session_state \<Rightarrow> session_state \<times> string" where
  "handleLogout st = (clearSession st, ''/login'')"

definition logout_notice :: "js_error + jsval \<Rightarrow> string" where
  "logout_notice answer = (case answer of Inr _ \<Rightarrow> ''user.loggedOut'' | Inl _ \<Rightarrow> ''user.logoutFailed'')"

end
