(* ===== verification/DashboardQueries.thy ===== *)
theory DashboardQueries
  imports DistributionSeries Signup
begin

text \<open>
  The baseline queries of the dashboard: their keys (\<open>features/dashboard/lib/query-keys.ts\<close>) and
  request functions (\<open>lib/dashboard-queries.ts\<close>), the prefetch of the dashboard route
  (\<open>lib/dashboard-route-prefetch.ts\<close>), and the two hooks that hand a baseline on,
  \<open>hooks/use-order-flow-baseline.ts\<close> and \<open>hooks/use-spot-market-distribution.ts\<close>. The second
  writes its baseline into the realtime store; the last section follows the distribution series
  through a baseline, a run of realtime events, and the same effect once more.

  React Query is not modelled: a query is what the hook sees of it, its data, error and loading flag.
\<close>

section \<open>Keys and requests\<close>

type_synonym query_key = "string \<times> (string \<times> jsval) list"

datatype query_data = Single jsval | Both jsval jsval

record query_options =
  qo_key :: query_key
  qo_answer :: "js_error + query_data"

definition buildDashboardOrderFlowBaselineQueryKey :: "string \<Rightarrow> query_key" where
  "buildDashboardOrderFlowBaselineQueryKey code = (''dashboard-order-flow-baseline'', [(''code'', Str code)])"

definition buildDashboardQuoteTodayQueryKey :: "string \<Rightarrow> query_key" where
  "buildDashboardQuoteTodayQueryKey code = (''dashboard-quote-today'', [(''code'', Str code)])"

definition buildDashboardEstimatedVolumeBaselineQueryKey :: "string \<Rightarrow> query_key" where
  "buildDashboardEstimatedVolumeBaselineQueryKey code = (''dashboard-estimated-volume-baseline'', [(''code'', Str code)])"

definition buildDashboardDailyAmplitudeQueryKey :: "string \<Rightarrow> nat \<Rightarrow> query_key" where
  "buildDashboardDailyAmplitudeQueryKey code historyLength =
     (''dashboard-daily-amplitude-history'', [(''code'', Str code), (''historyLength'', Num (Fin (of_nat historyLength)))])"

definition buildDashboardSpotMarketDistributionBaselineQueryKey :: query_key where
  "buildDashboardSpotMarketDistributionBaselineQueryKey = (''dashboard-spot-market-distribution-baseline'', [])"

definition both :: "js_error + jsval \<times> jsval \<Rightarrow> js_error + query_data" where
  "both r = map_sum id (\<lambda>(x, y). Both x y) r"

definition dashboardOrderFlowBaselineQueryOptions :: "dash_env \<Rightarrow> string \<Rightarrow> string \<Rightarrow> query_options" where
  "dashboardOrderFlowBaselineQueryOptions d token code =
     \<lparr>qo_key = buildDashboardOrderFlowBaselineQueryKey code, qo_answer = both (getOrderFlowBaseline d token code)\<rparr>"

definition dashboardQuoteTodayQueryOptions :: "dash_env \<Rightarrow> string \<Rightarrow> string \<Rightarrow> query_options" where
  "dashboardQuoteTodayQueryOptions d token code =
     \<lparr>qo_key = buildDashboardQuoteTodayQueryKey code, qo_answer = map_sum id Single (getQuoteToday d token code)\<rparr>"

definition dashboardEstimatedVolumeBaselineQueryOptions :: "dash_env \<Rightarrow> string \<Rightarrow> string \<Rightarrow> query_options" where
  "dashboardEstimatedVolumeBaselineQueryOptions d token code =
     \<lparr>qo_key = buildDashboardEstimatedVolumeBaselineQueryKey code, qo_answer = both (getEstimatedVolumeBaseline d token code)\<rparr>"

definition dashboardDailyAmplitudeQueryOptions :: "dash_env \<Rightarrow> string \<Rightarrow> string \<Rightarrow> nat \<Rightarrow> query_options" where
  "dashboardDailyAmplitudeQueryOptions d token code historyLength =
     \<lparr>qo_key = buildDashboardDailyAmplitudeQueryKey code historyLength,
      qo_answer = map_sum id Single (getDailyAmplitudeHistory d token code historyLength)\<rparr>"

definition dashboardSpotMarketDistributionBaselineQueryOptions :: "dash_env \<Rightarrow> string \<Rightarrow> query_options" where
  "dashboardSpotMarketDistributionBaselineQueryOptions d token =
     \<lparr>qo_key = buildDashboardSpotMarketDistributionBaselineQueryKey, qo_answer = both (getSpotMarketDistributionBaseline d token)\<rparr>"

section \<open>Prefetch\<close>



text \<open>The queries prefetched for a session, in the order they are started.\<close>

definition prefetchDashboardRouteData :: "dash_env \<Rightarrow> session_state \<Rightarrow> string option \<Rightarrow> query_options list" where
  "prefetchDashboardRouteData d st input_code =
     (let code = (case input_code of Some c \<Rightarrow> c | None \<Rightarrow> DEFAULT_ORDER_FLOW_CODE)
      in case s_token st of
           None \<Rightarrow> []
         | Some token \<Rightarrow>
             if \<not> s_resolved st \<or> token = [] \<or> s_role st = Visitor then []
             else [dashboardOrderFlowBaselineQueryOptions d token code,
                   dashboardQuoteTodayQueryOptions d token code,
                   dashboardEstimatedVolumeBaselineQueryOptions d token code,
                   dashboardDailyAmplitudeQueryOptions d token code 19,
                   dashboardSpotMarketDistributionBaselineQueryOptions d token])"

text \<open>\<open>isEnabled\<close> of every hook of the dashboard, and the queries its hooks use once enabled.\<close>

definition dashboard_enabled :: "session_state \<Rightarrow> bool" where
  "dashboard_enabled st \<longleftrightarrow> s_resolved st \<and> s_token st \<noteq> None \<and> s_token st \<noteq> Some [] \<and> s_role st \<noteq> Visitor"

definition token_or_empty :: "session_state \<Rightarrow> string" where
  "token_or_empty st = (case s_token st of Some token \<Rightarrow> token | None \<Rightarrow> [])"

definition dashboard_queries :: "dash_env \<Rightarrow> session_state \<Rightarrow> query_options list" where
  "dashboard_queries d st =
     (if dashboard_enabled st
      then [dashboardDailyAmplitudeQueryOptions d (token_or_empty st) DEFAULT_ORDER_FLOW_CODE 19,
            dashboardOrderFlowBaselineQueryOptions d (token_or_empty st) DEFAULT_ORDER_FLOW_CODE,
            dashboardEstimatedVolumeBaselineQueryOptions d (token_or_empty st) DEFAULT_ORDER_FLOW_CODE,
            dashboardQuoteTodayQueryOptions d (token_or_empty st) DEFAULT_ORDER_FLOW_CODE,
            dashboardSpotMarketDistributionBaselineQueryOptions d (token_or_empty st)]
      else [])"

text \<open>
  Prefetching the dashboard asks for exactly what its hooks will ask for: the same keys, each
  once, with the same requests under the same token, and for nothing as long as the hooks are
  disabled.
\<close>

theorem prefetch_covers_dashboard:
  "set (prefetchDashboardRouteData d st None) = set (dashboard_queries d st)
    \<and> distinct (map qo_key (prefetchDashboardRouteData d st None))
    \<and> (prefetchDashboardRouteData d st None = [] \<longleftrightarrow> \<not> dashboard_enabled st)"
  by (cases "s_token st")
    (auto simp: prefetchDashboardRouteData_def dashboard_queries_def dashboard_enabled_def token_or_empty_def Let_def
      dashboardOrderFlowBaselineQueryOptions_def dashboardQuoteTodayQueryOptions_def
      dashboardEstimatedVolumeBaselineQueryOptions_def dashboardDailyAmplitudeQueryOptions_def
      dashboardSpotMarketDistributionBaselineQueryOptions_def buildDashboardOrderFlowBaselineQueryKey_def
      buildDashboardQuoteTodayQueryKey_def buildDashboardEstimatedVolumeBaselineQueryKey_def
      buildDashboardDailyAmplitudeQueryKey_def buildDashboardSpotMarketDistributionBaselineQueryKey_def)

section \<open>The hooks\<close>

record baseline_query =
  bq_data :: "query_data option"
  bq_error :: "js_error option"
  bq_isLoading :: bool

definition resolveErrorMessage :: "string \<Rightarrow> js_error \<Rightarrow> string" where
  "resolveErrorMessage fallback e = (if message_of e \<noteq> [] then message_of e else fallback)"

definition hook_loading :: "session_state \<Rightarrow> baseline_query \<Rightarrow> bool" where
  "hook_loading st q \<longleftrightarrow> (if \<not> s_resolved st then True else bq_isLoading q)"

definition hook_error :: "string \<Rightarrow> session_state \<Rightarrow> baseline_query \<Rightarrow> string option" where
  "hook_error fallback st q = (if dashboard_enabled st then map_option (resolveErrorMessage fallback) (bq_error q) else None)"

record order_flow_view =
  ov_kbarToday :: "jsval option"
  ov_metricToday :: "jsval option"
  ov_loading :: bool
  ov_error :: "string option"
  ov_baselineReady :: bool

text \<open>None for the shared empty arrays.\<close>

definition given_or_empty :: "jsval \<Rightarrow> jsval option" where
  "given_or_empty v = (if nullish v then None else Some v)"

definition useOrderFlowBaseline :: "session_state \<Rightarrow> baseline_query \<Rightarrow> order_flow_view" where
  "useOrderFlowBaseline st q =
     \<lparr>ov_kbarToday = (case bq_data q of Some (Both k _) \<Rightarrow> given_or_empty k | _ \<Rightarrow> None),
      ov_metricToday = (case bq_data q of Some (Both _ m) \<Rightarrow> given_or_empty m | _ \<Rightarrow> None),
      ov_loading = hook_loading st q, ov_error = hook_error ''order_flow_baseline_load_failed'' st q,
      ov_baselineReady = (bq_data q \<noteq> None)\<rparr>"

definition useSpotMarketDistributionBaseline :: "session_state \<Rightarrow> baseline_query \<Rightarrow> bool \<times> string option" where
  "useSpotMarketDistributionBaseline st q = (hook_loading st q, hook_error ''spot_market_distribution_load_failed'' st q)"

section \<open>The distribution baseline in the store\<close>

text \<open>
  The batch of the effect; the array of the baseline is the array of the query's data, with the
  contents it has by now. None where reading the length throws.
\<close>

definition distribution_baseline :: "(nat \<Rightarrow> jsval list option) \<Rightarrow> nat \<Rightarrow> jsval \<Rightarrow> jsval \<Rightarrow> sse_batch option" where
  "distribution_baseline h n latest today =
     (if nullish today then None
      else Some (empty_batch\<lparr>b_spotMarketDistributionLatest := js_coalesce latest Undef,
        b_spotMarketDistributionSeries :=
          (case array_items h today of Some (x # xs) \<Rightarrow> Obj n [(''items'', today)] | _ \<Rightarrow> Undef)\<rparr>))"

definition distribution_effect :: "(jsval \<Rightarrow> string) \<Rightarrow> baseline_query \<Rightarrow> rt_state \<Rightarrow> rt_state option" where
  "distribution_effect show_val q st =
     (case bq_data q of
        Some (Both latest today) \<Rightarrow>
          (case distribution_baseline (arrays st) (fresh st) latest today of
             None \<Rightarrow> None
           | Some b \<Rightarrow> map_option fst (applySseBatch show_val b (st\<lparr>fresh := fresh st + 1\<rparr>)))
      | _ \<Rightarrow> Some st)"

lemma apply_distribution_batch:
  assumes "latest = Undef \<or> truthy latest" and "truthy series"
  shows "map_option fst (applySseBatch show_val
      (empty_batch\<lparr>b_spotMarketDistributionLatest := latest, b_spotMarketDistributionSeries := series\<rparr>) st) =
    Some (st\<lparr>spotMarketDistributionLatest := fst (replace_if (truthy latest) (spotMarketDistributionLatest st) latest),
             spotMarketDistributionSeries := fst (replace_if True (spotMarketDistributionSeries st) series)\<rparr>)"
proof -
  let ?b = "empty_batch\<lparr>b_spotMarketDistributionLatest := latest, b_spotMarketDistributionSeries := series\<rparr>"
  have "apply_maps show_val ?b st = (st, False)"
    by (simp add: apply_maps_def empty_batch_def kbar_update_def batch_entries_def upsert_entries_def)
  moreover have "apply_list ?b st = (st, False)"
    by (simp add: apply_list_def empty_batch_def replace_if_def)
  moreover have "apply_singles ?b st' = (st', False)" for st'
    by (simp add: apply_singles_def empty_batch_def replace_if_def)
  ultimately show ?thesis
    using assms by (auto simp: applySseBatch_def apply_distribution_def empty_batch_def replace_if_def Let_def)
qed

lemma window_append: "window c (window c xs @ ys) = window c (xs @ ys)"
proof (induction ys rule: rev_induct)
  case Nil
  then show ?case by (simp add: window_def)
next
  case (snoc y ys)
  then show ?case by (metis append_assoc window_snoc)
qed

lemma window_empty: "window c xs = [] \<longleftrightarrow> c = 0 \<or> xs = []"
  by (cases xs) (auto simp: window_def)

lemma stream_from:
  assumes "truthy (spotMarketDistributionSeries st)" and "js_get (spotMarketDistributionSeries st) ''items'' = Arr a xs"
    and "\<forall>x \<in> set (series_points st). truthy x" and "successively newer (spotMarketDistributionLatest st # ps)"
    and "ps \<noteq> [] \<and> series_points st \<noteq> [] \<longrightarrow> \<not> js_seq (js_get (last (series_points st)) ''ts'') (js_get (hd ps) ''ts'')"
  shows "\<exists>st'. deliver show_val (map distribution_batch ps) st = Some st'
    \<and> truthy (spotMarketDistributionSeries st') \<and> js_get (spotMarketDistributionSeries st') ''items'' = Arr a xs
    \<and> map item_values (series_points st') =
        (if ps = [] then map item_values (series_points st)
         else window SPOT_MARKET_DISTRIBUTION_SERIES_CAP (map item_values (series_points st @ ps)))
    \<and> spotMarketDistributionLatest st' = last (spotMarketDistributionLatest st # ps)"
  using assms
proof (induction ps arbitrary: st)
  case (Cons p ps)
  have np: "newer (spotMarketDistributionLatest st) p" using Cons.prems(4) by simp
  have p: "is_object p" using np by (auto simp: newer_def)
  have "series_points st \<noteq> [] \<longrightarrow> \<not> js_seq (js_get (last (series_points st)) ''ts'') (js_get p ''ts'')"
    using Cons.prems(5) by simp
  from append_event [OF p newer_not_equal [OF np] Cons.prems(1-3) this, of show_val] obtain st1 x where
    st1: "applySseBatch show_val (distribution_batch p) st = Some (st1, True)" "spotMarketDistributionLatest st1 = p"
      "truthy (spotMarketDistributionSeries st1)" "js_get (spotMarketDistributionSeries st1) ''items'' = Arr a xs"
    and pts: "series_points st1 = window SPOT_MARKET_DISTRIBUTION_SERIES_CAP (series_points st @ [x])"
    and x: "item_values x = item_values p" "truthy x"
    by metis
  have "\<forall>y \<in> set (series_points st1). truthy y"
    using Cons.prems(3) x(2) set_window [of SPOT_MARKET_DISTRIBUTION_SERIES_CAP "series_points st @ [x]"] by (auto simp: pts)
  moreover have "last (series_points st1) = x"
    by (simp add: pts last_window SPOT_MARKET_DISTRIBUTION_SERIES_CAP_def)
  then have "ps \<noteq> [] \<and> series_points st1 \<noteq> [] \<longrightarrow> \<not> js_seq (js_get (last (series_points st1)) ''ts'') (js_get (hd ps) ''ts'')"
    using Cons.prems(4) x(1) by (cases ps) (auto simp: newer_def item_ts)
  moreover have "successively newer (spotMarketDistributionLatest st1 # ps)"
    using Cons.prems(4) by (simp add: st1(2) successively_Cons)
  ultimately obtain st' where st': "deliver show_val (map distribution_batch ps) st1 = Some st'"
      "truthy (spotMarketDistributionSeries st')" "js_get (spotMarketDistributionSeries st') ''items'' = Arr a xs"
      "spotMarketDistributionLatest st' = last (p # ps)"
    and vals: "map item_values (series_points st') =
        (if ps = [] then map item_values (series_points st1)
         else window SPOT_MARKET_DISTRIBUTION_SERIES_CAP (map item_values (series_points st1 @ ps)))"
    using Cons.IH [of st1] st1(2-4) by auto
  have "map item_values (series_points st1)
      = window SPOT_MARKET_DISTRIBUTION_SERIES_CAP (map item_values (series_points st) @ [item_values p])"
    by (simp add: pts map_window x(1))
  then have "map item_values (series_points st') = window SPOT_MARKET_DISTRIBUTION_SERIES_CAP (map item_values (series_points st @ p # ps))"
    using vals window_append [of _ "map item_values (series_points st) @ [item_values p]" "map item_values ps"] by auto
  then show ?case using st1(1) st' by auto
qed simp

text \<open>Timestamps rise along a run, so no later event is the first one.\<close>

lemma newer_run_ts:
  assumes "successively newer (p # ps)" and "ps \<noteq> []"
  shows "\<exists>a b. js_get p ''ts'' = Num (Fin a) \<and> js_get (last ps) ''ts'' = Num (Fin b) \<and> a < b"
  using assms
proof (induction ps arbitrary: p)
  case (Cons q ps)
  then show ?case
    by (cases ps) (fastforce simp: newer_def)+
qed simp

lemma older_not_equal:
  assumes "successively newer (l # ps)" and "ps \<noteq> []" and "\<not> js_seq (last ps) l"
  shows "\<not> shallowEqual (last ps) l"
proof
  assume eq: "shallowEqual (last ps) l"
  obtain a b where ts: "js_get l ''ts'' = Num (Fin a)" "js_get (last ps) ''ts'' = Num (Fin b)" "a < b"
    using newer_run_ts [OF assms(1,2)] by auto
  from eq assms(3) have obj: "is_object (last ps)" "\<forall>(k, v) \<in> set (own_props (last ps)). js_seq (js_get (last ps) k) (js_get l k)"
    by (auto simp: shallowEqual_def)
  have "\<exists>r qs. last ps = Obj r qs"
    using assms(1,2) by (cases ps rule: rev_cases; cases "butlast ps" rule: rev_cases)
      (auto simp: successively_append_iff successively_Cons newer_def split: if_splits)
  then have "(''ts'', Num (Fin b)) \<in> set (own_props (last ps))"
    using ts(2) by (auto split: option.splits dest: map_of_SomeD)
  with obj(2) ts show False by auto
qed

text \<open>The effect on a store whose series, if any, is the array of the query.\<close>

lemma baseline_effect:
  assumes "bq_data q = Some (Both latest (Arr a xs))" and "is_object latest"
    and "(case arrays st a of Some ys \<Rightarrow> ys | None \<Rightarrow> xs) \<noteq> []"
    and "spotMarketDistributionSeries st = Null \<or> truthy (spotMarketDistributionSeries st)
      \<and> js_get (spotMarketDistributionSeries st) ''items'' = Arr a xs"
  shows "\<exists>st'. distribution_effect show_val q st = Some st' \<and> truthy (spotMarketDistributionSeries st')
    \<and> js_get (spotMarketDistributionSeries st') ''items'' = Arr a xs
    \<and> series_points st' = (case arrays st a of Some ys \<Rightarrow> ys | None \<Rightarrow> xs)
    \<and> spotMarketDistributionLatest st' = fst (replace_if True (spotMarketDistributionLatest st) latest)"
proof -
  let ?ser = "Obj (fresh st) [(''items'', Arr a xs)]"
  have lat: "js_coalesce latest Undef = latest" "truthy latest"
    using assms(2) is_object_truthy by (auto simp: js_coalesce_def nullish_def)
  have b: "distribution_baseline (arrays st) (fresh st) latest (Arr a xs)
      = Some (empty_batch\<lparr>b_spotMarketDistributionLatest := latest, b_spotMarketDistributionSeries := ?ser\<rparr>)"
    using assms(3) lat(1) by (auto simp: distribution_baseline_def nullish_def array_items_def split: list.split option.splits)
  let ?v = "fst (replace_if True (spotMarketDistributionSeries st) ?ser)"
  let ?st' = "st\<lparr>fresh := fresh st + 1, spotMarketDistributionLatest := fst (replace_if True (spotMarketDistributionLatest st) latest),
    spotMarketDistributionSeries := ?v\<rparr>"
  have run: "distribution_effect show_val q st = Some ?st'"
    using apply_distribution_batch [of latest ?ser show_val "st\<lparr>fresh := fresh st + 1\<rparr>"] assms(1) lat(2)
    by (simp add: distribution_effect_def b)
  have "truthy ?v \<and> js_get ?v ''items'' = Arr a xs"
    using assms(4) by (auto simp: replace_if_def shallowEqual_def)
  then have v: "truthy ?v" "js_get ?v ''items'' = Arr a xs" by blast+
  show ?thesis
    by (rule exI [of _ ?st']) (simp add: run v series_points_def series_items_def array_items_def)
qed

text \<open>
  C12. The distribution series through its sources: the baseline that arrives in an empty store
  becomes the series, realtime events with later timestamps are appended to it up to the last 600
  points, and the baseline effect run again (another card of the page mounts, or the page is opened
  again) keeps all these points, because the store appends to the array of the cached baseline; but
  it sets the latest value back to that of the baseline.
\<close>

theorem distribution_baseline_and_stream:
  assumes q: "bq_data q = Some (Both latest (Arr a xs))" and latest: "is_object latest"
    and xs: "xs \<noteq> []" "\<forall>x \<in> set xs. truthy x" and unchanged: "arrays st a = None"
    and empty: "spotMarketDistributionSeries st = Null" "spotMarketDistributionLatest st = Null"
    and ps: "successively newer (latest # ps)" "\<forall>p \<in> set ps. \<not> js_seq p latest"
    and first: "ps \<noteq> [] \<longrightarrow> \<not> js_seq (js_get (last xs) ''ts'') (js_get (hd ps) ''ts'')"
  shows "\<exists>st1 st2 st3. distribution_effect show_val q st = Some st1 \<and> series_points st1 = xs
    \<and> deliver show_val (map distribution_batch ps) st1 = Some st2
    \<and> map item_values (series_points st2) =
        (if ps = [] then map item_values xs
         else window SPOT_MARKET_DISTRIBUTION_SERIES_CAP (map item_values (xs @ ps)))
    \<and> spotMarketDistributionLatest st2 = last (latest # ps)
    \<and> distribution_effect show_val q st2 = Some st3 \<and> series_points st3 = series_points st2
    \<and> spotMarketDistributionLatest st3 = latest"
proof -
  have "\<not> shallowEqual Null latest" using latest by (cases latest) (auto simp: shallowEqual_def)
  then obtain st1 where st1: "distribution_effect show_val q st = Some st1" "truthy (spotMarketDistributionSeries st1)"
      "js_get (spotMarketDistributionSeries st1) ''items'' = Arr a xs" "series_points st1 = xs" "spotMarketDistributionLatest st1 = latest"
    using baseline_effect [OF q latest, of st show_val] xs(1) unchanged empty by (auto simp: replace_if_def)
  obtain st2 where st2: "deliver show_val (map distribution_batch ps) st1 = Some st2" "truthy (spotMarketDistributionSeries st2)"
      "js_get (spotMarketDistributionSeries st2) ''items'' = Arr a xs" "spotMarketDistributionLatest st2 = last (latest # ps)"
    and vals: "map item_values (series_points st2) =
        (if ps = [] then map item_values xs else window SPOT_MARKET_DISTRIBUTION_SERIES_CAP (map item_values (xs @ ps)))"
    using stream_from [OF st1(2,3), of ps show_val] st1(4,5) xs(2) ps(1) first by auto
  have pts: "(case arrays st2 a of Some ys \<Rightarrow> ys | None \<Rightarrow> xs) = series_points st2"
    using st2(3) by (simp add: series_points_def series_items_def array_items_def)
  have "length (series_points st2) \<noteq> 0"
    using vals xs(1) window_empty [of SPOT_MARKET_DISTRIBUTION_SERIES_CAP "map item_values (xs @ ps)"]
    by (auto simp: SPOT_MARKET_DISTRIBUTION_SERIES_CAP_def split: if_splits)
  then obtain st3 where "distribution_effect show_val q st2 = Some st3" "series_points st3 = series_points st2"
      "spotMarketDistributionLatest st3 = fst (replace_if True (last (latest # ps)) latest)"
    using baseline_effect [OF q latest, of st2 show_val] st2(2-4) unfolding pts by auto
  moreover have "fst (replace_if True (last (latest # ps)) latest) = latest"
    using older_not_equal [OF ps(1)] ps(2) by (auto simp: replace_if_def)
  ultimately show ?thesis using st1 st2 vals by auto
qed

definition demo_point :: "nat \<Rightarrow> rat \<Rightarrow> jsval" where
  "demo_point r t = Obj r [(''ts'', Num (Fin t))]"

theorem distribution_baseline_and_stream_witness:
  "\<exists>q st1 st2 st3. distribution_effect (\<lambda>_. []) q initialState = Some st1
    \<and> deliver (\<lambda>_. []) [distribution_batch (demo_point 3 2)] st1 = Some st2
    \<and> map (\<lambda>x. js_get x ''ts'') (series_points st2) = [Num (Fin 1), Num (Fin 2)]
    \<and> spotMarketDistributionLatest st2 = demo_point 3 2
    \<and> distribution_effect (\<lambda>_. []) q st2 = Some st3 \<and> spotMarketDistributionLatest st3 = demo_point 1 1"
proof -
  let ?q = "\<lparr>bq_data = Some (Both (demo_point 1 1) (Arr 0 [demo_point 2 1])), bq_error = None, bq_isLoading = False\<rparr>"
  obtain st1 st2 st3 where r: "distribution_effect (\<lambda>_. []) ?q initialState = Some st1"
    "deliver (\<lambda>_. []) (map distribution_batch [demo_point 3 2]) st1 = Some st2"
    "map item_values (series_points st2) = window SPOT_MARKET_DISTRIBUTION_SERIES_CAP (map item_values [demo_point 2 1, demo_point 3 2])"
    "spotMarketDistributionLatest st2 = demo_point 3 2"
    "distribution_effect (\<lambda>_. []) ?q st2 = Some st3" "spotMarketDistributionLatest st3 = demo_point 1 1"
    using distribution_baseline_and_stream [of ?q "demo_point 1 1" 0 "[demo_point 2 1]" initialState "[demo_point 3 2]" "\<lambda>_. []"]
    by (auto simp: demo_point_def initialState_def newer_def)
  have "map (\<lambda>x. js_get x ''ts'') (series_points st2) = map hd (map item_values (series_points st2))"
    by (simp add: item_ts)
  then have "map (\<lambda>x. js_get x ''ts'') (series_points st2) = [Num (Fin 1), Num (Fin 2)]"
    unfolding r(3) by (simp add: window_def SPOT_MARKET_DISTRIBUTION_SERIES_CAP_def item_ts [symmetric] demo_point_def)
  then show ?thesis
    using r(1) r(2) [unfolded list.map] r(4-6) by (intro exI conjI)
qed

end
