(* ===== verification/ServingSchemas.thy ===== *)
theory ServingSchemas
  imports JsValue
begin

text \<open>
  The event schemas of \<open>features/realtime/schemas/serving-event.schema.ts\<close>, as data. The
  library that reads them (\<open>zod\<close>, a third-party package) is a parameter of the model: a
  function \<open>sp\<close> with \<open>sp s v\<close> for \<open>s.safeParse(v)\<close>, Some of the parsed value when
  \<open>success\<close>. What the program relies on is stated once, as \<open>zod_sound\<close>: a parsed value
  conforms to its schema.
\<close>

section \<open>Schemas\<close>

datatype int_check = Nonneg | Positive | AnyInt

datatype schema =
    SString bool nat
  | SNumber
  | SInt int_check
  | SBoolean
  | SEnum "string list"
  | SNullable schema
  | SOptional schema
  | SUnion schema schema
  | SArray schema
  | SObject "(string \<times> schema) list"

text \<open>
  \<open>SString t n\<close> is \<open>z.string()\<close>, with \<open>.trim()\<close> when \<open>t\<close>, and \<open>.min(n)\<close>; \<open>SInt c\<close> is
  \<open>z.number().int()\<close> with \<open>.nonnegative()\<close>, \<open>.positive()\<close> or neither.
\<close>

fun int_check_ok :: "int_check \<Rightarrow> rat \<Rightarrow> bool" where
  "int_check_ok Nonneg x = (0 \<le> x)"
| "int_check_ok Positive x = (0 < x)"
| "int_check_ok AnyInt x = True"

fun conforms :: "schema \<Rightarrow> jsval \<Rightarrow> bool" where
  "conforms (SString t n) v =
     (case v of Str s \<Rightarrow> n \<le> length s \<and> (t \<longrightarrow> trim s = s) | _ \<Rightarrow> False)"
| "conforms SNumber v = (case v of Num x \<Rightarrow> x \<noteq> NaN | _ \<Rightarrow> False)"
| "conforms (SInt c) v =
     (case v of Num x \<Rightarrow> (case x of Fin r \<Rightarrow> r \<in> \<int> \<and> int_check_ok c r | _ \<Rightarrow> False) | _ \<Rightarrow> False)"
| "conforms SBoolean v = (case v of Bool _ \<Rightarrow> True | _ \<Rightarrow> False)"
| "conforms (SEnum names) v = (case v of Str s \<Rightarrow> s \<in> set names | _ \<Rightarrow> False)"
| "conforms (SNullable s) v = (v = Null \<or> conforms s v)"
| "conforms (SOptional s) v = (v = Undef \<or> conforms s v)"
| "conforms (SUnion s t) v = (conforms s v \<or> conforms t v)"
| "conforms (SArray s) v = (case v of Arr _ xs \<Rightarrow> (\<forall>x \<in> set xs. conforms s x) | _ \<Rightarrow> False)"
| "conforms (SObject fields) v =
     (case v of Obj _ ps \<Rightarrow> (\<forall>f \<in> set fields. conforms (snd f) (js_get v (fst f))) | _ \<Rightarrow> False)"

definition zod_sound :: "(schema \<Rightarrow> jsval \<Rightarrow> jsval option) \<Rightarrow> bool" where
  "zod_sound sp \<longleftrightarrow> (\<forall>s d v. sp s d = Some v \<longrightarrow> conforms s v)"

text \<open>
  A parser that satisfies the law, for the concrete runs of the witnesses: it accepts a value
  that already conforms and returns it as it is.
\<close>

definition strict_parse :: "schema \<Rightarrow> jsval \<Rightarrow> jsval option" where
  "strict_parse s v = (if conforms s v then Some v else None)"

lemma zod_sound_strict [simp]: "zod_sound strict_parse"
  by (simp add: zod_sound_def strict_parse_def)

section \<open>The schemas of the serving events\<close>

definition KbarCurrentSchema :: schema where
  "KbarCurrentSchema = SObject
     [(''code'', SString False 1),
      (''trade_date'', SString False 1),
      (''minute_ts'', SNumber),
      (''open'', SNumber),
      (''high'', SNumber),
      (''low'', SNumber),
      (''close'', SNumber),
      (''volume'', SNumber),
      (''day_amplitude'', SOptional (SNullable SNumber))]"

definition MetricLatestSchema :: schema where
  "MetricLatestSchema = SObject
     [(''bid'', SOptional (SNumber)),
      (''ask'', SOptional (SNumber)),
      (''mid'', SOptional (SNumber)),
      (''spread'', SOptional (SNumber)),
      (''bid_size'', SOptional (SNumber)),
      (''ask_size'', SOptional (SNumber)),
      (''main_force_big_order'', SOptional (SNumber)),
      (''main_force_big_order_strength'', SOptional (SNullable SNumber)),
      (''event_ts'', SOptional (SString False 0)),
      (''ts'', SOptional (SNumber))]"

definition HeartbeatSchema :: schema where
  "HeartbeatSchema = SObject
     [(''ts'', SNumber)]"

definition IndexContributionRankingRowSchema :: schema where
  "IndexContributionRankingRowSchema = SObject
     [(''rank_no'', SInt Positive),
      (''symbol'', SString False 1),
      (''contribution_points'', SNumber)]"

definition IndexContributionRankingSchema :: schema where
  "IndexContributionRankingSchema = SObject
     [(''index_code'', SString False 1),
      (''trade_date'', SString False 1),
      (''top'', SArray IndexContributionRankingRowSchema),
      (''bottom'', SArray IndexContributionRankingRowSchema),
      (''ts'', SNumber)]"

definition IndexContributionSectorItemSchema :: schema where
  "IndexContributionSectorItemSchema = SObject
     [(''name'', SString False 1),
      (''size'', SNumber),
      (''contribution_points'', SNumber)]"

definition IndexContributionSectorGroupSchema :: schema where
  "IndexContributionSectorGroupSchema = SObject
     [(''name'', SString False 1),
      (''children'', SArray IndexContributionSectorItemSchema)]"

definition IndexContributionSectorSchema :: schema where
  "IndexContributionSectorSchema = SObject
     [(''index_code'', SString False 1),
      (''trade_date'', SString False 1),
      (''sectors'', SArray IndexContributionSectorGroupSchema),
      (''ts'', SNumber)]"

definition MarketSummaryLatestSchema :: schema where
  "MarketSummaryLatestSchema = SObject
     [(''code'', SOptional (SString True 1)),
      (''market_code'', SOptional (SString True 1)),
      (''minute_ts'', SOptional (SNumber)),
      (''event_ts'', SOptional (SNumber)),
      (''spread'', SOptional (SNullable SNumber)),
      (''estimated_turnover'', SOptional (SNullable SNumber)),
      (''yesterday_estimated_turnover'', SOptional (SNullable SNumber)),
      (''estimated_turnover_diff'', SOptional (SNullable SNumber)),
      (''estimated_turnover_ratio'', SOptional (SNullable SNumber)),
      (''cumulative_turnover'', SOptional (SNullable SNumber))]"

definition OtcSummaryLatestSchema :: schema where
  "OtcSummaryLatestSchema = SObject
     [(''code'', SOptional (SString True 1)),
      (''minute_ts'', SOptional (SNumber)),
      (''event_ts'', SOptional (SNumber)),
      (''index_value'', SOptional (SNullable SNumber))]"

definition QuoteLatestSchema :: schema where
  "QuoteLatestSchema = SObject
     [(''code'', SOptional (SString True 1)),
      (''event_ts'', SOptional (SUnion SNumber (SString False 0))),
      (''ts'', SOptional (SUnion SNumber (SString False 0))),
      (''main_chip'', SOptional (SNullable SNumber)),
      (''long_short_force'', SOptional (SNullable SNumber)),
      (''main_chip_strength'', SOptional (SNullable SNumber)),
      (''long_short_force_strength'', SOptional (SNullable SNumber))]"

definition SpotSectorStrengthSchema :: schema where
  "SpotSectorStrengthSchema = SObject
     [(''weighted'', SOptional (SNullable SNumber)),
      (''financial'', SOptional (SNullable SNumber)),
      (''tech'', SOptional (SNullable SNumber))]"

definition SpotStrengthBreakdownSchema :: schema where
  "SpotStrengthBreakdownSchema = SObject
     [(''new_high'', SOptional (SInt Nonneg)),
      (''strong_up'', SOptional (SInt Nonneg)),
      (''flat'', SOptional (SInt Nonneg)),
      (''strong_down'', SOptional (SInt Nonneg)),
      (''new_low'', SOptional (SInt Nonneg))]"

definition SpotLatestItemSchema :: schema where
  "SpotLatestItemSchema = SObject
     [(''symbol'', SString True 1),
      (''open'', SOptional (SNullable SNumber)),
      (''high'', SOptional (SNullable SNumber)),
      (''low'', SOptional (SNullable SNumber)),
      (''close'', SOptional (SNullable SNumber)),
      (''last_price'', SOptional (SNullable SNumber)),
      (''session_high'', SOptional (SNullable SNumber)),
      (''session_low'', SOptional (SNullable SNumber)),
      (''reference_price'', SOptional (SNullable SNumber)),
      (''price_chg'', SOptional (SNullable SNumber)),
      (''pct_chg'', SOptional (SNullable SNumber)),
      (''gap_value'', SOptional (SNullable SNumber)),
      (''gap_pct'', SOptional (SNullable SNumber)),
      (''is_gap_up'', SOptional (SNullable SBoolean)),
      (''is_gap_down'', SOptional (SNullable SBoolean)),
      (''is_new_high'', SOptional (SNullable SBoolean)),
      (''is_new_low'', SOptional (SNullable SBoolean)),
      (''strength_state'', SOptional (SNullable (SEnum [''new_high'', ''strong_up'', ''flat'', ''strong_down'', ''new_low'']))),
      (''strength_score'', SOptional (SNullable SNumber)),
      (''strength_pct'', SOptional (SNullable SNumber)),
      (''updated_at'', SOptional (SNullable SNumber))]"

definition SpotLatestListSchema :: schema where
  "SpotLatestListSchema = SObject
     [(''ts'', SNumber),
      (''market_strength_score'', SOptional (SNullable SNumber)),
      (''market_strength_pct'', SOptional (SNullable SNumber)),
      (''market_strength_count'', SOptional (SInt Nonneg)),
      (''sector_strength'', SOptional (SpotSectorStrengthSchema)),
      (''market_strength_breakdown'', SOptional (SpotStrengthBreakdownSchema)),
      (''items'', SArray SpotLatestItemSchema)]"

definition SpotMarketDistributionBucketSchema :: schema where
  "SpotMarketDistributionBucketSchema = SObject
     [(''label'', SString False 1),
      (''lower_pct'', SNumber),
      (''upper_pct'', SNumber),
      (''count'', SInt Nonneg)]"

definition SpotMarketDistributionLatestSchema :: schema where
  "SpotMarketDistributionLatestSchema = SObject
     [(''ts'', SNumber),
      (''up_count'', SInt Nonneg),
      (''down_count'', SInt Nonneg),
      (''flat_count'', SInt Nonneg),
      (''total_count'', SInt Nonneg),
      (''trend_index'', SOptional (SNullable SNumber)),
      (''bucket_width_pct'', SInt Positive),
      (''distribution_buckets'', SArray SpotMarketDistributionBucketSchema)]"

definition SpotMarketDistributionSeriesItemSchema :: schema where
  "SpotMarketDistributionSeriesItemSchema = SObject
     [(''ts'', SNumber),
      (''up_count'', SInt Nonneg),
      (''down_count'', SInt Nonneg),
      (''flat_count'', SInt Nonneg),
      (''total_count'', SInt Nonneg),
      (''trend_index'', SOptional (SNullable SNumber))]"

definition SpotMarketDistributionSeriesSchema :: schema where
  "SpotMarketDistributionSeriesSchema = SObject
     [(''items'', SArray SpotMarketDistributionSeriesItemSchema)]"

lemmas serving_schemas =
  KbarCurrentSchema_def MetricLatestSchema_def HeartbeatSchema_def
  IndexContributionRankingSchema_def IndexContributionSectorSchema_def
  MarketSummaryLatestSchema_def OtcSummaryLatestSchema_def QuoteLatestSchema_def
  SpotLatestListSchema_def SpotMarketDistributionLatestSchema_def
  SpotMarketDistributionSeriesSchema_def

lemma conforms_object:
  "conforms (SObject fields) v \<Longrightarrow> is_object v \<and> (\<exists>r ps. v = Obj r ps)"
  by (cases v) auto

lemma conforms_field:
  "conforms (SObject fields) v \<Longrightarrow> (k, s) \<in> set fields \<Longrightarrow> conforms s (js_get v k)"
  by (cases v) auto

lemma conforms_number: "conforms SNumber v \<Longrightarrow> \<exists>x. v = Num x \<and> x \<noteq> NaN"
  by (cases v) auto

lemma conforms_string: "conforms (SString t n) v \<Longrightarrow> \<exists>s. v = Str s \<and> n \<le> length s \<and> (t \<longrightarrow> trim s = s)"
  by (cases v) auto

lemma zod_soundD: "zod_sound sp \<Longrightarrow> sp s d = Some v \<Longrightarrow> conforms s v"
  by (auto simp: zod_sound_def)

text \<open>What the collector and the store use of parsed values.\<close>

lemma parsed_kbar:
  assumes "zod_sound sp" and "sp KbarCurrentSchema d = Some v"
  shows "\<exists>r ps. v = Obj r ps" and "\<exists>s. js_get v ''code'' = Str s \<and> s \<noteq> []"
    and "\<exists>x. js_get v ''minute_ts'' = Num x \<and> x \<noteq> NaN"
proof -
  note c = zod_soundD [OF assms, unfolded KbarCurrentSchema_def]
  show "\<exists>r ps. v = Obj r ps" using conforms_object [OF c] by auto
  have "conforms (SString False 1) (js_get v ''code'')" by (rule conforms_field [OF c]) simp
  from conforms_string [OF this] show "\<exists>s. js_get v ''code'' = Str s \<and> s \<noteq> []" by auto
  have "conforms SNumber (js_get v ''minute_ts'')" by (rule conforms_field [OF c]) simp
  then show "\<exists>x. js_get v ''minute_ts'' = Num x \<and> x \<noteq> NaN" by (rule conforms_number)
qed

lemma parsed_number:
  assumes "zod_sound sp" and "sp s d = Some v" and "s = SObject fields" and "(k, SNumber) \<in> set fields"
  shows "\<exists>x. js_get v k = Num x \<and> x \<noteq> NaN"
  using conforms_field [of fields v k SNumber] zod_soundD [OF assms(1,2)] assms(3,4)
    conforms_number by blast

lemma parsed_ts:
  assumes "zod_sound sp"
  shows "sp HeartbeatSchema d = Some v \<Longrightarrow> \<exists>x. js_get v ''ts'' = Num x \<and> x \<noteq> NaN"
    and "sp IndexContributionSectorSchema d = Some v \<Longrightarrow> \<exists>x. js_get v ''ts'' = Num x \<and> x \<noteq> NaN"
  by (rule parsed_number [OF assms _ HeartbeatSchema_def] parsed_number [OF assms _ IndexContributionSectorSchema_def];
      simp)+

lemma parsed_series:
  assumes "zod_sound sp" and "sp SpotMarketDistributionSeriesSchema d = Some v"
  shows "\<exists>r xs. js_get v ''items'' = Arr r xs"
proof -
  note c = zod_soundD [OF assms, unfolded SpotMarketDistributionSeriesSchema_def]
  have "conforms (SArray SpotMarketDistributionSeriesItemSchema) (js_get v ''items'')"
    by (rule conforms_field [OF c]) simp
  then show ?thesis by (cases "js_get v ''items''") auto
qed

end
