(* ===== verification/Analytics.thy ===== *)
theory Analytics
  imports ApiClient ServingSchemas
begin

text \<open>
  The analytics feature: the requests of \<open>features/analytics/api/analytics.ts\<close> with the schemas of
  \<open>features/analytics/api/schemas.ts\<close>, the cache keys of \<open>features/analytics/lib/query-keys.ts\<close> and
  the filters of \<open>features/analytics/validation/filter-schema.ts\<close>. The laws say that an answer is
  either an error of the client's own kind or data that conforms to its schema, and that the server
  reads exactly the parameters the page asked for.
\<close>

section \<open>Schemas\<close>

definition AnalyticsRegistryItemSchema :: schema where
  "AnalyticsRegistryItemSchema = SObject
     [(''id'', SString False 0),
      (''label'', SOptional (SString False 0)),
      (''formula'', SOptional (SString False 0)),
      (''description'', SOptional (SString False 0))]"

definition AnalyticsEventsRegistryResponseSchema :: schema where
  "AnalyticsEventsRegistryResponseSchema = SObject [(''events'', SArray AnalyticsRegistryItemSchema)]"

definition AnalyticsMetricsRegistryResponseSchema :: schema where
  "AnalyticsMetricsRegistryResponseSchema = SObject [(''metrics'', SArray AnalyticsRegistryItemSchema)]"

definition EventStatsResponseSchema :: schema where
  "EventStatsResponseSchema = SObject
     [(''event_id'', SString False 0),
      (''code'', SOptional (SString False 0)),
      (''start_date'', SOptional (SString False 0)),
      (''end_date'', SOptional (SString False 0)),
      (''sample_count'', SNumber),
      (''up_count'', SOptional SNumber),
      (''down_count'', SOptional SNumber),
      (''flat_count'', SOptional SNumber),
      (''up_probability'', SNumber),
      (''down_probability'', SNumber),
      (''flat_probability'', SNumber),
      (''avg_next_day_return'', SNumber),
      (''median_next_day_return'', SOptional SNumber),
      (''avg_next_day_range'', SNumber),
      (''avg_next_day_gap'', SOptional SNumber),
      (''computed_at'', SOptional (SString False 0)),
      (''version'', SOptional (SUnion (SString False 0) SNumber)),
      (''histogram'', SOptional (SObject
         [(''bins'', SArray (SString False 0)), (''counts'', SArray SNumber)]))]"

definition EventStatsListResponseSchema :: schema where
  "EventStatsListResponseSchema = SObject [(''items'', SArray EventStatsResponseSchema)]"

definition EventSampleItemSchema :: schema where
  "EventSampleItemSchema = SObject
     [(''trade_date'', SString False 0),
      (''next_day_return'', SNumber),
      (''next_day_category'', SString False 0)]"

definition EventSamplesResponseSchema :: schema where
  "EventSamplesResponseSchema = SObject
     [(''items'', SArray EventSampleItemSchema),
      (''page'', SInt AnyInt),
      (''page_size'', SInt AnyInt),
      (''total'', SInt AnyInt)]"

definition DistributionStatsResponseSchema :: schema where
  "DistributionStatsResponseSchema = SObject
     [(''metric_id'', SString False 0),
      (''sample_count'', SNumber),
      (''mean'', SNumber),
      (''median'', SNumber),
      (''min'', SNumber),
      (''max'', SNumber),
      (''p75'', SNumber),
      (''p90'', SNumber),
      (''p95'', SNumber),
      (''version'', SOptional (SUnion (SString False 0) SNumber)),
      (''computed_at'', SOptional (SString False 0)),
      (''histogram_json'', SOptional (SObject
         [(''bins'', SArray (SUnion (SString False 0) SNumber)),
          (''counts'', SArray SNumber),
          (''min'', SOptional SNumber),
          (''max'', SOptional SNumber),
          (''bucket_size'', SOptional SNumber)]))]"

section \<open>Requests\<close>

text \<open>
  What a request depends on beside its arguments: the client, \<open>String\<close> on numbers and the parser
  of the schema library. A call returns the request sent, if any, and its result.
\<close>

record analytics_env = api_env +
  an_fetch :: "http_request \<Rightarrow> fetched"
  an_show_num :: "jsnum \<Rightarrow> string"
  an_safeParse :: "schema \<Rightarrow> jsval \<Rightarrow> jsval option"

record event_stats_params =
  es_eventId :: string
  es_code :: string
  es_startDate :: "string option"
  es_endDate :: "string option"
  es_version :: "string option"
  es_flatThreshold :: jsnum

record event_samples_params =
  ep_eventId :: string
  ep_code :: string
  ep_startDate :: "string option"
  ep_endDate :: "string option"
  ep_page :: jsnum
  ep_pageSize :: jsnum
  ep_sort :: string
  ep_flatThreshold :: jsnum

record distribution_params =
  dp_metricId :: string
  dp_code :: string
  dp_startDate :: "string option"
  dp_endDate :: "string option"
  dp_version :: "string option"

definition authHeaders :: "string option \<Rightarrow> (string, string) dict" where
  "authHeaders token = (case token of None \<Rightarrow> [] | Some t \<Rightarrow> if t = [] then [] else bearer t)"

definition buildQuery :: "(string \<times> string option) list \<Rightarrow> string" where
  "buildQuery params = search_string
     (fold (\<lambda>(key, value) query. case value of None \<Rightarrow> query | Some v \<Rightarrow> dict_set query key v) params [])"

definition parseOrThrow :: "analytics_env \<Rightarrow> schema \<Rightarrow> jsval \<Rightarrow> js_error + jsval" where
  "parseOrThrow env s payload =
     (case an_safeParse env s payload of
        None \<Rightarrow> Inl (ApiError ''analytics_invalid_response'' 500)
      | Some v \<Rightarrow> Inr v)"

definition spread_with :: "jsval \<Rightarrow> string \<Rightarrow> jsval \<Rightarrow> jsval" where
  "spread_with v key x = Obj 0 (dict_set (own_props v) key x)"

definition normalizeItem :: "jsval \<Rightarrow> jsval" where
  "normalizeItem item =
     (if \<not> is_object item then item
      else case js_get item ''id'' of
        Str _ \<Rightarrow> item
      | _ \<Rightarrow>
          (let id = (case js_get item ''event_id'' of
                       Str s \<Rightarrow> Some s
                     | _ \<Rightarrow> the_str (js_get item ''metric_id''))
           in case id of
                None \<Rightarrow> item
              | Some s \<Rightarrow> if s = [] then item else spread_with item ''id'' (Str s)))"

definition normalizeRegistryPayload :: "jsval \<Rightarrow> string \<Rightarrow> jsval" where
  "normalizeRegistryPayload payload key =
     (if \<not> is_object payload then payload
      else case js_get payload key of
        Arr _ items \<Rightarrow> spread_with payload key (Arr 0 (map normalizeItem items))
      | _ \<Rightarrow> (case js_get payload ''items'' of
                Arr _ items \<Rightarrow> Obj 0 [(key, Arr 0 (map normalizeItem items))]
              | _ \<Rightarrow> payload))"

definition normalizeAnalyticsError :: "js_error \<Rightarrow> js_error" where
  "normalizeAnalyticsError e =
     (case e of ApiError _ _ \<Rightarrow> e | _ \<Rightarrow> ApiError ''analytics_request_failed'' 500)"

text \<open>\<open>getJson(path, ...).then(f).catch(normalizeAnalyticsError)\<close>\<close>

definition analytics_call ::
  "analytics_env \<Rightarrow> string option \<Rightarrow> string \<Rightarrow> (jsval \<Rightarrow> js_error + jsval)
     \<Rightarrow> http_request option \<times> (js_error + jsval)" where
  "analytics_call env token path f =
     (let (sent, result) = getJson (api_env.truncate env) (an_fetch env) path (authHeaders token)
      in (sent, case (case result of Inl e \<Rightarrow> Inl e | Inr payload \<Rightarrow> f payload) of
                  Inl e \<Rightarrow> Inl (normalizeAnalyticsError e)
                | Inr v \<Rightarrow> Inr v))"

definition getAnalyticsEvents ::
  "analytics_env \<Rightarrow> string option \<Rightarrow> http_request option \<times> (js_error + jsval)" where
  "getAnalyticsEvents env token =
     analytics_call env token ''/analytics/events'' (\<lambda>payload.
       parseOrThrow env AnalyticsEventsRegistryResponseSchema (normalizeRegistryPayload payload ''events''))"

definition getAnalyticsMetrics ::
  "analytics_env \<Rightarrow> string option \<Rightarrow> http_request option \<times> (js_error + jsval)" where
  "getAnalyticsMetrics env token =
     analytics_call env token ''/analytics/metrics'' (\<lambda>payload.
       parseOrThrow env AnalyticsMetricsRegistryResponseSchema (normalizeRegistryPayload payload ''metrics''))"

definition or_latest :: "string option \<Rightarrow> string" where
  "or_latest version = (case version of None \<Rightarrow> ''latest'' | Some v \<Rightarrow> v)"

definition getEventStats ::
  "analytics_env \<Rightarrow> string option \<Rightarrow> event_stats_params \<Rightarrow> http_request option \<times> (js_error + jsval)" where
  "getEventStats env token p =
     (let query = buildQuery
            [(''code'', Some (es_code p)),
             (''start_date'', es_startDate p),
             (''end_date'', es_endDate p),
             (''version'', Some (or_latest (es_version p))),
             (''flat_threshold'', Some (an_show_num env (es_flatThreshold p)))]
      in analytics_call env token
           (''/analytics/events/'' @ encodeURIComponent (es_eventId p) @ ''/stats?'' @ query)
           (\<lambda>payload.
              case (if is_object payload then js_get payload ''items'' else Undef) of
                Arr _ _ \<Rightarrow> parseOrThrow env EventStatsListResponseSchema payload
              | _ \<Rightarrow> (case parseOrThrow env EventStatsResponseSchema payload of
                        Inl e \<Rightarrow> Inl e
                      | Inr single \<Rightarrow> Inr (Obj 0 [(''items'', Arr 0 [single])]))))"

definition getEventSamples ::
  "analytics_env \<Rightarrow> string option \<Rightarrow> event_samples_params \<Rightarrow> http_request option \<times> (js_error + jsval)" where
  "getEventSamples env token p =
     (let query = buildQuery
            [(''code'', Some (ep_code p)),
             (''start_date'', ep_startDate p),
             (''end_date'', ep_endDate p),
             (''page'', Some (an_show_num env (ep_page p))),
             (''page_size'', Some (an_show_num env (ep_pageSize p))),
             (''sort'', Some (ep_sort p)),
             (''flat_threshold'', Some (an_show_num env (ep_flatThreshold p)))]
      in analytics_call env token
           (''/analytics/events/'' @ encodeURIComponent (ep_eventId p) @ ''/samples?'' @ query)
           (parseOrThrow env EventSamplesResponseSchema))"

definition getDistributionStats ::
  "analytics_env \<Rightarrow> string option \<Rightarrow> distribution_params \<Rightarrow> http_request option \<times> (js_error + jsval)" where
  "getDistributionStats env token p =
     (let query = buildQuery
            [(''code'', Some (dp_code p)),
             (''start_date'', dp_startDate p),
             (''end_date'', dp_endDate p),
             (''version'', Some (or_latest (dp_version p)))]
      in analytics_call env token
           (''/analytics/distributions/'' @ encodeURIComponent (dp_metricId p) @ ''?'' @ query)
           (parseOrThrow env DistributionStatsResponseSchema))"

section \<open>What the callers get\<close>

definition supplied :: "(string \<times> string option) list \<Rightarrow> (string \<times> string) list" where
  "supplied params = concat (map (\<lambda>(k, v). case v of None \<Rightarrow> [] | Some x \<Rightarrow> [(k, x)]) params)"

lemma supplied_simps [simp]:
  "supplied [] = []"
  "supplied ((k, None) # ps) = supplied ps"
  "supplied ((k, Some x) # ps) = (k, x) # supplied ps"
  by (simp_all add: supplied_def)

lemma dict_set_new: "k \<notin> fst ` set d \<Longrightarrow> dict_set d k v = d @ [(k, v)]"
  by (induction d) auto

lemma buildQuery_supplied:
  assumes "distinct (map fst params)"
  shows "buildQuery params = search_string (supplied params)"
proof -
  let ?f = "\<lambda>(key, value) query. case value of None \<Rightarrow> query | Some v \<Rightarrow> dict_set query key v"
  have "fst ` set q \<inter> fst ` set params = {} \<Longrightarrow> fold ?f params q = q @ supplied params" for q :: "(string, string) dict"
    using assms
  proof (induction params arbitrary: q)
    case (Cons p params)
    obtain k v where p: "p = (k, v)" by force
    show ?case
    proof (cases v)
      case None
      with Cons p show ?thesis by simp
    next
      case (Some x)
      have "dict_set q k x = q @ [(k, x)]" using Cons.prems by (intro dict_set_new) (auto simp: p)
      then show ?thesis using Cons.IH [of "q @ [(k, x)]"] Cons.prems by (auto simp: p Some)
    qed
  qed simp
  from this [of "[]"] show ?thesis by (simp add: buildQuery_def)
qed

lemma analytics_call_sent:
  "fst (analytics_call env token path f) = Some rq \<Longrightarrow>
    rq_method rq = ''GET'' \<and> rq_url rq = API_BASE_URL env @ path \<and> rq_headers rq = authHeaders token"
  by (auto simp: analytics_call_def getJson_def request_def api_env.truncate_def Let_def split: if_splits)

text \<open>
  The routes that answer, of \<open>apps/backend/app/routes/analytics.py\<close>; the identifiers that reach them.
\<close>

definition event_stats_route :: server_route where
  "event_stats_route = [Some ''analytics'', Some ''events'', None, Some ''stats'']"

definition event_samples_route :: server_route where
  "event_samples_route = [Some ''analytics'', Some ''events'', None, Some ''samples'']"

definition distribution_route :: server_route where
  "distribution_route = [Some ''analytics'', Some ''distributions'', None]"

text \<open>
  C29. The server reads what the page asked: when one of the three parametrised requests is sent for an
  identifier that is not empty, has no slash and is not one or two dots, the server's route for it
  matches, its parameter is the identifier, whatever other characters it contains, and the query read
  back is the list of the given parameters.
\<close>

theorem analytics_url_read_back:
  "(fst (getEventStats env token p) = Some rq \<and> plain_segment (es_eventId p) \<and> es_eventId p \<noteq> [] \<longrightarrow>
      (\<exists>path. rq_url rq = API_BASE_URL env @ path
         \<and> server_reads event_stats_route path = Some ([es_eventId p],
             supplied [(''code'', Some (es_code p)), (''start_date'', es_startDate p), (''end_date'', es_endDate p),
               (''version'', Some (or_latest (es_version p))),
               (''flat_threshold'', Some (an_show_num env (es_flatThreshold p)))])))
   \<and> (fst (getEventSamples env token q) = Some rq \<and> plain_segment (ep_eventId q) \<and> ep_eventId q \<noteq> [] \<longrightarrow>
      (\<exists>path. rq_url rq = API_BASE_URL env @ path
         \<and> server_reads event_samples_route path = Some ([ep_eventId q],
             supplied [(''code'', Some (ep_code q)), (''start_date'', ep_startDate q), (''end_date'', ep_endDate q),
               (''page'', Some (an_show_num env (ep_page q))), (''page_size'', Some (an_show_num env (ep_pageSize q))),
               (''sort'', Some (ep_sort q)), (''flat_threshold'', Some (an_show_num env (ep_flatThreshold q)))])))
   \<and> (fst (getDistributionStats env token d) = Some rq \<and> plain_segment (dp_metricId d) \<and> dp_metricId d \<noteq> [] \<longrightarrow>
      (\<exists>path. rq_url rq = API_BASE_URL env @ path
         \<and> server_reads distribution_route path = Some ([dp_metricId d],
             supplied [(''code'', Some (dp_code d)), (''start_date'', dp_startDate d), (''end_date'', dp_endDate d),
               (''version'', Some (or_latest (dp_version d)))])))"
proof -
  note sent = analytics_call_sent [THEN conjunct2, THEN conjunct1]
  have paths:
    "''/analytics/events/'' @ encodeURIComponent i @ ''/stats?'' @ x
      = url_path [''analytics'', ''events'', i, ''stats''] @ CHR ''?'' # x"
    "''/analytics/events/'' @ encodeURIComponent i @ ''/samples?'' @ x
      = url_path [''analytics'', ''events'', i, ''samples''] @ CHR ''?'' # x"
    "''/analytics/distributions/'' @ encodeURIComponent i @ ''?'' @ x
      = url_path [''analytics'', ''distributions'', i] @ CHR ''?'' # x" for i x
    by (simp_all add: url_path_def)
  have reads:
    "plain_segment i \<and> i \<noteq> [] \<Longrightarrow> server_reads event_stats_route
       (url_path [''analytics'', ''events'', i, ''stats''] @ CHR ''?'' # search_string ps) = Some ([i], ps)"
    "plain_segment i \<and> i \<noteq> [] \<Longrightarrow> server_reads event_samples_route
       (url_path [''analytics'', ''events'', i, ''samples''] @ CHR ''?'' # search_string ps) = Some ([i], ps)"
    "plain_segment i \<and> i \<noteq> [] \<Longrightarrow> server_reads distribution_route
       (url_path [''analytics'', ''distributions'', i] @ CHR ''?'' # search_string ps) = Some ([i], ps)" for i ps
    by (subst server_reads_def, subst read_url_path,
        simp add: plain_segment_def, simp add: event_stats_route_def event_samples_route_def distribution_route_def)+
  show ?thesis
    unfolding getEventStats_def getEventSamples_def getDistributionStats_def Let_def
    by (intro conjI impI; elim conjE; drule sent; simp only: paths; subst buildQuery_supplied)
       (auto simp: reads intro!: exI)
qed

definition offline_env :: analytics_env where
  "offline_env = \<lparr>API_BASE_URL = ''/api'', env_protocol = ''https:'', env_prod = True, env_url_host = (\<lambda>_. None),
     an_fetch = (\<lambda>_. Rejected AbortError), an_show_num = (\<lambda>_. ''0''), an_safeParse = strict_parse\<rparr>"

definition distribution_of :: "string \<Rightarrow> distribution_params" where
  "distribution_of i = \<lparr>dp_metricId = i, dp_code = ''TXF'', dp_startDate = None, dp_endDate = None, dp_version = None\<rparr>"

theorem analytics_url_read_back_witness:
  "\<exists>rq path. fst (getDistributionStats offline_env None (distribution_of ''a?b #c'')) = Some rq
    \<and> rq_url rq = ''/api'' @ path
    \<and> server_reads distribution_route path = Some ([''a?b #c''], [(''code'', ''TXF''), (''version'', ''latest'')])"
proof -
  let ?d = "distribution_of ''a?b #c''"
  have "fst (getDistributionStats offline_env None ?d) \<noteq> None"
    by (simp add: offline_env_def getDistributionStats_def analytics_call_def getJson_def request_def Let_def
        shouldBlockInsecureTransport_def absolute_http_def ascii_lower_def api_env.truncate_def)
  then obtain rq where "fst (getDistributionStats offline_env None ?d) = Some rq" by blast
  with analytics_url_read_back [of offline_env None _ rq _ ?d] show ?thesis
    by (simp add: or_latest_def distribution_of_def plain_segment_def offline_env_def)
qed

text \<open>
  The others do not arrive: two dots are resolved before the request is sent, and a slash, though
  encoded, is a separator again where the route is looked up.
\<close>

lemma dots_and_slashes_lost:
  "server_reads event_stats_route (''/analytics/events/'' @ encodeURIComponent ''..'' @ ''/stats?code=TXF'') = None"
  "server_reads distribution_route (''/analytics/distributions/'' @ encodeURIComponent ''..'' @ ''?code=TXF'') = None"
  "server_reads distribution_route (''/analytics/distributions/'' @ encodeURIComponent ''a/b'' @ ''?code=TXF'') = None"
  by code_simp+

lemma empty_identifier_lost:
  "server_reads event_stats_route (''/analytics/events/'' @ encodeURIComponent [] @ ''/stats?code=TXF'') = None"
  "server_reads event_samples_route (''/analytics/events/'' @ encodeURIComponent [] @ ''/samples?code=TXF'') = None"
  "server_reads distribution_route (''/analytics/distributions/'' @ encodeURIComponent [] @ ''?code=TXF'') = None"
  by code_simp+

lemma analytics_call_error:
  "snd (analytics_call env token path f) = Inl e \<Longrightarrow> \<exists>code status. e = ApiError code status"
  by (auto simp: analytics_call_def normalizeAnalyticsError_def split: prod.splits sum.splits js_error.splits)

lemma analytics_call_data:
  assumes "snd (analytics_call env token path f) = Inr v"
  shows "\<exists>payload. f payload = Inr v"
  using assms by (auto simp: analytics_call_def split: prod.splits sum.splits)

lemma parseOrThrow_conforms:
  "zod_sound (an_safeParse env) \<Longrightarrow> parseOrThrow env s payload = Inr v \<Longrightarrow> conforms s v"
  by (auto simp: parseOrThrow_def zod_sound_def split: option.splits)

text \<open>
  C28. What a caller gets: every analytics request ends in an error of the client's own kind, the one
  the pages can read a status from, or in data of the shape its schema describes; a single statistic
  arrives as a list of one.
\<close>

theorem analytics_answers:
  assumes "zod_sound (an_safeParse env)"
    and "(r, s) \<in> {(getAnalyticsEvents env token, AnalyticsEventsRegistryResponseSchema),
                    (getAnalyticsMetrics env token, AnalyticsMetricsRegistryResponseSchema),
                    (getEventStats env token p, EventStatsListResponseSchema),
                    (getEventSamples env token q, EventSamplesResponseSchema),
                    (getDistributionStats env token d, DistributionStatsResponseSchema)}"
  shows "case snd r of Inl e \<Rightarrow> \<exists>code status. e = ApiError code status | Inr v \<Rightarrow> conforms s v"
proof (cases "snd r")
  case (Inl e)
  with assms(2) have "\<exists>code status. e = ApiError code status"
    by (auto simp: getAnalyticsEvents_def getAnalyticsMetrics_def getEventStats_def getEventSamples_def
        getDistributionStats_def Let_def dest: analytics_call_error)
  with Inl show ?thesis by simp
next
  case (Inr v)
  have single: "conforms EventStatsListResponseSchema (Obj 0 [(''items'', Arr 0 [x])])"
    if "conforms EventStatsResponseSchema x" for x
    using that by (simp add: EventStatsListResponseSchema_def)
  have "conforms s v"
    using assms(2) Inr parseOrThrow_conforms [OF assms(1)] single
    by (auto simp: getAnalyticsEvents_def getAnalyticsMetrics_def getEventStats_def getEventSamples_def
        getDistributionStats_def Let_def dest!: analytics_call_data split: jsval.splits sum.splits)
  with Inr show ?thesis by simp
qed

definition demo_analytics :: "jsval option \<Rightarrow> analytics_env" where
  "demo_analytics answer = \<lparr>API_BASE_URL = ''/api'', env_protocol = ''https:'', env_prod = True,
     env_url_host = (\<lambda>_. None), an_fetch = (\<lambda>_. Responded \<lparr>rs_status = 200, rs_json = answer\<rparr>),
     an_show_num = (\<lambda>_. ''0''), an_safeParse = strict_parse\<rparr>"

lemma demo_call:
  "snd (analytics_call (demo_analytics (Some v)) token path f)
    = (case f v of Inl e \<Rightarrow> Inl (normalizeAnalyticsError e) | Inr x \<Rightarrow> Inr x)"
  by (simp add: analytics_call_def demo_analytics_def getJson_def request_def Let_def response_ok_def
      shouldBlockInsecureTransport_def absolute_http_def ascii_lower_def api_env.truncate_def)

theorem analytics_answers_witness:
  "\<exists>v. snd (getAnalyticsEvents (demo_analytics (Some (Obj 1 [(''items'', Arr 2 [Obj 3 [(''event_id'', Str ''gap'')]])]))) None) = Inr v
    \<and> conforms AnalyticsEventsRegistryResponseSchema v"
proof -
  let ?env = "demo_analytics (Some (Obj 1 [(''items'', Arr 2 [Obj 3 [(''event_id'', Str ''gap'')]])]))"
  have "\<exists>v. snd (getAnalyticsEvents ?env None) = Inr v"
    unfolding getAnalyticsEvents_def demo_call
    by (simp add: normalizeRegistryPayload_def normalizeItem_def spread_with_def parseOrThrow_def demo_analytics_def
        strict_parse_def AnalyticsEventsRegistryResponseSchema_def AnalyticsRegistryItemSchema_def Let_def
        object_entries_def array_index_def char_digit_def)
  moreover have "zod_sound (an_safeParse ?env)" by (simp add: demo_analytics_def)
  ultimately show ?thesis
    using analytics_answers [of ?env "getAnalyticsEvents ?env None" AnalyticsEventsRegistryResponseSchema None] by force
qed

text \<open>Both historical shapes of a registry are read as one, and what is already normal stays as it is.\<close>

lemma normalizeItem_idem: "normalizeItem (normalizeItem item) = normalizeItem item"
proof (cases "normalizeItem item = item")
  case False
  then obtain s where "normalizeItem item = spread_with item ''id'' (Str s)"
    by (auto simp: normalizeItem_def Let_def split: jsval.splits option.splits if_splits)
  then show ?thesis by (simp add: spread_with_def normalizeItem_def)
qed simp

lemma legacy_registry:
  assumes "s \<noteq> []" and "key \<in> {''event_id'', ''metric_id''}"
  shows "normalizeRegistryPayload (Obj a [(''items'', Arr b [Obj c [(key, Str s)]])]) ''events''
    = Obj 0 [(''events'', Arr 0 [Obj 0 [(key, Str s), (''id'', Str s)]])]"
  using assms by (auto simp: normalizeRegistryPayload_def normalizeItem_def spread_with_def Let_def
      object_entries_def array_index_def char_digit_def)

end
