(* ===== verification/AnalyticsPages.thy ===== *)
theory AnalyticsPages
  imports Analytics
begin

text \<open>
  The analytics pages as state machines over what the user does and what the query cache holds:
  \<open>features/analytics/pages/EventAnalyticsPage.tsx\<close> with its filters and paging,
  \<open>features/analytics/validation/filter-schema.ts\<close>, \<open>features/analytics/lib/query-keys.ts\<close>, and the
  histogram of \<open>features/dashboard/pages/HistoricalAmplitudeDistributionPage.tsx\<close>.

  The query cache (React Query) is a third-party library: what it holds for a key is an argument
  of the steps that read it.
\<close>

section \<open>Comparing strings\<close>

text \<open>\<open>s < t\<close> on strings: lexicographic order of the code units.\<close>

fun str_less :: "string \<Rightarrow> string \<Rightarrow> bool" where
  "str_less _ [] = False"
| "str_less [] (_ # _) = True"
| "str_less (c # cs) (d # ds) =
     (let m = of_char c :: nat; n = of_char d in m < n \<or> m = n \<and> str_less cs ds)"

definition digits :: "string \<Rightarrow> bool" where
  "digits s \<longleftrightarrow> (\<forall>c \<in> set s. char_digit c \<noteq> None)"

fun digits_number :: "string \<Rightarrow> nat" where
  "digits_number [] = 0"
| "digits_number (c # s) = 10 ^ length s * (of_char c - 48) + digits_number s"

text \<open>\<open>/^\d{4}-\d{2}-\d{2}$/\<close>, and the date it spells.\<close>

definition iso_shape :: "string \<Rightarrow> bool" where
  "iso_shape s \<longleftrightarrow> length s = 10 \<and> s ! 4 = CHR ''-'' \<and> s ! 7 = CHR ''-''
     \<and> digits (take 4 s) \<and> digits (take 2 (drop 5 s)) \<and> digits (drop 8 s)"

definition iso_date :: "string \<Rightarrow> nat" where
  "iso_date s = 10000 * digits_number (take 4 s) + 100 * digits_number (take 2 (drop 5 s)) + digits_number (drop 8 s)"

lemma digits_number_less: "digits s \<Longrightarrow> digits_number s < 10 ^ length s"
proof (induction s)
  case (Cons c s)
  have "(of_char c :: nat) - 48 \<le> 9" and "digits s"
    using Cons.prems by (auto simp: digits_def char_digit_def Let_def split: if_splits)
  then have "10 ^ length s * (of_char c - 48) \<le> 10 ^ length s * (9::nat)" "digits_number s < 10 ^ length s"
    using Cons.IH by simp_all
  moreover have "(10::nat) ^ length (c # s) = 10 ^ length s * 9 + 10 ^ length s" by simp
  ultimately show ?case unfolding digits_number.simps by linarith
qed simp

lemma leading_digit:
  fixes a b e x y :: nat
  assumes "a < b" "x < e" shows "e * a + x < e * b + y"
proof -
  have "e * a + e \<le> e * b" using assms(1) by (metis Suc_leI add.commute mult_Suc_right mult_le_mono2)
  with assms(2) show ?thesis by linarith
qed

lemma str_less_append:
  "length s = length s' \<Longrightarrow> str_less (s @ t) (s' @ t') \<longleftrightarrow> str_less s s' \<or> s = s' \<and> str_less t t'"
proof (induction s s' rule: list_induct2)
  case (Cons c s d s')
  then show ?case by (auto simp: Let_def)
qed simp

lemma str_less_digits:
  "length s = length t \<Longrightarrow> digits s \<Longrightarrow> digits t \<Longrightarrow>
    (str_less s t \<longleftrightarrow> digits_number s < digits_number t) \<and> (s = t \<longleftrightarrow> digits_number s = digits_number t)"
proof (induction s t rule: list_induct2)
  case (Cons c s d t)
  let ?c = "(of_char c :: nat)" and ?d = "(of_char d :: nat)"
  have cd: "48 \<le> ?c" "48 \<le> ?d" and ds: "digits s" "digits t"
    using Cons.prems by (auto simp: digits_def char_digit_def Let_def split: if_splits)
  have less: "digits_number s < 10 ^ length t" "digits_number t < 10 ^ length t"
    using digits_number_less [OF ds(1)] digits_number_less [OF ds(2)] Cons.hyps by simp_all
  consider (lt) "?c < ?d" | (eq) "?c = ?d" | (gt) "?d < ?c" by linarith
  then show ?case
  proof cases
    case lt
    then have "?c - 48 < ?d - 48" using cd by linarith
    from leading_digit [OF this less(1)]
    have "digits_number (c # s) < digits_number (d # t)" using Cons.hyps by simp
    moreover have "c \<noteq> d" "str_less (c # s) (d # t)" using lt by (auto simp: Let_def)
    ultimately show ?thesis by (simp only: less_imp_neq list.inject) simp
  next
    case eq
    then have "c = d" by simp
    then show ?thesis using Cons.IH [OF ds] Cons.hyps by (simp add: Let_def)
  next
    case gt
    then have "?d - 48 < ?c - 48" using cd by linarith
    from leading_digit [OF this less(2)]
    have "digits_number (d # t) < digits_number (c # s)" using Cons.hyps by simp
    moreover have "c \<noteq> d" "\<not> str_less (c # s) (d # t)" using gt by (auto simp: Let_def)
    ultimately show ?thesis by (simp only: list.inject) simp
  qed
qed simp

lemma iso_parts:
  assumes "iso_shape s"
  shows "s = take 4 s @ ''-'' @ take 2 (drop 5 s) @ ''-'' @ drop 8 s"
proof -
  have "s = take 4 s @ s ! 4 # drop 5 s" using assms id_take_nth_drop [of 4 s] by (simp add: iso_shape_def)
  moreover have "drop 5 s = take 2 (drop 5 s) @ s ! 7 # drop 8 s"
    using assms id_take_nth_drop [of 2 "drop 5 s"] by (simp add: iso_shape_def)
  ultimately show ?thesis using assms by (simp add: iso_shape_def)
qed

lemma iso_date_order:
  assumes s: "iso_shape s" and t: "iso_shape t"
  shows "str_less s t \<longleftrightarrow> iso_date s < iso_date t"
proof -
  let ?y = "\<lambda>s. digits_number (take 4 s)" and ?m = "\<lambda>s. digits_number (take 2 (drop 5 s))" and ?d = "\<lambda>s. digits_number (drop 8 s)"
  have len: "length (take 4 s) = length (take 4 t)" "length (take 2 (drop 5 s)) = length (take 2 (drop 5 t))"
    "length (drop 8 s) = length (drop 8 t)"
    using s t by (simp_all add: iso_shape_def)
  have bounds: "?m x < 100 \<and> ?d x < 100" if "iso_shape x" for x
    using that digits_number_less [of "take 2 (drop 5 x)"] digits_number_less [of "drop 8 x"]
    by (simp add: iso_shape_def power2_eq_square)
  have "str_less s t \<longleftrightarrow> ?y s < ?y t \<or> ?y s = ?y t \<and> (?m s < ?m t \<or> ?m s = ?m t \<and> ?d s < ?d t)"
    using str_less_digits [OF len(1)] str_less_digits [OF len(2)] str_less_digits [OF len(3)] s t
    by (subst iso_parts [OF s], subst iso_parts [OF t])
       (simp add: str_less_append [OF len(1)] str_less_append [OF len(2)] iso_shape_def)
  then show ?thesis using bounds [OF s] bounds [OF t] by (auto simp: iso_date_def)
qed

section \<open>Filters and cache keys\<close>

record analytics_filter =
  af_code :: string
  af_startDate :: string
  af_endDate :: string
  af_flatThreshold :: rat
  af_page :: rat
  af_pageSize :: rat
  af_sort :: string

definition analyticsFilterSchema :: "analytics_filter \<Rightarrow> bool" where
  "analyticsFilterSchema f \<longleftrightarrow>
     af_code f \<noteq> [] \<and> iso_shape (af_startDate f) \<and> iso_shape (af_endDate f)
     \<and> -10000 \<le> af_flatThreshold f \<and> af_flatThreshold f \<le> 10000
     \<and> af_page f \<in> \<int> \<and> 1 \<le> af_page f
     \<and> af_pageSize f \<in> \<int> \<and> 1 \<le> af_pageSize f \<and> af_pageSize f \<le> 500
     \<and> af_sort f \<noteq> []
     \<and> \<not> str_less (af_endDate f) (af_startDate f)"

lemma filter_dates_in_order: "analyticsFilterSchema f \<Longrightarrow> iso_date (af_startDate f) \<le> iso_date (af_endDate f)"
  by (auto simp: analyticsFilterSchema_def iso_date_order not_less)

record page_filter =
  pf_code :: string
  pf_eventId :: string
  pf_startDate :: string
  pf_endDate :: string
  pf_flatThreshold :: jsnum

definition resetPageOnFilterChange :: "page_filter \<Rightarrow> page_filter \<Rightarrow> int \<Rightarrow> int" where
  "resetPageOnFilterChange previous next' currentPage =
     (let same = pf_code previous = pf_code next' \<and> pf_eventId previous = pf_eventId next'
            \<and> pf_startDate previous = pf_startDate next' \<and> pf_endDate previous = pf_endDate next'
            \<and> num_seq (pf_flatThreshold previous) (pf_flatThreshold next')
      in if same then currentPage else 1)"

lemma reset_page:
  "resetPageOnFilterChange f g p = (if f = g \<and> pf_flatThreshold f \<noteq> NaN then p else 1)"
proof -
  have "num_seq x y \<longleftrightarrow> x = y \<and> x \<noteq> NaN" for x y by (cases x; cases y) auto
  then show ?thesis
    by (auto simp: resetPageOnFilterChange_def Let_def intro: page_filter.equality)
qed

definition buildEventStatsQueryKey :: "event_stats_params \<Rightarrow> string \<times> event_stats_params" where
  "buildEventStatsQueryKey p = (''analytics-event-stats'', p)"

definition buildEventSamplesQueryKey :: "event_samples_params \<Rightarrow> string \<times> event_samples_params" where
  "buildEventSamplesQueryKey p = (''analytics-event-samples'', p)"

definition buildDistributionQueryKey :: "distribution_params \<Rightarrow> string \<times> distribution_params" where
  "buildDistributionQueryKey p = (''analytics-distribution'', p)"

section \<open>The event page\<close>

record event_page =
  ev_filter :: page_filter
  ev_page :: int
  ev_sort :: string

record samples =
  sm_items :: "jsval list"
  sm_total :: int

record filter_change =
  fc_code :: "string option"
  fc_startDate :: "string option"
  fc_endDate :: "string option"
  fc_eventId :: "string option"
  fc_flatThreshold :: "jsnum option"

definition pageSize :: int where "pageSize = 100"

definition initial_event_page :: event_page where
  "initial_event_page =
     \<lparr>ev_filter = \<lparr>pf_code = ''TXF'', pf_eventId = [], pf_startDate = ''2026-01-01'', pf_endDate = ''2026-01-31'',
                   pf_flatThreshold = Fin 0\<rparr>,
      ev_page = 1, ev_sort = ''-trade_date''\<rparr>"

definition hasInvalidDateRange :: "event_page \<Rightarrow> bool" where
  "hasInvalidDateRange st \<longleftrightarrow> str_less (pf_endDate (ev_filter st)) (pf_startDate (ev_filter st))"

definition queries_enabled :: "event_page \<Rightarrow> bool" where
  "queries_enabled st \<longleftrightarrow> pf_eventId (ev_filter st) \<noteq> [] \<and> \<not> hasInvalidDateRange st"

definition samples_key :: "event_page \<Rightarrow> string \<times> event_samples_params" where
  "samples_key st = buildEventSamplesQueryKey
     \<lparr>ep_eventId = pf_eventId (ev_filter st), ep_code = pf_code (ev_filter st),
      ep_startDate = Some (pf_startDate (ev_filter st)), ep_endDate = Some (pf_endDate (ev_filter st)),
      ep_page = Fin (of_int (ev_page st)), ep_pageSize = Fin (of_int pageSize), ep_sort = ev_sort st,
      ep_flatThreshold = pf_flatThreshold (ev_filter st)\<rparr>"

definition select_first_event :: "string list \<Rightarrow> event_page \<Rightarrow> event_page" where
  "select_first_event events st =
     (case events of
        e # _ \<Rightarrow> if pf_eventId (ev_filter st) = [] then st\<lparr>ev_filter := (ev_filter st)\<lparr>pf_eventId := e\<rparr>\<rparr> else st
      | [] \<Rightarrow> st)"

definition or_else :: "'a option \<Rightarrow> 'a \<Rightarrow> 'a" where
  "or_else x d = (case x of None \<Rightarrow> d | Some y \<Rightarrow> y)"

definition updateFilter :: "filter_change \<Rightarrow> event_page \<Rightarrow> event_page" where
  "updateFilter c st =
     (let prev = ev_filter st;
          merged = \<lparr>pf_code = or_else (fc_code c) (pf_code prev), pf_eventId = or_else (fc_eventId c) (pf_eventId prev),
                    pf_startDate = or_else (fc_startDate c) (pf_startDate prev),
                    pf_endDate = or_else (fc_endDate c) (pf_endDate prev),
                    pf_flatThreshold = or_else (fc_flatThreshold c) (pf_flatThreshold prev)\<rparr>
      in st\<lparr>ev_filter := merged, ev_page := resetPageOnFilterChange prev merged (ev_page st)\<rparr>)"

definition canMoveNext :: "samples option \<Rightarrow> event_page \<Rightarrow> bool" where
  "canMoveNext d st \<longleftrightarrow> (case d of None \<Rightarrow> False | Some s \<Rightarrow> sm_total s > ev_page st * pageSize)"

definition sampleItems :: "samples option \<Rightarrow> jsval list" where
  "sampleItems d = (case d of None \<Rightarrow> [] | Some s \<Rightarrow> sm_items s)"

definition next_disabled :: "samples option \<Rightarrow> event_page \<Rightarrow> bool" where
  "next_disabled d st \<longleftrightarrow> hasInvalidDateRange st \<or> (\<not> canMoveNext d st \<and> sampleItems d = [])"

definition next_page :: "event_page \<Rightarrow> event_page" where
  "next_page st = st\<lparr>ev_page := ev_page st + 1\<rparr>"

definition prev_page :: "event_page \<Rightarrow> event_page" where
  "prev_page st = st\<lparr>ev_page := max 1 (ev_page st - 1)\<rparr>"

definition select_sort :: "string \<Rightarrow> event_page \<Rightarrow> event_page" where
  "select_sort s st = st\<lparr>ev_sort := s\<rparr>"

text \<open>
  What the user and the effects do to the page. The data behind the Next button is what the cache
  holds for the current key: nothing yet, or the server's answer, whether the query asked for it by
  itself or on a retry. A retry without an identifier has no answer with samples, as its address
  reaches no route (\<open>empty_identifier_lost\<close>).
\<close>

inductive event_step :: "(string \<times> event_samples_params \<Rightarrow> samples) \<Rightarrow> event_page \<Rightarrow> event_page \<Rightarrow> bool" for answers where
  es_change: "event_step answers st (updateFilter c st)"
| es_select: "event_step answers st (select_first_event events st)"
| es_sort: "event_step answers st (select_sort s st)"
| es_prev: "ev_page st \<noteq> 1 \<Longrightarrow> event_step answers st (prev_page st)"
| es_next: "d = None \<or> pf_eventId (ev_filter st) \<noteq> [] \<and> d = Some (answers (samples_key st)) \<Longrightarrow> \<not> next_disabled d st
    \<Longrightarrow> event_step answers st (next_page st)"

text \<open>
  The server's answers are honest when the total depends on the filter alone and a page past the
  end has no rows.
\<close>

definition honest_samples :: "(string \<times> event_samples_params \<Rightarrow> samples) \<Rightarrow> (page_filter \<Rightarrow> int) \<Rightarrow> bool" where
  "honest_samples answers rows \<longleftrightarrow>
     (\<forall>st. sm_total (answers (samples_key st)) = rows (ev_filter st)
       \<and> (sm_items (answers (samples_key st)) \<noteq> [] \<longrightarrow> (ev_page st - 1) * pageSize < rows (ev_filter st)))"

definition event_page_ok :: "(page_filter \<Rightarrow> int) \<Rightarrow> event_page \<Rightarrow> bool" where
  "event_page_ok rows st \<longleftrightarrow>
     1 \<le> ev_page st \<and> (pf_eventId (ev_filter st) = [] \<longrightarrow> ev_page st = 1)
     \<and> (ev_page st = 1 \<or> (ev_page st - 2) * pageSize < rows (ev_filter st))"

lemma update_filter_page:
  "ev_page (updateFilter c st) = 1 \<or> updateFilter c st = st"
  by (auto simp: updateFilter_def reset_page Let_def intro!: event_page.equality)

lemma event_page_ok_step:
  assumes "honest_samples answers rows" and "event_page_ok rows st" and "event_step answers st st'"
  shows "event_page_ok rows st'"
  using assms(3,2)
proof cases
  case (es_change c)
  then show ?thesis using update_filter_page [of c st] assms(2) by (auto simp: event_page_ok_def)
next
  case (es_select events)
  then show ?thesis using assms(2) by (auto simp: event_page_ok_def select_first_event_def split: list.splits)
next
  case (es_sort s)
  then show ?thesis using assms(2) by (simp add: event_page_ok_def select_sort_def)
next
  case es_prev
  then show ?thesis using assms(2) by (auto simp: event_page_ok_def prev_page_def pageSize_def)
next
  case (es_next d)
  then have d: "d = Some (answers (samples_key st))" "pf_eventId (ev_filter st) \<noteq> []"
    by (auto simp: next_disabled_def canMoveNext_def sampleItems_def)
  with es_next(3) assms(1) have "(ev_page st - 1) * pageSize < rows (ev_filter st)"
    by (auto simp: next_disabled_def canMoveNext_def sampleItems_def honest_samples_def pageSize_def)
  then show ?thesis using assms(2) d(2) es_next(1)
    by (auto simp: event_page_ok_def next_page_def queries_enabled_def)
qed

text \<open>
  C30. Paging: whatever the user does, the requested page is at least one and at most one past the
  last page of the current filter. The last page is overrun because Next stays enabled on every
  page that has rows, the last one included.
\<close>

theorem event_page_in_range:
  assumes "honest_samples answers rows" and "reachable (\<lambda>st. st = initial_event_page) (event_step answers) st"
  shows "1 \<le> ev_page st
    \<and> (ev_page st = 1 \<or> (ev_page st - 2) * pageSize < rows (ev_filter st))
    \<and> (sm_items (answers (samples_key st)) \<noteq> [] \<and> \<not> hasInvalidDateRange st
        \<longrightarrow> \<not> next_disabled (Some (answers (samples_key st))) st)"
proof -
  have "event_page_ok rows st"
    using assms(2)
  proof (induction rule: reachable.induct)
    case (reachable_init s)
    then show ?case by (simp add: event_page_ok_def initial_event_page_def)
  next
    case (reachable_step s s')
    then show ?case using event_page_ok_step [OF assms(1)] by blast
  qed
  then show ?thesis by (simp add: event_page_ok_def next_disabled_def sampleItems_def)
qed

theorem event_page_in_range_witness:
  "\<exists>answers st. reachable (\<lambda>st. st = initial_event_page) (event_step answers) st
    \<and> ev_page st = 2 \<and> (ev_page st - 1) * pageSize \<ge> sm_total (answers (samples_key st)) \<and> (ev_page st - 2) * pageSize < 1"
proof -
  let ?answers = "\<lambda>k :: string \<times> event_samples_params.
      \<lparr>sm_items = (if ep_page (snd k) = Fin 1 then [Null] else []), sm_total = 1\<rparr>"
  let ?st = "select_first_event [''gap''] initial_event_page"
  have honest: "honest_samples ?answers (\<lambda>_. 1)"
    by (simp add: honest_samples_def samples_key_def buildEventSamplesQueryKey_def pageSize_def)
  have "reachable (\<lambda>st. st = initial_event_page) (event_step ?answers) ?st"
    by (rule reachable_step [where s = initial_event_page]) (auto intro: reachable_init es_select)
  moreover have "event_step ?answers ?st (next_page ?st)"
    by (rule es_next [of "Some (?answers (samples_key ?st))"])
       (simp_all add: queries_enabled_def next_disabled_def sampleItems_def samples_key_def buildEventSamplesQueryKey_def
          initial_event_page_def select_first_event_def hasInvalidDateRange_def Let_def)
  ultimately have r: "reachable (\<lambda>st. st = initial_event_page) (event_step ?answers) (next_page ?st)"
    by (rule reachable_step)
  have p: "ev_page (next_page ?st) = 2"
    by (simp add: next_page_def select_first_event_def initial_event_page_def)
  from event_page_in_range [OF honest r] p r show ?thesis
    by (intro exI [of _ ?answers] exI [of _ "next_page ?st"]) (simp add: pageSize_def)
qed

section \<open>The histogram of daily amplitudes\<close>

text \<open>\<open>Number(s)\<close> on a string, without the rounding and the overflow of doubles.\<close>

definition radix_value :: "nat \<Rightarrow> string \<Rightarrow> rat option" where
  "radix_value r s =
     (let dig = (\<lambda>c. let n = of_char (ascii_lower c) :: nat in
              if 48 \<le> n \<and> n \<le> 57 then n - 48 else if 97 \<le> n \<and> n \<le> 122 then n - 87 else 99)
      in if s \<noteq> [] \<and> (\<forall>c \<in> set s. dig c < r) then Some (of_nat (fold (\<lambda>c n. r * n + dig c) s 0)) else None)"

definition is_digit :: "char \<Rightarrow> bool" where
  "is_digit c \<longleftrightarrow> char_digit c \<noteq> None"

definition exponent_value :: "string \<Rightarrow> int option" where
  "exponent_value s =
     (case s of
        [] \<Rightarrow> Some 0
      | c # ds \<Rightarrow>
          if ascii_lower c \<noteq> CHR ''e'' then None
          else (case ds of
                  [] \<Rightarrow> None
                | g # es \<Rightarrow>
                    (let neg = (g = CHR ''-''); body = (if g = CHR ''-'' \<or> g = CHR ''+'' then es else ds)
                     in if body \<noteq> [] \<and> digits body
                        then Some (if neg then - int (digits_number body) else int (digits_number body)) else None)))"

definition decimal_value :: "string \<Rightarrow> rat option" where
  "decimal_value s =
     (let whole = takeWhile is_digit s; r = dropWhile is_digit s;
          dot = (r \<noteq> [] \<and> hd r = CHR ''.'');
          frac = (if dot then takeWhile is_digit (tl r) else []);
          rest = (if dot then dropWhile is_digit (tl r) else r)
      in if whole = [] \<and> frac = [] then None
         else case exponent_value rest of
                None \<Rightarrow> None
              | Some e \<Rightarrow> Some (of_nat (digits_number (whole @ frac)) * 10 powi (e - int (length frac))))"

definition num_neg :: "jsnum \<Rightarrow> jsnum" where
  "num_neg x = num_sub (Fin 0) x"

definition to_number :: "string \<Rightarrow> jsnum" where
  "to_number str =
     (let s = trim str;
          unsigned = (\<lambda>u. if u = ''Infinity'' then PInf
             else case decimal_value u of None \<Rightarrow> NaN | Some x \<Rightarrow> Fin x)
      in if s = [] then Fin 0
         else if hd s = CHR ''-'' then num_neg (unsigned (tl s))
         else if hd s = CHR ''+'' then unsigned (tl s)
         else if map ascii_lower (take 2 s) \<in> {''0x'', ''0o'', ''0b''}
         then (case radix_value (if ascii_lower (s ! 1) = CHR ''x'' then 16 else if ascii_lower (s ! 1) = CHR ''o'' then 8 else 2)
                     (drop 2 s) of None \<Rightarrow> NaN | Some x \<Rightarrow> Fin x)
         else unsigned s)"

record hist_row =
  hr_label :: string
  hr_count :: jsnum
  hr_start :: jsnum
  hr_end :: jsnum

definition finite_or_zero :: "jsnum \<Rightarrow> jsnum" where
  "finite_or_zero x = (if is_finite x then x else Fin 0)"

definition parseBinRange :: "string \<Rightarrow> jsnum \<times> jsnum" where
  "parseBinRange raw =
     (let parts = split_on CHR ''~'' raw
      in (finite_or_zero (to_number (hd parts)),
          finite_or_zero (if 2 \<le> length parts then to_number (parts ! 1) else NaN)))"

definition toNumericEdges :: "jsval list \<Rightarrow> jsnum list" where
  "toNumericEdges bins =
     (case hd bins of
        Num _ \<Rightarrow> concat (map (\<lambda>b. case the_num b of Some x \<Rightarrow> [x] | None \<Rightarrow> []) bins)
      | _ \<Rightarrow>
          (let stringBins = concat (map (\<lambda>b. case the_str b of Some s \<Rightarrow> [s] | None \<Rightarrow> []) bins)
           in if \<forall>e \<in> set stringBins. \<not> str_includes e ''~'' \<and> is_finite (to_number e)
              then map to_number stringBins else []))"

definition at_or :: "'a list \<Rightarrow> nat \<Rightarrow> 'a \<Rightarrow> 'a" where
  "at_or xs i d = (if i < length xs then xs ! i else d)"

definition toHistogramRows ::
  "(jsnum \<Rightarrow> string) \<Rightarrow> (jsnum \<Rightarrow> string) \<Rightarrow> jsval list \<Rightarrow> jsnum list \<Rightarrow> hist_row list" where
  "toHistogramRows show_num show_fixed2 bins counts =
     (if bins = [] then []
      else
        (let edges = toNumericEdges bins
         in if edges \<noteq> [] then
              (if length edges < 2 then []
               else map (\<lambda>(index, count).
                      let start = at_or edges index (hd edges); end' = at_or edges (index + 1) (last edges)
                      in \<lparr>hr_label = show_fixed2 start @ ''~'' @ show_fixed2 end', hr_count = count,
                          hr_start = start, hr_end = end'\<rparr>) (enumerate 0 counts))
            else map (\<lambda>(index, bin).
                   let label = (case bin of Str s \<Rightarrow> s | Num x \<Rightarrow> show_num x | _ \<Rightarrow> []);
                       (start, end') = parseBinRange label
                   in \<lparr>hr_label = label, hr_count = at_or counts index (Fin 0), hr_start = start, hr_end = end'\<rparr>)
                   (enumerate 0 bins)))"

definition sum_counts :: "hist_row list \<Rightarrow> jsnum" where
  "sum_counts rs = fold (\<lambda>r s. num_add s (hr_count r)) rs (Fin 0)"

definition upDays :: "hist_row list \<Rightarrow> jsnum" where
  "upDays rs = sum_counts (filter (\<lambda>r. num_le (Fin 0) (hr_start r)) rs)"

definition downDays :: "hist_row list \<Rightarrow> jsnum" where
  "downDays rs = sum_counts (filter (\<lambda>r. num_le (hr_end r) (Fin 0)) rs)"

definition straddling :: "hist_row \<Rightarrow> bool" where
  "straddling r \<longleftrightarrow> \<not> num_le (Fin 0) (hr_start r) \<and> \<not> num_le (hr_end r) (Fin 0)"

definition fin_row :: "hist_row \<Rightarrow> bool" where
  "fin_row r \<longleftrightarrow> (\<exists>a b c. r = \<lparr>hr_label = hr_label r, hr_count = Fin c, hr_start = Fin a, hr_end = Fin b\<rparr> \<and> a < b)"

lemma sum_counts_Fin:
  "\<forall>r \<in> set rs. \<exists>c. hr_count r = Fin c \<Longrightarrow>
    sum_counts rs = Fin (\<Sum>r \<leftarrow> rs. case hr_count r of Fin c \<Rightarrow> c | _ \<Rightarrow> 0)"
proof -
  have "\<forall>r \<in> set rs. \<exists>c. hr_count r = Fin c \<Longrightarrow>
    fold (\<lambda>r s. num_add s (hr_count r)) rs (Fin a) = Fin (a + (\<Sum>r \<leftarrow> rs. case hr_count r of Fin c \<Rightarrow> c | _ \<Rightarrow> 0))" for a
    by (induction rs arbitrary: a) (auto simp: add.assoc)
  then show "\<forall>r \<in> set rs. \<exists>c. hr_count r = Fin c \<Longrightarrow> ?thesis" by (simp add: sum_counts_def)
qed

text \<open>Rows of positive width: every day counts as up, as down, or straddles zero, and never twice.\<close>

lemma days_partition:
  assumes "\<forall>r \<in> set rs. fin_row r"
  shows "\<exists>u d s. upDays rs = Fin u \<and> downDays rs = Fin d \<and> sum_counts (filter straddling rs) = Fin s
    \<and> sum_counts rs = Fin (u + d + s)"
proof -
  let ?c = "\<lambda>r. case hr_count r of Fin c \<Rightarrow> c | _ \<Rightarrow> 0"
  have split: "(\<Sum>r \<leftarrow> rs. ?c r) = (\<Sum>r \<leftarrow> filter (\<lambda>r. num_le (Fin 0) (hr_start r)) rs. ?c r)
      + (\<Sum>r \<leftarrow> filter (\<lambda>r. num_le (hr_end r) (Fin 0)) rs. ?c r) + (\<Sum>r \<leftarrow> filter straddling rs. ?c r)"
    using assms
  proof (induction rs)
    case (Cons r rs)
    then obtain a b c where r: "hr_count r = Fin c" "hr_start r = Fin a" "hr_end r = Fin b" "a < b"
      by (auto simp: fin_row_def) (metis hist_row.select_convs)
    with Cons show ?case by (auto simp: straddling_def)
  qed simp
  have "\<forall>r \<in> set rs. \<exists>c. hr_count r = Fin c"
    using assms by (auto simp: fin_row_def) (metis hist_row.select_convs(2))
  then show ?thesis
    using sum_counts_Fin [of rs] sum_counts_Fin [of "filter _ rs"] split
    by (simp add: upDays_def downDays_def)
qed

lemma numeric_edges_Num [simp]: "toNumericEdges (map (\<lambda>x. Num (Fin x)) (e # es)) = map Fin (e # es)"
  by (simp add: toNumericEdges_def comp_def concat_map_singleton)

text \<open>
  The histogram of a metric with ascending numeric edges and one count per bin: bin \<open>i\<close> runs from
  edge \<open>i\<close> to edge \<open>i + 1\<close>, and up days, down days and the days of the bin around zero add up to
  all days, no day being counted twice.
\<close>

theorem amplitude_days:
  fixes show_num show_fixed2 :: "jsnum \<Rightarrow> string"
  assumes "sorted_wrt (<) edges" and "length edges = Suc (length cs)"
  defines "rs \<equiv> toHistogramRows show_num show_fixed2 (map (\<lambda>x. Num (Fin x)) edges) (map Fin cs)"
  shows "length rs = length cs
    \<and> (\<forall>i < length cs. hr_start (rs ! i) = Fin (edges ! i) \<and> hr_end (rs ! i) = Fin (edges ! Suc i) \<and> hr_count (rs ! i) = Fin (cs ! i))
    \<and> (\<exists>u d s. upDays rs = Fin u \<and> downDays rs = Fin d \<and> sum_counts (filter straddling rs) = Fin s
         \<and> u + d + s = sum_list cs)"
proof -
  obtain e es where e: "edges = e # es" using assms(2) by (cases edges) auto
  have len: "length rs = length cs"
    and row: "i < length cs \<Longrightarrow> rs ! i = \<lparr>hr_label = show_fixed2 (Fin (edges ! i)) @ ''~'' @ show_fixed2 (Fin (edges ! Suc i)),
        hr_count = Fin (cs ! i), hr_start = Fin (edges ! i), hr_end = Fin (edges ! Suc i)\<rparr>" for i
    using assms(2) unfolding rs_def e toHistogramRows_def numeric_edges_Num
    by (auto simp: Let_def at_or_def nth_enumerate_eq nth_Cons' simp del: list.map)
  have "fin_row r" if in_rs: "r \<in> set rs" for r
  proof -
    obtain i where i: "i < length cs" "r = rs ! i" using in_rs len unfolding in_set_conv_nth by metis
    then have "edges ! i < edges ! Suc i" using assms(1,2) by (simp add: sorted_wrt_nth_less)
    then show ?thesis using row [OF i(1)] i(2) by (simp add: fin_row_def)
  qed
  then obtain u d s where u: "upDays rs = Fin u" "downDays rs = Fin d" "sum_counts (filter straddling rs) = Fin s"
    "sum_counts rs = Fin (u + d + s)"
    using days_partition [of rs] by blast
  have "map (\<lambda>r. case hr_count r of Fin c \<Rightarrow> c | _ \<Rightarrow> 0) rs = cs"
    using len row by (intro nth_equalityI) auto
  moreover have "\<forall>r \<in> set rs. \<exists>c. hr_count r = Fin c"
    using row len by (auto simp: in_set_conv_nth)
  ultimately have "sum_counts rs = Fin (sum_list cs)" by (simp add: sum_counts_Fin)
  then show ?thesis using u len row by auto
qed

theorem amplitude_days_witness:
  "\<exists>u d s. upDays (toHistogramRows (\<lambda>_. []) (\<lambda>_. []) (map (\<lambda>x. Num (Fin x)) [-2, -1, 1, 3]) (map Fin [4, 5, 6])) = Fin u
    \<and> downDays (toHistogramRows (\<lambda>_. []) (\<lambda>_. []) (map (\<lambda>x. Num (Fin x)) [-2, -1, 1, 3]) (map Fin [4, 5, 6])) = Fin d
    \<and> u + d + s = 15"
  using amplitude_days [of "[-2, -1, 1, 3]" "[4, 5, 6]" "\<lambda>_. []" "\<lambda>_. []"] by fastforce

text \<open>A label that is not a range is read as the bin from 0 to 0, which counts as up and as down.\<close>

lemma unreadable_label_counts_twice:
  "(let rs = toHistogramRows (\<lambda>_. []) (\<lambda>_. []) [Str ''low''] [Fin 3] in upDays rs = Fin 3 \<and> downDays rs = Fin 3)"
  by (simp add: toHistogramRows_def toNumericEdges_def parseBinRange_def to_number_def trim_def is_ws_def
      decimal_value_def is_digit_def char_digit_def finite_or_zero_def upDays_def downDays_def sum_counts_def
      at_or_def Let_def ascii_lower_def)

end
