(* ===== verification/Figures.thy ===== *)
theory Figures
  imports AnalyticsPages
begin

text \<open>
  The texts of the numbers on the dashboard: \<open>toFixed\<close> and what is built on it in
  \<open>DashboardMetricPanels.tsx\<close>, \<open>StrengthGaugePanelCard.tsx\<close>, \<open>EstimatedVolumeCard.tsx\<close>,
  \<open>PanelCharts.tsx\<close>, the two participant cards, \<open>MarketThermometerPage.tsx\<close> and
  \<open>TreemapDemoPage.tsx\<close>. What \<open>String\<close> prints from \<open>10 ^ 21\<close> on is the parameter \<open>show\<close>; the
  signs of the units that are not Latin-1 are parameters too. Every text reads back, with the
  \<open>Number\<close> of the program, as the rounded figure.
\<close>

section \<open>Digits\<close>

fun frac_digits :: "nat \<Rightarrow> nat \<Rightarrow> string" where
  "frac_digits 0 m = []"
| "frac_digits (Suc d) m = frac_digits d (m div 10) @ [digit_char (m mod 10)]"

lemma length_frac_digits [simp]: "length (frac_digits d m) = d"
  by (induction d m rule: frac_digits.induct) simp_all

lemma digits_number_snoc: "digits_number (s @ [c]) = 10 * digits_number s + (of_char c - 48)"
  by (induction s) (simp_all add: algebra_simps)

lemma digits_number_append: "digits_number (s @ t) = digits_number s * 10 ^ length t + digits_number t"
  by (induction s) (simp_all add: algebra_simps power_add)

lemma of_digit_char [simp]: "d < 10 \<Longrightarrow> (of_char (digit_char d) :: nat) = 48 + d"
  by (simp add: digit_char_def)

lemma digits_frac_digits: "digits (frac_digits d m)"
  by (induction d m rule: frac_digits.induct) (auto simp: digits_def)

lemma digits_number_frac: "digits_number (frac_digits d m) = m mod 10 ^ d"
proof (induction d m rule: frac_digits.induct)
  case (2 d m)
  have "m mod 10 ^ Suc d = 10 * (m div 10 mod 10 ^ d) + m mod 10"
    by (simp add: mod_mult2_eq)
  then show ?case using 2 by (simp add: digits_number_snoc)
qed simp

lemma digits_string_of_nat: "digits (string_of_nat n)"
  using string_of_nat_digits by (auto simp: digits_def)

lemma digits_number_string_of_nat: "digits_number (string_of_nat n) = n"
proof (induction n rule: nat_digits.induct)
  case (1 n)
  show ?case
  proof (cases "n < 10")
    case True
    then show ?thesis by (simp add: string_of_nat_def nat_digits.simps [of n])
  next
    case False
    then have "string_of_nat n = string_of_nat (n div 10) @ [digit_char (n mod 10)]"
      by (simp add: string_of_nat_def nat_digits.simps [of n])
    with 1 False show ?thesis by (simp add: digits_number_snoc)
  qed
qed

lemma string_of_nat_not_Nil [simp]: "string_of_nat n \<noteq> []"
  by (simp add: string_of_nat_def nat_digits.simps [of n])

section \<open>Fixed decimals\<close>

definition fixed_units :: "nat \<Rightarrow> rat \<Rightarrow> nat" where
  "fixed_units d x = nat \<lfloor>\<bar>x\<bar> * 10 ^ d + 1 / 2\<rfloor>"

definition unsigned_text :: "nat \<Rightarrow> nat \<Rightarrow> string" where
  "unsigned_text d n = string_of_nat (n div 10 ^ d) @ (if d = 0 then [] else CHR ''.'' # frac_digits d n)"

definition toFixed :: "(rat \<Rightarrow> string) \<Rightarrow> nat \<Rightarrow> rat \<Rightarrow> string" where
  "toFixed show d x =
     (if 10 ^ 21 \<le> \<bar>x\<bar> then show x
      else (if x < 0 then ''-'' else []) @ unsigned_text d (fixed_units d x))"

lemma digit_chars: "char_digit c \<noteq> None \<Longrightarrow> 48 \<le> (of_char c :: nat) \<and> of_char c \<le> (57 :: nat)"
  by (auto simp: char_digit_def Let_def split: if_splits)

lemma digit_plain:
  assumes "char_digit c \<noteq> None"
  shows "ascii_lower c = c" and "\<not> is_ws c" and "c \<noteq> CHR ''.''" "c \<noteq> CHR ''-''" "c \<noteq> CHR ''+''" "c \<noteq> CHR ''I''"
    and "c \<noteq> CHR ''x''" "c \<noteq> CHR ''o''" "c \<noteq> CHR ''b''"
  using digit_chars [OF assms] by (auto simp: ascii_lower_def is_ws_def)

lemma takeWhile_digits: "digits s \<Longrightarrow> takeWhile is_digit (s @ r) = s @ takeWhile is_digit r"
  and dropWhile_digits: "digits s \<Longrightarrow> dropWhile is_digit (s @ r) = dropWhile is_digit r"
  by (auto simp: digits_def is_digit_def)

lemma all_digits: "digits s \<Longrightarrow> takeWhile is_digit s = s" "digits s \<Longrightarrow> dropWhile is_digit s = []"
  using takeWhile_digits [of s "[]"] dropWhile_digits [of s "[]"] by simp_all

lemma decimal_unsigned: "decimal_value (unsigned_text d n) = Some (of_nat n / 10 ^ d)"
proof (cases "d = 0")
  case True
  then show ?thesis
    by (simp add: all_digits digits_string_of_nat unsigned_text_def decimal_value_def exponent_value_def digits_number_string_of_nat Let_def)
next
  case False
  have dot: "\<not> is_digit (CHR ''.'')" by (simp add: is_digit_def char_digit_def)
  have "digits_number (string_of_nat (n div 10 ^ d) @ frac_digits d n) = n"
    by (simp only: digits_number_append digits_number_string_of_nat digits_number_frac length_frac_digits div_mult_mod_eq)
  then show ?thesis
    using False dot
    by (simp add: all_digits digits_frac_digits unsigned_text_def decimal_value_def exponent_value_def Let_def
        takeWhile_digits [OF digits_string_of_nat] dropWhile_digits [OF digits_string_of_nat] power_int_minus field_simps)
qed

lemma unsigned_chars: "c \<in> set (unsigned_text d n) \<Longrightarrow> char_digit c \<noteq> None \<or> c = CHR ''.''"
  using digits_string_of_nat [of "n div 10 ^ d"] digits_frac_digits [of d n]
  by (auto simp: unsigned_text_def digits_def split: if_splits)

lemma unsigned_not_Nil [simp]: "unsigned_text d n \<noteq> []"
  by (simp add: unsigned_text_def)

lemma unsigned_hd: "char_digit (hd (unsigned_text d n)) \<noteq> None"
  using digits_string_of_nat [of "n div 10 ^ d"] hd_in_set [OF string_of_nat_not_Nil [of "n div 10 ^ d"]]
  by (simp add: unsigned_text_def digits_def)

lemma plain_char:
  assumes "char_digit c \<noteq> None \<or> c = CHR ''.''"
  shows "ascii_lower c = c \<and> \<not> is_ws c \<and> c \<noteq> CHR ''x'' \<and> c \<noteq> CHR ''o'' \<and> c \<noteq> CHR ''b'' \<and> c \<noteq> CHR ''I''"
  using assms
proof
  assume "c = CHR ''.''"
  then show ?thesis by (simp add: ascii_lower_def is_ws_def)
qed (use digit_plain in blast)

text \<open>\<open>Number\<close> on the text of a fixed decimal, with and without its sign.\<close>

lemma number_unsigned:
  "to_number (unsigned_text d n) = Fin (of_nat n / 10 ^ d)"
  "to_number (CHR ''-'' # unsigned_text d n) = Fin (- (of_nat n / 10 ^ d))"
  "to_number (CHR ''+'' # unsigned_text d n) = Fin (of_nat n / 10 ^ d)"
proof -
  let ?t = "unsigned_text d n"
  have ends: "\<not> is_ws (hd ?t)" "\<not> is_ws (last ?t)"
    using plain_char unsigned_chars [of _ d n] hd_in_set [of ?t] last_in_set [of ?t] by auto
  have ws: "\<not> is_ws CHR ''-''" "\<not> is_ws CHR ''+''" by (simp_all add: is_ws_def)
  have trims: "trim ?t = ?t" "trim (CHR ''-'' # ?t) = CHR ''-'' # ?t" "trim (CHR ''+'' # ?t) = CHR ''+'' # ?t"
    using ends ws by (auto intro!: trim_id)
  have first: "hd ?t \<noteq> CHR ''-''" "hd ?t \<noteq> CHR ''+''"
    using digit_plain(4,5) [OF unsigned_hd [of d n]] by auto
  have inf: "?t \<noteq> ''Infinity''" using digit_plain(6) [OF unsigned_hd [of d n]] by auto
  have lower: "map ascii_lower (take 2 ?t) = take 2 ?t"
    using plain_char unsigned_chars [of _ d n] by (auto intro!: map_idI dest!: in_set_takeD)
  have "CHR ''x'' \<in> set s \<or> CHR ''o'' \<in> set s \<or> CHR ''b'' \<in> set s" if "s \<in> {''0x'', ''0o'', ''0b''}" for s
    using that by (elim insertE) simp_all
  moreover have "c \<in> set (take 2 ?t) \<Longrightarrow> c \<noteq> CHR ''x'' \<and> c \<noteq> CHR ''o'' \<and> c \<noteq> CHR ''b''" for c
    using plain_char [OF unsigned_chars [OF in_set_takeD]] by blast
  ultimately have "take 2 ?t \<notin> {''0x'', ''0o'', ''0b''}" by metis
  then have radix: "map ascii_lower (take 2 ?t) \<notin> {''0x'', ''0o'', ''0b''}" by (simp only: lower not_False_eq_True)
  show "to_number ?t = Fin (of_nat n / 10 ^ d)"
    unfolding to_number_def trims Let_def if_not_P [OF unsigned_not_Nil] if_not_P [OF first(1)] if_not_P [OF first(2)]
      if_not_P [OF radix] if_not_P [OF inf] decimal_unsigned by simp
  show "to_number (CHR ''-'' # ?t) = Fin (- (of_nat n / 10 ^ d))" "to_number (CHR ''+'' # ?t) = Fin (of_nat n / 10 ^ d)"
    unfolding to_number_def trims Let_def using inf by (simp_all add: decimal_unsigned num_neg_def)
qed

lemma to_fixed_units: "\<bar>x\<bar> < 10 ^ 21 \<Longrightarrow> to_fixed d x = (if x < 0 then - (of_nat (fixed_units d x) / 10 ^ d) else of_nat (fixed_units d x) / 10 ^ d)"
proof -
  assume "\<bar>x\<bar> < 10 ^ 21"
  moreover have "(of_nat (fixed_units d x) :: rat) = of_int \<lfloor>\<bar>x\<bar> * 10 ^ d + 1 / 2\<rfloor>"
    unfolding fixed_units_def by (intro of_nat_nat) (simp add: add_nonneg_nonneg)
  moreover have "fixed_units d 0 = 0" by (simp add: fixed_units_def)
  ultimately show ?thesis by (cases "x = 0") (simp_all add: to_fixed_def sgn_if)
qed

lemma toFixed_reads: "\<bar>x\<bar> < 10 ^ 21 \<Longrightarrow> to_number (toFixed show d x) = Fin (to_fixed d x)"
  by (simp add: toFixed_def to_fixed_units number_unsigned)

section \<open>The texts of the cards\<close>

datatype CoreMetricType = Core_amplitude | Core_projectedVolume | Core_spread

definition formatFixed2 :: "(rat \<Rightarrow> string) \<Rightarrow> rat \<Rightarrow> string" where
  "formatFixed2 show v = toFixed show 2 v"

definition formatYiUnit :: "(rat \<Rightarrow> string) \<Rightarrow> string \<Rightarrow> rat \<Rightarrow> string" where
  "formatYiUnit show yi v = toFixed show 2 (v / 100000000) @ yi"

definition formatPercentage :: "(rat \<Rightarrow> string) \<Rightarrow> rat \<Rightarrow> string" where
  "formatPercentage show v = toFixed show 1 (v * 100) @ ''%''"

definition formatCoreMetricValue :: "(rat \<Rightarrow> string) \<Rightarrow> string \<Rightarrow> CoreMetricType \<Rightarrow> rat option \<Rightarrow> string" where
  "formatCoreMetricValue show yi metricType v =
     (case v of
        None \<Rightarrow> ''--''
      | Some x \<Rightarrow> if metricType = Core_projectedVolume then formatYiUnit show yi x else formatFixed2 show x)"

text \<open>\<open>Math.round\<close> and the text of an integer.\<close>

definition math_round :: "rat \<Rightarrow> int" where
  "math_round x = \<lfloor>x + 1 / 2\<rfloor>"

definition integer_text :: "(rat \<Rightarrow> string) \<Rightarrow> int \<Rightarrow> string" where
  "integer_text show z =
     (if 10 ^ 21 \<le> \<bar>z\<bar> then show (of_int z) else (if z < 0 then ''-'' else []) @ string_of_nat (nat \<bar>z\<bar>))"

definition formatEstimate :: "(rat \<Rightarrow> string) \<Rightarrow> jsnum \<Rightarrow> string" where
  "formatEstimate show v =
     (case v of
        Fin x \<Rightarrow> if 1000 \<le> \<bar>x\<bar> then toFixed show 1 (x / 1000) @ ''k'' else integer_text show (math_round x)
      | _ \<Rightarrow> ''0'')"

definition volume_axis_tick :: "(rat \<Rightarrow> string) \<Rightarrow> rat \<Rightarrow> string" where
  "volume_axis_tick show v = integer_text show (math_round (v / 1000)) @ ''k''"

definition formatAmplitude :: "(rat \<Rightarrow> string) \<Rightarrow> string \<Rightarrow> jsnum \<Rightarrow> string" where
  "formatAmplitude show unit v = (case v of Fin x \<Rightarrow> toFixed show 1 x | _ \<Rightarrow> ''0'') @ '' '' @ unit"

definition formatLastPrice :: "(rat \<Rightarrow> string) \<Rightarrow> rat \<Rightarrow> string" where
  "formatLastPrice show v = toFixed show 2 v"

definition formatSigned :: "(rat \<Rightarrow> string) \<Rightarrow> rat option \<Rightarrow> string \<Rightarrow> string" where
  "formatSigned show v suffix =
     (case v of None \<Rightarrow> ''--'' | Some x \<Rightarrow> (if 0 < x then ''+'' else []) @ toFixed show 2 x @ suffix)"

definition formatContribution :: "(rat \<Rightarrow> string) \<Rightarrow> rat \<Rightarrow> string" where
  "formatContribution show v = (if 0 < v then ''+'' else []) @ toFixed show 2 v"

text \<open>Reading them back.\<close>

lemma signed_reads:
  assumes "\<bar>x\<bar> < 10 ^ 21"
  shows "to_number ((if 0 < x then ''+'' else []) @ toFixed show d x) = Fin (to_fixed d x)"
  using assms by (cases "0 < x") (simp_all add: toFixed_def to_fixed_units number_unsigned)

lemma integer_reads: "\<bar>z\<bar> < 10 ^ 21 \<Longrightarrow> to_number (integer_text show z) = Fin (of_int z)"
  using number_unsigned [of 0 "nat \<bar>z\<bar>"] by (auto simp: integer_text_def unsigned_text_def)

lemma math_round_near: "\<bar>of_int (math_round x) - x\<bar> \<le> 1 / 2"
  unfolding math_round_def by linarith

lemma estimate_reads:
  assumes "\<bar>x\<bar> < 10 ^ 21"
  shows "(\<bar>x\<bar> < 1000 \<longrightarrow> to_number (formatEstimate show (Fin x)) = Fin (of_int (math_round x)))
    \<and> (1000 \<le> \<bar>x\<bar> \<longrightarrow> (\<exists>text. formatEstimate show (Fin x) = text @ ''k'' \<and> to_number text = Fin (to_fixed 1 (x / 1000))))"
proof (intro conjI impI)
  assume "\<bar>x\<bar> < 1000"
  moreover have "\<bar>math_round x\<bar> < 10 ^ 21"
  proof -
    have "of_int \<bar>math_round x\<bar> < (of_int 1001 :: rat)"
      using \<open>\<bar>x\<bar> < 1000\<close> math_round_near [of x] unfolding of_int_abs of_int_numeral by linarith
    then show ?thesis unfolding of_int_less_iff by simp
  qed
  ultimately show "to_number (formatEstimate show (Fin x)) = Fin (of_int (math_round x))"
    by (simp add: formatEstimate_def integer_reads)
next
  assume "1000 \<le> \<bar>x\<bar>"
  moreover have "\<bar>x / 1000\<bar> < 10 ^ 21" using assms by (simp add: abs_divide)
  ultimately show "\<exists>text. formatEstimate show (Fin x) = text @ ''k'' \<and> to_number text = Fin (to_fixed 1 (x / 1000))"
    by (intro exI [of _ "toFixed show 1 (x / 1000)"]) (simp add: formatEstimate_def toFixed_reads)
qed

text \<open>
  What a text shows: read as a number it is the figure in the unit of the text, rounded to \<open>d\<close> digits,
  and so at most half a unit of the last digit away from it.
\<close>

definition reads_as :: "string \<Rightarrow> nat \<Rightarrow> rat \<Rightarrow> bool" where
  "reads_as text d y \<longleftrightarrow> to_number text = Fin (to_fixed d y) \<and> \<bar>to_fixed d y - y\<bar> \<le> 1 / (2 * 10 ^ d)"

lemma reads_as_fixed: "\<bar>y\<bar> < 10 ^ 21 \<Longrightarrow> reads_as (toFixed show d y) d y"
  using to_fixed_error [of d y] by (simp add: reads_as_def toFixed_reads)

lemma reads_as_signed: "\<bar>y\<bar> < 10 ^ 21 \<Longrightarrow> reads_as ((if 0 < y then ''+'' else []) @ toFixed show d y) d y"
  using to_fixed_error [of d y] by (simp add: reads_as_def signed_reads)

lemma tick_reads:
  assumes "\<bar>x\<bar> < 10 ^ 21"
  shows "to_number (integer_text show (math_round (x / 1000))) = Fin (of_int (math_round (x / 1000)))"
proof (rule integer_reads)
  have "\<bar>x / 1000\<bar> < 1000000000000000000" using assms by (simp add: abs_divide)
  then have "\<bar>of_int (math_round (x / 1000))\<bar> < (1000000000000000000000 :: rat)"
    using math_round_near [of "x / 1000"] by linarith
  then have "of_int \<bar>math_round (x / 1000)\<bar> < (of_int (10 ^ 21) :: rat)" by simp
  then show "\<bar>math_round (x / 1000)\<bar> < 10 ^ 21" unfolding of_int_less_iff .
qed

text \<open>
  C36. The figures on the cards read back. For every figure below \<open>10 ^ 19\<close>, \<open>Number\<close> on its text,
  less the unit that ends it, gives the figure rounded to the digits shown, at most half a unit of the
  last digit away: two digits for a price, a signed change (with its suffix), a contribution, an
  amplitude or spread of the core metrics, and a projected volume, in units of a hundred million; one
  digit for a percentage, an amplitude and an estimate from a thousand on, in thousands; whole numbers
  for a smaller estimate and the ticks of the volume axis, in thousands. The sign shown is the sign of
  the figure even when the digits are all zero, and a figure that is missing shows as two dashes.
\<close>

theorem figures_read_back:
  assumes "\<bar>x\<bar> < 10 ^ 19"
  shows "reads_as (formatLastPrice show x) 2 x \<and> reads_as (formatContribution show x) 2 x
    \<and> (\<exists>text. formatSigned show (Some x) suffix = text @ suffix \<and> reads_as text 2 x)
    \<and> (metricType \<noteq> Core_projectedVolume \<longrightarrow> reads_as (formatCoreMetricValue show yi metricType (Some x)) 2 x)
    \<and> (\<exists>text. formatCoreMetricValue show yi Core_projectedVolume (Some x) = text @ yi \<and> reads_as text 2 (x / 100000000))
    \<and> formatCoreMetricValue show yi metricType None = ''--'' \<and> formatSigned show None suffix = ''--''
    \<and> (\<exists>text. formatPercentage show x = text @ ''%'' \<and> reads_as text 1 (100 * x))
    \<and> (\<exists>text. formatAmplitude show unit (Fin x) = text @ '' '' @ unit \<and> reads_as text 1 x)
    \<and> (hd (formatSigned show (Some x) suffix) = CHR ''+'' \<longleftrightarrow> 0 < x) \<and> (hd (formatSigned show (Some x) suffix) = CHR ''-'' \<longleftrightarrow> x < 0)
    \<and> (\<bar>x\<bar> < 1000 \<longrightarrow> to_number (formatEstimate show (Fin x)) = Fin (of_int (math_round x)))
    \<and> (1000 \<le> \<bar>x\<bar> \<longrightarrow> (\<exists>text. formatEstimate show (Fin x) = text @ ''k'' \<and> reads_as text 1 (x / 1000)))
    \<and> (\<exists>text. volume_axis_tick show x = text @ ''k'' \<and> to_number text = Fin (of_int (math_round (x / 1000))))
    \<and> \<bar>of_int (math_round x) - x\<bar> \<le> 1 / 2"
proof (intro conjI)
  have x: "\<bar>x\<bar> < 10 ^ 21" using assms by simp
  have bounds: "\<bar>x / 100000000\<bar> < 10 ^ 21" "\<bar>100 * x\<bar> < 10 ^ 21" "\<bar>x / 1000\<bar> < 10 ^ 21"
    using assms by (simp_all add: abs_divide abs_mult)
  have digit: "hd (unsigned_text d n) \<noteq> CHR ''+''" "hd (unsigned_text d n) \<noteq> CHR ''-''" for d n
    using digit_plain(4,5) [OF unsigned_hd [of d n]] by auto
  show "hd (formatSigned show (Some x) suffix) = CHR ''+'' \<longleftrightarrow> 0 < x" "hd (formatSigned show (Some x) suffix) = CHR ''-'' \<longleftrightarrow> x < 0"
    using x digit by (auto simp: formatSigned_def toFixed_def hd_append)
  show "\<exists>text. formatSigned show (Some x) suffix = text @ suffix \<and> reads_as text 2 x"
    by (rule exI [of _ "(if 0 < x then ''+'' else []) @ toFixed show 2 x"]) (simp only: formatSigned_def option.case append_assoc simp_thms reads_as_signed [OF x])
  show "reads_as (formatContribution show x) 2 x" unfolding formatContribution_def by (rule reads_as_signed [OF x])
  show "\<exists>text. formatCoreMetricValue show yi Core_projectedVolume (Some x) = text @ yi \<and> reads_as text 2 (x / 100000000)"
    by (rule exI [of _ "toFixed show 2 (x / 100000000)"]) (simp only: formatCoreMetricValue_def formatYiUnit_def option.case if_True simp_thms reads_as_fixed [OF bounds(1)])
  show "\<exists>text. formatPercentage show x = text @ ''%'' \<and> reads_as text 1 (100 * x)"
    by (rule exI [of _ "toFixed show 1 (100 * x)"]) (simp only: formatPercentage_def mult.commute [of x] simp_thms reads_as_fixed [OF bounds(2)])
  show "\<exists>text. formatAmplitude show unit (Fin x) = text @ '' '' @ unit \<and> reads_as text 1 x"
    by (rule exI [of _ "toFixed show 1 x"]) (simp only: formatAmplitude_def jsnum.case append_assoc simp_thms reads_as_fixed [OF x])
  show "1000 \<le> \<bar>x\<bar> \<longrightarrow> (\<exists>text. formatEstimate show (Fin x) = text @ ''k'' \<and> reads_as text 1 (x / 1000))"
    by (intro impI exI [of _ "toFixed show 1 (x / 1000)"])
      (simp only: formatEstimate_def jsnum.case if_True simp_thms reads_as_fixed [OF bounds(3)])
  show "\<exists>text. volume_axis_tick show x = text @ ''k'' \<and> to_number text = Fin (of_int (math_round (x / 1000)))"
    by (rule exI [of _ "integer_text show (math_round (x / 1000))"]) (simp add: volume_axis_tick_def tick_reads [OF x])
  show "\<bar>x\<bar> < 1000 \<longrightarrow> to_number (formatEstimate show (Fin x)) = Fin (of_int (math_round x))"
    using estimate_reads [OF x] by blast
  show "\<bar>of_int (math_round x) - x\<bar> \<le> 1 / 2" by (rule math_round_near)
qed (use assms reads_as_fixed [of x] in
    \<open>simp_all add: formatLastPrice_def formatSigned_def formatCoreMetricValue_def formatFixed2_def\<close>)

theorem figures_read_back_witness:
  "to_number (formatLastPrice (\<lambda>_. []) (- (25 / 2))) = Fin (- (25 / 2))
    \<and> hd (formatSigned (\<lambda>_. []) (Some (- (25 / 2))) ''%'') = CHR ''-''
    \<and> (\<exists>text. formatCoreMetricValue (\<lambda>_. []) ''Y'' Core_projectedVolume (Some 250000000) = text @ ''Y'' \<and> to_number text = Fin (5 / 2))"
proof -
  have "\<lfloor>2501 / 2 :: rat\<rfloor> = 1250" "\<lfloor>501 / 2 :: rat\<rfloor> = 250" by (simp_all add: floor_eq_iff)
  then have fixed: "to_fixed 2 (- (25 / 2)) = - (25 / 2)" "to_fixed 2 (250000000 / 100000000) = 5 / 2" by (simp_all add: to_fixed_def)
  have small: "\<bar>- (25 / 2) :: rat\<bar> < 10 ^ 19" "\<bar>250000000 :: rat\<bar> < 10 ^ 19" by simp_all
  note price = figures_read_back [OF small(1), of "\<lambda>_. []" "''%''"]
  have "reads_as (formatLastPrice (\<lambda>_. []) (- (25 / 2))) 2 (- (25 / 2))"
    and sign: "hd (formatSigned (\<lambda>_. []) (Some (- (25 / 2))) ''%'') = CHR ''-'' \<longleftrightarrow> - (25 / 2) < (0 :: rat)"
    using price by blast+
  moreover note figures_read_back [OF small(2), of "\<lambda>_. []" _ _ "''Y''",
      THEN conjunct2, THEN conjunct2, THEN conjunct2, THEN conjunct2, THEN conjunct1]
  ultimately show ?thesis unfolding reads_as_def fixed by auto
qed

end
