(* ===== verification/Timeline.thy ===== *)
theory Timeline
  imports JsValue
begin

text \<open>
  The keyed time series of the dashboard, \<open>features/dashboard/lib/timeline-helpers.ts\<close> and
  \<open>build-series-from-maps.ts\<close>: binary search for the place of a minute, the upsert that uses
  an index map where it can trust it, and the loop that applies a map of points.

  A point is any record with a time; \<open>key\<close> is its \<open>minuteTs\<close> and \<open>same\<close> the comparison
  \<open>isSamePoint\<close> of its fields. The contract is the locale \<open>timeline\<close>: under it an upsert, with
  whatever index map, is the update of a sorted association list.
\<close>

section \<open>The program\<close>

function find_insert_loop :: "('p \<Rightarrow> rat) \<Rightarrow> 'p list \<Rightarrow> rat \<Rightarrow> nat \<Rightarrow> nat \<Rightarrow> nat" where
  "find_insert_loop key series minuteTs low high =
     (if low < high then
        (let mid = (low + high) div 2
         in if key (series ! mid) < minuteTs then find_insert_loop key series minuteTs (mid + 1) high
            else find_insert_loop key series minuteTs low mid)
      else low)"
  by pat_completeness auto
termination
  by (relation "measure (\<lambda>(key, series, minuteTs, low, high). high - low)") auto

declare find_insert_loop.simps [simp del]

definition findInsertIndex :: "('p \<Rightarrow> rat) \<Rightarrow> 'p list \<Rightarrow> rat \<Rightarrow> nat" where
  "findInsertIndex key series minuteTs = find_insert_loop key series minuteTs 0 (length series)"

text \<open>\<open>rebuildIndexMap\<close>, which every reset of a series repeats inline.\<close>

definition rebuildIndexMap :: "('p \<Rightarrow> rat) \<Rightarrow> 'p list \<Rightarrow> (rat, nat) dict" where
  "rebuildIndexMap key rows = fold (\<lambda>i m. dict_set m (key (rows ! i)) i) [0..<length rows] []"

definition upsertPoint ::
  "('p \<Rightarrow> rat) \<Rightarrow> ('p \<Rightarrow> 'p \<Rightarrow> bool) \<Rightarrow> 'p list \<Rightarrow> (rat, nat) dict \<Rightarrow> 'p
     \<Rightarrow> 'p list \<times> (rat, nat) dict \<times> bool" where
  "upsertPoint key same series indexMap point =
     (let hit = (case dict_get indexMap (key point) of
            Some i \<Rightarrow> if i < length series \<and> key (series ! i) = key point then Some i else None
          | None \<Rightarrow> None)
      in case hit of
           Some idx \<Rightarrow>
             if same (series ! idx) point then (series, indexMap, False)
             else (series[idx := point], indexMap, True)
         | None \<Rightarrow>
             (let insertIdx = findInsertIndex key series (key point)
              in if insertIdx < length series \<and> key (series ! insertIdx) = key point then
                   (if same (series ! insertIdx) point then (series, rebuildIndexMap key series, False)
                    else (let next = series[insertIdx := point] in (next, rebuildIndexMap key next, True)))
                 else (let next = take insertIdx series @ [point] @ drop insertIdx series
                       in (next, rebuildIndexMap key next, True))))"

text \<open>
  \<open>buildSeriesFromMaps\<close> on the list of the map's values in the order of \<open>Object.keys\<close>; a value
  that is absent is skipped. Points whose key is not a finite number never get here: a key is
  a rational.
\<close>

definition build_step ::
  "('p \<Rightarrow> rat) \<Rightarrow> ('p \<Rightarrow> 'p \<Rightarrow> bool) \<Rightarrow> 'p option \<Rightarrow> 'p list \<times> (rat, nat) dict \<Rightarrow> 'p list \<times> (rat, nat) dict" where
  "build_step key same v acc =
     (case v of None \<Rightarrow> acc
      | Some point \<Rightarrow>
          (case acc of (series, indexMap) \<Rightarrow>
             (case upsertPoint key same series indexMap point of
                (series', indexMap', didChange) \<Rightarrow> if didChange then (series', indexMap') else (series, indexMap))))"

definition buildSeriesFromMaps ::
  "('p \<Rightarrow> rat) \<Rightarrow> ('p \<Rightarrow> 'p \<Rightarrow> bool) \<Rightarrow> 'p list \<Rightarrow> (rat, nat) dict \<Rightarrow> 'p option list
     \<Rightarrow> 'p list \<times> (rat, nat) dict" where
  "buildSeriesFromMaps key same baselineSeries baselineIndexMap realtime =
     fold (build_step key same) realtime (baselineSeries, baselineIndexMap)"

section \<open>The abstract series\<close>

abbreviation ascending :: "('p \<Rightarrow> rat) \<Rightarrow> 'p list \<Rightarrow> bool" where
  "ascending key s \<equiv> sorted_wrt (<) (map key s)"

fun upd_series :: "('p \<Rightarrow> rat) \<Rightarrow> 'p \<Rightarrow> 'p list \<Rightarrow> 'p list" where
  "upd_series key x [] = [x]"
| "upd_series key x (y # ys) =
     (if key x < key y then x # y # ys
      else if key x = key y then x # ys
      else y # upd_series key x ys)"

definition series_at :: "('p \<Rightarrow> rat) \<Rightarrow> 'p list \<Rightarrow> rat \<Rightarrow> 'p option" where
  "series_at key s t = find (\<lambda>p. key p = t) s"

lemma keys_upd_series: "key ` set (upd_series key x s) = insert (key x) (key ` set s)"
  by (induction s) auto

lemma ascending_upd_series: "ascending key s \<Longrightarrow> ascending key (upd_series key x s)"
proof (induction s)
  case Nil
  then show ?case by simp
next
  case (Cons y ys)
  then show ?case
    using keys_upd_series [of key x ys] by (auto simp: image_iff)
qed

lemma series_at_upd_series:
  "ascending key s \<Longrightarrow> series_at key (upd_series key x s) t = (if t = key x then Some x else series_at key s t)"
proof (induction s)
  case Nil
  then show ?case by (simp add: series_at_def)
next
  case (Cons y ys)
  have "series_at key ys (key y) = None" using Cons.prems by (auto simp: series_at_def find_None_iff)
  then show ?case using Cons by (auto simp: series_at_def)
qed

lemma upd_series_append:
  "\<forall>y \<in> set ys. key y < key x \<Longrightarrow> upd_series key x (ys @ zs) = ys @ upd_series key x zs"
  by (induction ys) auto

lemma upd_series_below:
  "\<forall>y \<in> set ys. key x < key y \<Longrightarrow> upd_series key x ys = x # ys"
  by (cases ys) auto

lemma upd_series_present:
  "ascending key s \<Longrightarrow> i < length s \<Longrightarrow> key (s ! i) = key x \<Longrightarrow> upd_series key x s = s[i := x]"
proof (induction s arbitrary: i)
  case Nil
  then show ?case by simp
next
  case (Cons y ys)
  show ?case
  proof (cases i)
    case 0
    then show ?thesis using Cons.prems by simp
  next
    case (Suc j)
    then have "j < length ys" and j: "key (ys ! j) = key x" using Cons.prems by simp_all
    then have "ys ! j \<in> set ys" by simp
    then have "key y < key (ys ! j)" using Cons.prems(1) by simp
    then have "key y < key x" by (simp add: j)
    then show ?thesis using Cons Suc by auto
  qed
qed

lemma sort_list_update:
  "sorted (map key s) \<Longrightarrow> key (s ! i) = key x \<Longrightarrow> sort_key key (s[i := x]) = s[i := x]"
proof (rule sort_key_id_if_sorted)
  assume a: "sorted (map key s)" "key (s ! i) = key x"
  then have "(map key s)[i := key x] = map key s"
    by (cases "i < length s") (simp_all add: list_update_same_conv list_update_beyond)
  then show "sorted (map key (s[i := x]))" using a by (simp add: map_update)
qed

lemma sort_snoc_upd:
  assumes asc: "ascending key s" and new: "\<forall>p \<in> set s. key p \<noteq> key x"
  shows "sort_key key (s @ [x]) = upd_series key x s"
proof (rule map_sorted_distinct_set_unique)
  have set_upd: "set (upd_series key x s) = insert x (set s)"
    using new by (induction s) auto
  have inj: "inj_on key (set s)" and dst: "distinct (map key s)"
    using asc strict_sorted_iff [of "map key s"] by (auto simp: distinct_map)
  then show "inj_on key (set (sort_key key (s @ [x])) \<union> set (upd_series key x s))"
    using new by (auto simp: set_upd inj_on_def)
  show "sorted (map key (sort_key key (s @ [x])))" by simp
  have "distinct (map key (s @ [x]))" using dst new by auto
  then show "distinct (map key (sort_key key (s @ [x])))"
    by (simp add: map_key_sort_key)
  have "ascending key (upd_series key x s)" by (rule ascending_upd_series [OF asc])
  then show "sorted (map key (upd_series key x s))" "distinct (map key (upd_series key x s))"
    using strict_sorted_iff by blast+
  show "set (sort_key key (s @ [x])) = set (upd_series key x s)"
    by (simp add: set_upd)
qed

lemma set_upd_series:
  "ascending key s \<Longrightarrow> set (upd_series key x s) = insert x {p \<in> set s. key p \<noteq> key x}"
  by (induction s) auto

lemma ascending_set_unique:
  assumes "ascending key s" "ascending key s'" "set s = set s'"
  shows "s = s'"
proof (rule map_sorted_distinct_set_unique)
  show "inj_on key (set s \<union> set s')"
    using assms strict_sorted_iff [of "map key s"] by (simp add: distinct_map)
  show "sorted (map key s)" "distinct (map key s)" "sorted (map key s')" "distinct (map key s')"
    using assms(1,2) strict_sorted_iff by blast+
qed (rule assms(3))

text \<open>The sorted entries of a dictionary, when one of them is written.\<close>

lemma set_dict_set: "dict_wf d \<Longrightarrow> set (dict_set d k v) = insert (k, v) {e \<in> set d. fst e \<noteq> k}"
  by (induction d k v rule: dict_set.induct) auto

lemma ascending_sort_dict:
  "dict_wf d \<Longrightarrow> (\<And>e. key (mk e) = fst e) \<Longrightarrow> ascending key (map mk (sort_key fst d))"
  by (simp add: comp_def map_key_sort_key strict_sorted_iff)

lemma sort_dict_set:
  assumes wf: "dict_wf d" and key: "\<And>e. key (mk e) = fst e"
  shows "map mk (sort_key fst (dict_set d k v)) = upd_series key (mk (k, v)) (map mk (sort_key fst d))"
proof (rule ascending_set_unique [of key])
  note asc = ascending_sort_dict [of _ key mk, OF _ key]
  show "ascending key (map mk (sort_key fst (dict_set d k v)))" by (rule asc) (simp add: wf)
  show "ascending key (upd_series key (mk (k, v)) (map mk (sort_key fst d)))"
    by (intro ascending_upd_series asc wf)
  show "set (map mk (sort_key fst (dict_set d k v))) = set (upd_series key (mk (k, v)) (map mk (sort_key fst d)))"
    using set_upd_series [OF asc [OF wf], of "mk (k, v)"] set_dict_set [OF wf, of k v] key
    by (auto simp: image_iff)
qed

text \<open>Writing the place of a point, or adding it at the end, and sorting again.\<close>

lemma replace_or_push:
  assumes "ascending key s"
  shows "(case find_index (\<lambda>p. key p = key x) s of
      Some i \<Rightarrow> sort_key key (s[i := x]) | None \<Rightarrow> sort_key key (s @ [x])) = upd_series key x s"
proof (cases "find_index (\<lambda>p. key p = key x) s")
  case None
  then have "\<forall>p \<in> set s. key p \<noteq> key x" by (simp add: find_index_None_iff)
  then show ?thesis using sort_snoc_upd [OF assms, of x] None by simp
next
  case (Some i)
  then show ?thesis
    using find_index_SomeD [OF Some] upd_series_present [OF assms, of i x]
      sort_list_update [OF strict_sorted_imp_sorted [OF assms], of i x] by simp
qed

section \<open>Binary search\<close>

lemma find_insert_loop_spec:
  assumes "sorted (map key s)" and "low \<le> high" and "high \<le> length s"
    and "\<forall>i < low. key (s ! i) < t" and "\<forall>i. high \<le> i \<longrightarrow> i < length s \<longrightarrow> t \<le> key (s ! i)"
  shows "find_insert_loop key s t low high \<le> length s
    \<and> (\<forall>i < find_insert_loop key s t low high. key (s ! i) < t)
    \<and> (\<forall>i. find_insert_loop key s t low high \<le> i \<longrightarrow> i < length s \<longrightarrow> t \<le> key (s ! i))"
  using assms
proof (induction key s t low high rule: find_insert_loop.induct)
  case (1 key s t low high)
  show ?case
  proof (cases "low < high")
    case False
    then show ?thesis
      using "1.prems" by (subst (1 2 3) find_insert_loop.simps) auto
  next
    case True
    define mid where "mid = (low + high) div 2"
    have mid: "low \<le> mid" "mid < high" using True by (auto simp: mid_def)
    have mono: "key (s ! i) \<le> key (s ! j)" if "i \<le> j" "j < length s" for i j
      using that "1.prems"(1) sorted_nth_mono [of "map key s" i j] by simp
    show ?thesis
    proof (cases "key (s ! mid) < t")
      case True
      have "\<forall>i < mid + 1. key (s ! i) < t"
      proof (intro allI impI)
        fix i assume "i < mid + 1"
        then have "key (s ! i) \<le> key (s ! mid)" using mono [of i mid] mid "1.prems"(3) by simp
        with True show "key (s ! i) < t" by simp
      qed
      moreover have "find_insert_loop key s t low high = find_insert_loop key s t (mid + 1) high"
        using True \<open>low < high\<close> by (subst find_insert_loop.simps) (simp add: mid_def Let_def)
      ultimately show ?thesis
        using "1.IH"(1) [OF \<open>low < high\<close> mid_def True "1.prems"(1) _ "1.prems"(3) _ "1.prems"(5)] mid
        by simp
    next
      case False
      then have "\<forall>i. mid \<le> i \<longrightarrow> i < length s \<longrightarrow> t \<le> key (s ! i)"
        using mono [of mid] by fastforce
      moreover have "find_insert_loop key s t low high = find_insert_loop key s t low mid"
        using False \<open>low < high\<close> by (subst find_insert_loop.simps) (simp add: mid_def Let_def)
      moreover have "mid \<le> length s" using mid "1.prems"(3) by simp
      ultimately show ?thesis
        using "1.IH"(2) [OF \<open>low < high\<close> mid_def False "1.prems"(1) mid(1) _ "1.prems"(4)]
        by simp
    qed
  qed
qed

lemma findInsertIndex_spec:
  assumes "sorted (map key s)"
  shows "findInsertIndex key s t \<le> length s"
    and "\<forall>p \<in> set (take (findInsertIndex key s t) s). key p < t"
    and "\<forall>p \<in> set (drop (findInsertIndex key s t) s). t \<le> key p"
proof -
  note f = find_insert_loop_spec [of key s 0 "length s" t, OF assms, simplified, folded findInsertIndex_def]
  show "findInsertIndex key s t \<le> length s" using f by blast
  show "\<forall>p \<in> set (take (findInsertIndex key s t) s). key p < t"
    using f by (auto simp: in_set_conv_nth)
  show "\<forall>p \<in> set (drop (findInsertIndex key s t) s). t \<le> key p"
    using f by (auto simp: in_set_conv_nth)
qed

lemma upd_series_at_index:
  assumes "ascending key s"
  shows "upd_series key x s =
    (let i = findInsertIndex key s (key x)
     in if i < length s \<and> key (s ! i) = key x then s[i := x] else take i s @ [x] @ drop i s)"
proof -
  define i where "i = findInsertIndex key s (key x)"
  note f = findInsertIndex_spec [OF strict_sorted_imp_sorted [OF assms], of "key x", folded i_def]
  have s: "upd_series key x s = take i s @ upd_series key x (drop i s)"
    using upd_series_append [OF f(2), of "drop i s"] by simp
  show ?thesis
  proof (cases "i < length s \<and> key (s ! i) = key x")
    case True
    then have "drop i s = s ! i # drop (Suc i) s" by (simp add: Cons_nth_drop_Suc)
    then have "upd_series key x (drop i s) = x # drop (Suc i) s" using True by simp
    then show ?thesis using True s by (simp add: i_def [symmetric] upd_conv_take_nth_drop)
  next
    case False
    have "\<forall>p \<in> set (drop i s). key x < key p"
    proof
      fix p assume p: "p \<in> set (drop i s)"
      then have i: "i < length s" by (metis drop_all empty_iff linorder_not_less list.set(1))
      then have hd: "drop i s = s ! i # drop (Suc i) s" by (simp add: Cons_nth_drop_Suc)
      have "key x < key (s ! i)" using False i f(3) hd by (metis list.set_intros(1) order_le_less)
      moreover have "key (s ! i) \<le> key p"
        using p hd assms sorted_wrt_drop [of "(<)" "map key s" i] by (auto simp: drop_map)
      ultimately show "key x < key p" by simp
    qed
    then have "upd_series key x s = take i s @ [x] @ drop i s"
      using s upd_series_below [of "drop i s" key x] by simp
    then show ?thesis using False unfolding Let_def i_def [symmetric] by (simp only: if_False)
  qed
qed

section \<open>Index maps\<close>

text \<open>
  The index map a hook keeps beside its series: under every minute of the series the position
  of the last point of that minute.
\<close>

definition index_exact :: "('p \<Rightarrow> rat) \<Rightarrow> 'p list \<Rightarrow> (rat, nat) dict \<Rightarrow> bool" where
  "index_exact key s m \<longleftrightarrow>
     (\<forall>t i. dict_get m t = Some i \<longleftrightarrow>
        i < length s \<and> key (s ! i) = t \<and> (\<forall>j. i < j \<longrightarrow> j < length s \<longrightarrow> key (s ! j) \<noteq> t))"

lemma index_exactD:
  assumes "index_exact key s m" and "dict_get m t = Some i"
  shows "i < length s" and "key (s ! i) = t" and "\<forall>p \<in> set (drop (Suc i) s). key p \<noteq> t"
  using assms unfolding index_exact_def by (blast, blast, auto simp: in_set_conv_nth)

lemma index_exact_None:
  assumes "index_exact key s m"
  shows "dict_get m t = None \<longleftrightarrow> (\<forall>p \<in> set s. key p \<noteq> t)"
proof
  assume None: "dict_get m t = None"
  show "\<forall>p \<in> set s. key p \<noteq> t"
  proof (rule ccontr)
    assume "\<not> (\<forall>p \<in> set s. key p \<noteq> t)"
    then have ex: "\<exists>i. i < length s \<and> key (s ! i) = t" by (auto simp: in_set_conv_nth)
    define i where "i = (GREATEST i. i < length s \<and> key (s ! i) = t)"
    have b: "j \<le> length s" if "j < length s \<and> key (s ! j) = t" for j using that by simp
    have "i < length s \<and> key (s ! i) = t"
      unfolding i_def by (rule GreatestI_ex_nat [where b = "length s"]) (use ex b in blast)+
    moreover have "j \<le> i" if "j < length s \<and> key (s ! j) = t" for j
      unfolding i_def by (rule Greatest_le_nat [where b = "length s"]) (use that b in blast)+
    ultimately have "dict_get m t = Some i"
      using assms unfolding index_exact_def by (metis leD)
    with None show False by simp
  qed
next
  assume "\<forall>p \<in> set s. key p \<noteq> t"
  then show "dict_get m t = None"
    using index_exactD(1,2) [OF assms, of t] nth_mem by (cases "dict_get m t") blast+
qed

lemma index_exact_rebuild [simp, inv_intros]: "index_exact key s (rebuildIndexMap key s)"
proof -
  have "dict_get (fold (\<lambda>i m. dict_set m (key (s ! i)) i) [0..<n] []) t = Some i \<longleftrightarrow>
      i < n \<and> key (s ! i) = t \<and> (\<forall>j. i < j \<longrightarrow> j < n \<longrightarrow> key (s ! j) \<noteq> t)" for n t i
    by (induction n) (auto simp: less_Suc_eq)
  then show ?thesis by (simp add: index_exact_def rebuildIndexMap_def)
qed

lemma index_exact_update:
  assumes "index_exact key s m" and "key x = key (s ! i)"
  shows "index_exact key (s[i := x]) m"
proof -
  have "key (s[i := x] ! j) = key (s ! j)" if "j < length s" for j
    using assms(2) that by (cases "i = j") auto
  then show ?thesis using assms(1) unfolding index_exact_def by (auto 4 3)
qed

text \<open>The record of the last value of every minute, which the hooks hand to the charts.\<close>

definition minute_record :: "('p \<Rightarrow> rat) \<Rightarrow> ('p \<Rightarrow> 'v) \<Rightarrow> 'p list \<Rightarrow> (rat, 'v) dict" where
  "minute_record key val s = fold (\<lambda>p out. dict_set out (key p) (val p)) s []"

lemma minute_record_get:
  "dict_get (minute_record key val s) = map_of (rev (map (\<lambda>p. (key p, val p)) s))"
proof -
  have "dict_get (fold (\<lambda>p out. dict_set out (key p) (val p)) s d)
      = dict_get d ++ map_of (rev (map (\<lambda>p. (key p, val p)) s))" for d
  proof (induction s arbitrary: d)
    case Nil
    then show ?case by simp
  next
    case (Cons p s)
    then show ?case by (simp add: map_add_def fun_eq_iff split: option.splits)
  qed
  then show ?thesis by (simp add: minute_record_def)
qed

lemma minute_record_append:
  "dict_get (minute_record key val (s @ s')) = dict_get (minute_record key val s) ++ dict_get (minute_record key val s')"
  by (simp add: minute_record_get)

lemma minute_record_Nil [simp]: "minute_record key val [] = []"
  by (simp add: minute_record_def)

lemma minute_record_sing [simp]: "minute_record key val [p] = [(key p, val p)]"
  by (simp add: minute_record_def)

lemma minute_record_absent:
  "(\<forall>p \<in> set s. key p \<noteq> t) \<Longrightarrow> dict_get (minute_record key val s) t = None"
  by (auto simp: minute_record_get map_of_eq_None_iff)

lemma minute_record_insert:
  assumes "\<forall>p \<in> set s'. key p \<noteq> key x"
  shows "dict_get (minute_record key val (s @ x # s')) =
    (dict_get (minute_record key val (s @ s')))(key x \<mapsto> val x)"
proof -
  have "dict_get (minute_record key val s') (key x) = None"
    using assms by (rule minute_record_absent)
  then show ?thesis
    using minute_record_append [of key val s "[x] @ s'"] minute_record_append [of key val "[x]" s']
      minute_record_append [of key val s s']
    by (auto simp: fun_eq_iff map_add_def split: option.splits)
qed

lemma minute_record_replace:
  assumes "i < length s" and "key x = key (s ! i)" and "\<forall>p \<in> set (drop (Suc i) s). key p \<noteq> key x"
  shows "dict_get (minute_record key val (s[i := x])) =
    (dict_get (minute_record key val s))(key x \<mapsto> val x)"
proof -
  have "dict_get (minute_record key val s) =
      (dict_get (minute_record key val (take i s @ drop (Suc i) s)))(key x \<mapsto> val (s ! i))"
    using minute_record_insert [of "drop (Suc i) s" key "s ! i" val "take i s"] assms
    by (simp add: id_take_nth_drop [symmetric])
  moreover have "s[i := x] = take i s @ x # drop (Suc i) s"
    using assms(1) by (simp add: upd_conv_take_nth_drop)
  ultimately show ?thesis
    using minute_record_insert [OF assms(3), of val "take i s"] by simp
qed

lemma minute_record_last:
  "dict_get (minute_record key val s) t =
    (if filter (\<lambda>p. key p = t) s = [] then None else Some (val (last (filter (\<lambda>p. key p = t) s))))"
proof (induction s rule: rev_induct)
  case Nil
  then show ?case by simp
next
  case (snoc p s)
  then show ?case by (simp add: minute_record_append)
qed

text \<open>Sorting is stable, so it does not change which point of a minute is the last.\<close>

lemma minute_record_sort:
  "dict_get (minute_record key val (sort_key key s)) = dict_get (minute_record key val s)"
  by (simp add: fun_eq_iff minute_record_last sort_key_stable)

section \<open>The state of a hook\<close>

text \<open>
  The series of a hook (React state) and its index map (a ref). A baseline resets both; a
  realtime point goes through \<open>upsertPoint\<close>, and nothing is written when nothing changed.
\<close>

record 'p timeline_state =
  tl_series :: "'p list"
  tl_index :: "(rat, nat) dict"

definition reset_timeline :: "('p \<Rightarrow> rat) \<Rightarrow> 'p list \<Rightarrow> 'p timeline_state" where
  "reset_timeline key baseline = \<lparr>tl_series = baseline, tl_index = rebuildIndexMap key baseline\<rparr>"

definition patch_timeline ::
  "('p \<Rightarrow> rat) \<Rightarrow> ('p \<Rightarrow> 'p \<Rightarrow> bool) \<Rightarrow> 'p \<Rightarrow> 'p timeline_state \<Rightarrow> 'p timeline_state" where
  "patch_timeline key same point st =
     (case upsertPoint key same (tl_series st) (tl_index st) point of
        (nextSeries, nextIndexMap, didChange) \<Rightarrow>
          if didChange then \<lparr>tl_series = nextSeries, tl_index = nextIndexMap\<rparr> else st)"

definition timeline_ok :: "('p \<Rightarrow> rat) \<Rightarrow> 'p timeline_state \<Rightarrow> bool" where
  "timeline_ok key st \<longleftrightarrow>
     sorted (map key (tl_series st)) \<and> index_exact key (tl_series st) (tl_index st)"

lemma reset_timeline_ok [inv_intros]:
  "sorted (map key s) \<Longrightarrow> timeline_ok key (reset_timeline key s)"
  by (simp add: timeline_ok_def reset_timeline_def)

lemma reset_timeline_sort [simp, inv_intros]: "timeline_ok key (reset_timeline key (sort_key key s))"
  by (rule reset_timeline_ok) simp

lemma empty_timeline_ok [simp, inv_intros]: "timeline_ok key \<lparr>tl_series = [], tl_index = []\<rparr>"
  by (simp add: timeline_ok_def index_exact_def)

section \<open>The contract\<close>

text \<open>
  All a client has to promise is that points the comparison calls the same are equal. (The
  converse fails on fields that are not a number.)
\<close>

locale timeline =
  fixes key :: "'p \<Rightarrow> rat" and same :: "'p \<Rightarrow> 'p \<Rightarrow> bool"
  assumes same_eq: "same a b \<Longrightarrow> a = b"
begin

text \<open>Whatever the index map holds, an upsert into an ascending series is the abstract update.\<close>

lemma upsert_is_update:
  assumes "ascending key s"
  shows "fst (upsertPoint key same s m x) = upd_series key x s"
proof -
  define i where "i = findInsertIndex key s (key x)"
  have u: "upd_series key x s =
      (if i < length s \<and> key (s ! i) = key x then s[i := x] else take i s @ [x] @ drop i s)"
    using upd_series_at_index [OF assms, of x] by (simp add: Let_def i_def)
  have inj: "j = i" if "j < length s" "key (s ! j) = key x" "i < length s" "key (s ! i) = key x" for j
    using sorted_wrt_less_key_inj [OF assms] that by metis
  have hit: "i < length s \<and> key (s ! i) = key x" if "j < length s" "key (s ! j) = key x" for j
  proof (rule ccontr)
    assume "\<not> ?thesis"
    moreover have "s ! j \<in> set (take i s) \<or> s ! j \<in> set (drop i s)"
      using that(1) by (metis Un_iff append_take_drop_id nth_mem set_append)
    moreover note f = findInsertIndex_spec [OF strict_sorted_imp_sorted [OF assms], of "key x", folded i_def]
    ultimately have d: "s ! j \<in> set (drop i s)" using that(2) f(2) by fastforce
    then have il: "i < length s" by (metis drop_all empty_iff linorder_not_less list.set(1))
    then have hd: "drop i s = s ! i # drop (Suc i) s" by (simp add: Cons_nth_drop_Suc)
    then have "key x \<le> key (s ! i)" using f(3) by simp
    moreover have "i \<le> j"
      using f(2) that by (metis in_set_conv_nth length_take linorder_not_less min_less_iff_conj nth_take order_less_irrefl)
    then have "key (s ! i) \<le> key (s ! j)"
      using assms that(1) sorted_wrt_nth_less [of "(<)" "map key s" i j] by (cases "i = j") auto
    ultimately show False using il that(2) \<open>\<not> (i < length s \<and> key (s ! i) = key x)\<close> by simp
  qed
  show ?thesis
  proof (cases "\<exists>j. dict_get m (key x) = Some j \<and> j < length s \<and> key (s ! j) = key x")
    case True
    then obtain j where j: "dict_get m (key x) = Some j" "j < length s" "key (s ! j) = key x" by blast
    then have "j = i" using inj hit by blast
    then show ?thesis using j u same_eq [of "s ! i" x] list_update_id [of s i]
      by (auto simp: upsertPoint_def Let_def)
  next
    case False
    then have "(case dict_get m (key x) of
        Some i \<Rightarrow> if i < length s \<and> key (s ! i) = key x then Some i else None | None \<Rightarrow> None) = None"
      by (auto split: option.splits)
    then show ?thesis
      using u same_eq [of "s ! i" x] list_update_id [of s i]
      by (auto simp: upsertPoint_def i_def [symmetric] Let_def)
  qed
qed

text \<open>On a state whose index map is exact, an upsert finds a point of its minute or inserts.\<close>

lemma upsert_cases [consumes 1, case_names same replace insert]:
  assumes ok: "timeline_ok key \<lparr>tl_series = s, tl_index = m\<rparr>"
  obtains (same) i where "dict_get m (key x) = Some i" "s ! i = x"
      "upsertPoint key same s m x = (s, m, False)"
  | (replace) i where "dict_get m (key x) = Some i" "upsertPoint key same s m x = (s[i := x], m, True)"
  | (insert) i where "\<forall>p \<in> set s. key p \<noteq> key x" "i \<le> length s"
      "\<forall>p \<in> set (take i s). key p < key x" "\<forall>p \<in> set (drop i s). key x < key p"
      "upsertPoint key same s m x = (take i s @ x # drop i s, rebuildIndexMap key (take i s @ x # drop i s), True)"
proof (cases "dict_get m (key x)")
  case (Some i)
  have ex: "index_exact key s m" using ok by (simp add: timeline_ok_def)
  note d = index_exactD [OF ex Some]
  show thesis
  proof (cases "same (s ! i) x")
    case True
    then have "upsertPoint key same s m x = (s, m, False)" using Some d by (simp add: upsertPoint_def)
    then show thesis using same_eq [OF True] Some by (rule_tac that(1))
  next
    case False
    then have "upsertPoint key same s m x = (s[i := x], m, True)"
      using Some d by (simp add: upsertPoint_def)
    then show thesis using Some by (rule_tac that(2))
  qed
next
  case None
  define i where "i = findInsertIndex key s (key x)"
  have ex: "index_exact key s m" and srt: "sorted (map key s)" using ok by (simp_all add: timeline_ok_def)
  have fresh: "\<forall>p \<in> set s. key p \<noteq> key x" using index_exact_None [OF ex] None by blast
  note f = findInsertIndex_spec [OF srt, of "key x", folded i_def]
  have "\<not> (i < length s \<and> key (s ! i) = key x)" using fresh by (auto dest: nth_mem)
  then have "upsertPoint key same s m x
      = (take i s @ x # drop i s, rebuildIndexMap key (take i s @ x # drop i s), True)"
    using None unfolding upsertPoint_def i_def [symmetric] Let_def by (simp only: if_False) simp
  moreover have "\<forall>p \<in> set (drop i s). key x < key p"
    using f(3) fresh in_set_dropD [of _ i s] by fastforce
  ultimately show thesis using fresh f(1,2) by (rule_tac that(3))
qed

lemma patch_ok: "timeline_ok key st \<Longrightarrow> timeline_ok key (patch_timeline key same x st)"
proof -
  assume ok: "timeline_ok key st"
  obtain s m where st: "st = \<lparr>tl_series = s, tl_index = m\<rparr>" by (cases st)
  have srt: "sorted (map key s)" and ex: "index_exact key s m" using ok by (simp_all add: st timeline_ok_def)
  show ?thesis using ok [unfolded st]
  proof (cases rule: upsert_cases [where x = x])
    case (same i)
    then show ?thesis using ok by (simp add: st patch_timeline_def)
  next
    case (replace i)
    have "map key (s[i := x]) = map key s"
      using index_exactD(1,2) [OF ex replace(1)] by (simp add: map_update list_update_same_conv)
    then show ?thesis using srt replace index_exact_update [OF ex] index_exactD(2) [OF ex replace(1)]
      by (simp add: st patch_timeline_def timeline_ok_def)
  next
    case (insert i)
    have "sorted (map key (take i s))" "sorted (map key (drop i s))"
      using srt by (simp_all add: take_map [symmetric] drop_map [symmetric] sorted_wrt_take sorted_wrt_drop)
    then have "sorted (map key (take i s @ x # drop i s))"
      using insert(3,4) by (fastforce simp: sorted_append)
    then show ?thesis using insert(5) by (simp add: st patch_timeline_def timeline_ok_def)
  qed
qed

lemma patch_record:
  assumes ok: "timeline_ok key st"
  shows "dict_get (minute_record key val (tl_series (patch_timeline key same x st))) =
    (dict_get (minute_record key val (tl_series st)))(key x \<mapsto> val x)"
proof -
  obtain s m where st: "st = \<lparr>tl_series = s, tl_index = m\<rparr>" by (cases st)
  have ex: "index_exact key s m" using ok by (simp_all add: st timeline_ok_def)
  show ?thesis using ok [unfolded st]
  proof (cases rule: upsert_cases [where x = x])
    case (same i)
    then show ?thesis
      using minute_record_replace [of i s key x val] index_exactD [OF ex same(1)] list_update_id [of s i]
      by (simp add: st patch_timeline_def)
  next
    case (replace i)
    then show ?thesis
      using minute_record_replace [of i s key x val] index_exactD [OF ex replace(1)]
      by (simp add: st patch_timeline_def)
  next
    case (insert i)
    then have "\<forall>p \<in> set (drop i s). key p \<noteq> key x" by fastforce
    then show ?thesis
      using insert(5) minute_record_insert [of "drop i s" key x val "take i s"]
      by (simp add: st patch_timeline_def)
  qed
qed

lemma patch_ascending:
  assumes "ascending key (tl_series st)"
  shows "tl_series (patch_timeline key same x st) = upd_series key x (tl_series st)"
proof -
  obtain s' m' ch where u: "upsertPoint key same (tl_series st) (tl_index st) x = (s', m', ch)"
    by (cases "upsertPoint key same (tl_series st) (tl_index st) x")
  have "\<not> ch \<Longrightarrow> s' = tl_series st"
    using u by (auto simp: upsertPoint_def Let_def split: option.splits if_splits)
  then show ?thesis
    using u upsert_is_update [OF assms, of "tl_index st" x] by (auto simp: patch_timeline_def)
qed

lemma build_is_fold:
  assumes "ascending key s"
  shows "fst (buildSeriesFromMaps key same s m realtime)
    = fold (upd_series key) (List.map_filter (\<lambda>v. v) realtime) s"
  using assms
proof (induction realtime arbitrary: s m)
  case Nil
  then show ?case by (simp add: buildSeriesFromMaps_def List.map_filter_def)
next
  case (Cons v vs)
  show ?case
  proof (cases v)
    case None
    then show ?thesis using Cons by (simp add: buildSeriesFromMaps_def build_step_def List.map_filter_def)
  next
    case (Some x)
    obtain s' m' ch where u: "upsertPoint key same s m x = (s', m', ch)"
      by (cases "upsertPoint key same s m x")
    have "\<not> ch \<Longrightarrow> s' = s"
      using u by (auto simp: upsertPoint_def Let_def split: option.splits if_splits)
    then obtain m'' where "build_step key same v (s, m) = (upd_series key x s, m'')"
      using u Some upsert_is_update [OF Cons.prems, of m x] by (cases ch) (auto simp: build_step_def)
    then show ?thesis
      using Cons.IH [OF ascending_upd_series [OF Cons.prems], of x m''] Some
      by (simp add: buildSeriesFromMaps_def List.map_filter_def)
  qed
qed

end

section \<open>Where a minute belongs\<close>

text \<open>
  Binary search: on a series in ascending order \<open>findInsertIndex\<close> returns the number of
  points before the minute, which is at most the length of the series, so the insertion and the
  two reads at that place stay inside it.
\<close>

lemma insert_index_counts:
  assumes "sorted (map key s)"
  shows "findInsertIndex key s t = length (filter (\<lambda>p. key p < t) s) \<and> findInsertIndex key s t \<le> length s"
proof -
  let ?i = "findInsertIndex key s t"
  note f = findInsertIndex_spec [OF assms, of t]
  have "filter (\<lambda>p. key p < t) (take ?i s @ drop ?i s) = take ?i s"
    unfolding filter_append using f(2,3) by (simp add: filter_empty_conv not_less)
  then show ?thesis using f(1) by simp
qed

lemma insert_index_counts_witness:
  "findInsertIndex (\<lambda>x. x) [1, 2, 2, 5] 3 = length (filter (\<lambda>p. p < 3) [1, 2, 2, 5 :: rat])
    \<and> findInsertIndex (\<lambda>x. x) [1, 2, 2, 5 :: rat] 3 \<le> length [1, 2, 2, 5 :: rat]"
  by (rule insert_index_counts) simp

end
