(* ===== verification/OrderFlow.thy ===== *)
theory OrderFlow
  imports Timeline TaipeiClock
begin

text \<open>
  The order-flow series: \<open>features/dashboard/lib/market-overview-mapper.ts\<close> and
  \<open>secondary-overlay-series.ts\<close>.

  A row of an API response is a run-time value when the code tests the types of its fields
  (metrics), and a record of the declared fields when the code trusts them (k-bars). Formatting
  a time outside the range of dates throws, which is None. Records keyed by minute are
  dictionaries keyed by the number: a minute is never an array index, so they keep insertion
  order.
\<close>

section \<open>Rows and points\<close>

record kbar_today =
  kb_trade_date :: string
  kb_minute_ts :: rat
  kb_open :: rat
  kb_high :: rat
  kb_low :: rat
  kb_close :: rat
  kb_day_amplitude :: "rat option"

record order_flow_point =
  of_minuteTs :: rat
  of_time :: string
  of_indexPrice :: rat
  of_chipDelta :: jsnum

record order_flow_patch =
  pa_minuteTs :: rat
  pa_indexPrice :: "rat option"
  pa_chipDelta :: "jsnum option"

record metric_sample =
  ms_minuteTs :: rat
  ms_ts :: rat
  ms_value :: jsnum

section \<open>Minutes\<close>

definition minuteKeyFromEpochMs :: "rat \<Rightarrow> rat" where
  "minuteKeyFromEpochMs ts = of_int (\<lfloor>ts / 60000\<rfloor> * 60000)"

definition taipei_minute :: "int \<Rightarrow> nat" where
  "taipei_minute t = nat ((t + taipei_offset) mod day_ms div 60000)"

definition formatMinuteLabel :: "rat \<Rightarrow> string option" where
  "formatMinuteLabel minuteTs =
     map_option (\<lambda>t. pad2 (taipei_minute t div 60) @ '':'' @ pad2 (taipei_minute t mod 60)) (time_clip minuteTs)"

lemma minute_key_le: "minuteKeyFromEpochMs ts \<le> ts" and minute_key_gt: "ts < minuteKeyFromEpochMs ts + 60000"
proof -
  have "of_int \<lfloor>ts / 60000\<rfloor> \<le> ts / 60000" "ts / 60000 < of_int \<lfloor>ts / 60000\<rfloor> + 1" by linarith+
  then show "minuteKeyFromEpochMs ts \<le> ts" "ts < minuteKeyFromEpochMs ts + 60000"
    unfolding minuteKeyFromEpochMs_def by (simp_all add: field_simps)
qed

lemma minute_key_mono: "s \<le> t \<Longrightarrow> minuteKeyFromEpochMs s \<le> minuteKeyFromEpochMs t"
  unfolding minuteKeyFromEpochMs_def of_int_le_iff
  by (intro mult_right_mono floor_mono divide_right_mono) auto

lemma minute_key_idem [simp]: "minuteKeyFromEpochMs (minuteKeyFromEpochMs ts) = minuteKeyFromEpochMs ts"
  by (simp add: minuteKeyFromEpochMs_def)

lemma taipei_minute_less: "taipei_minute t < 1440"
proof -
  have "(t + taipei_offset) mod day_ms < 86400000"
    unfolding day_ms_def by (rule pos_mod_bound) simp
  then show ?thesis unfolding taipei_minute_def by linarith
qed

section \<open>The newest metric of every minute\<close>

definition metric_point_ts :: "(string \<Rightarrow> jsnum) \<Rightarrow> jsval \<Rightarrow> jsnum" where
  "metric_point_ts legacy metric =
     (case js_get metric ''ts'' of Num ts \<Rightarrow> ts
      | _ \<Rightarrow> (case js_get metric ''event_ts'' of Str s \<Rightarrow> date_parse legacy s | _ \<Rightarrow> NaN))"

definition toMinuteMetricSample :: "(string \<Rightarrow> jsnum) \<Rightarrow> jsval \<Rightarrow> metric_sample option" where
  "toMinuteMetricSample legacy metric =
     (case js_get metric ''main_force_big_order'' of
        Num v \<Rightarrow>
          (case metric_point_ts legacy metric of
             Fin ts \<Rightarrow> Some \<lparr>ms_minuteTs = minuteKeyFromEpochMs ts, ms_ts = ts, ms_value = v\<rparr>
           | _ \<Rightarrow> None)
      | _ \<Rightarrow> None)"

definition keep_newest :: "metric_sample \<Rightarrow> (rat, metric_sample) dict \<Rightarrow> (rat, metric_sample) dict" where
  "keep_newest sample latest =
     (case dict_get latest (ms_minuteTs sample) of
        Some current \<Rightarrow> if ms_ts current \<le> ms_ts sample then dict_set latest (ms_minuteTs sample) sample else latest
      | None \<Rightarrow> dict_set latest (ms_minuteTs sample) sample)"

definition latest_by_minute :: "(jsval \<Rightarrow> metric_sample option) \<Rightarrow> jsval list \<Rightarrow> (rat, metric_sample) dict" where
  "latest_by_minute to_sample metrics =
     fold (\<lambda>metric latest. case to_sample metric of None \<Rightarrow> latest | Some sample \<Rightarrow> keep_newest sample latest)
       metrics []"

lemma latest_by_minute_fold:
  "latest_by_minute to_sample metrics = fold keep_newest (List.map_filter to_sample metrics) []"
proof -
  have "fold (\<lambda>metric latest. case to_sample metric of None \<Rightarrow> latest | Some sample \<Rightarrow> keep_newest sample latest)
      metrics d = fold keep_newest (List.map_filter to_sample metrics) d" for d
    by (induction metrics arbitrary: d) (auto simp: List.map_filter_def split: option.splits)
  then show ?thesis by (simp add: latest_by_minute_def)
qed

lemma dict_wf_keep_newest [simp]: "dict_wf d \<Longrightarrow> dict_wf (keep_newest x d)"
  by (auto simp: keep_newest_def split: option.splits)

text \<open>The newest sample of minute \<open>t\<close>, the later one of two at the same instant.\<close>

fun newest_in :: "rat \<Rightarrow> metric_sample list \<Rightarrow> metric_sample option \<Rightarrow> metric_sample option" where
  "newest_in t [] best = best"
| "newest_in t (x # xs) best =
     newest_in t xs
       (if ms_minuteTs x = t \<and> (case best of None \<Rightarrow> True | Some b \<Rightarrow> ms_ts b \<le> ms_ts x) then Some x else best)"

lemma fold_keep_newest:
  "dict_get (fold keep_newest xs d) t = newest_in t xs (dict_get d t)"
  by (induction xs arbitrary: d) (auto simp: keep_newest_def split: option.splits)

lemma latest_by_minute_get:
  "dict_get (latest_by_minute to_sample metrics) t = newest_in t (List.map_filter to_sample metrics) None"
  by (simp add: latest_by_minute_fold fold_keep_newest)

lemma latest_by_minute_wf [simp]: "dict_wf (latest_by_minute to_sample metrics)"
  unfolding latest_by_minute_fold by (rule fold_invariant) auto

lemma newest_in_best:
  assumes "case best of None \<Rightarrow> True | Some b \<Rightarrow> ms_minuteTs b = t"
  shows "(case newest_in t xs best of
      None \<Rightarrow> best = None \<and> (\<forall>x \<in> set xs. ms_minuteTs x \<noteq> t)
    | Some b \<Rightarrow> ms_minuteTs b = t \<and> (b \<in> set xs \<or> best = Some b)
        \<and> (\<forall>x \<in> set xs. ms_minuteTs x = t \<longrightarrow> ms_ts x \<le> ms_ts b)
        \<and> (\<forall>a. best = Some a \<longrightarrow> ms_ts a \<le> ms_ts b))"
  using assms
proof (induction xs arbitrary: best)
  case Nil
  then show ?case by (cases best) auto
next
  case (Cons x xs)
  define b' where "b' = (if ms_minuteTs x = t \<and> (case best of None \<Rightarrow> True | Some b \<Rightarrow> ms_ts b \<le> ms_ts x)
    then Some x else best)"
  have "case b' of None \<Rightarrow> True | Some b \<Rightarrow> ms_minuteTs b = t"
    using Cons.prems by (auto simp: b'_def)
  note IH = Cons.IH [OF this]
  have eq: "newest_in t (x # xs) best = newest_in t xs b'" by (simp add: b'_def)
  show ?case
  proof (cases "ms_minuteTs x = t \<and> (case best of None \<Rightarrow> True | Some b \<Rightarrow> ms_ts b \<le> ms_ts x)")
    case True
    then have "b' = Some x" by (simp add: b'_def)
    then show ?thesis
      using IH True unfolding eq by (cases best; cases "newest_in t xs b'") auto
  next
    case False
    then have "b' = best" unfolding b'_def by (rule if_not_P)
    then show ?thesis
      using IH False unfolding eq by (cases best; cases "newest_in t xs b'") auto
  qed
qed

section \<open>Building the series\<close>

definition order_flow_row :: "rat \<Rightarrow> rat \<Rightarrow> jsnum \<Rightarrow> order_flow_point option" where
  "order_flow_row minuteTs price chip =
     map_option (\<lambda>time. \<lparr>of_minuteTs = minuteTs, of_time = time, of_indexPrice = price, of_chipDelta = chip\<rparr>)
       (formatMinuteLabel minuteTs)"

definition kbar_step ::
  "(rat, metric_sample) dict \<Rightarrow> kbar_today \<Rightarrow> (rat, order_flow_point) dict option
     \<Rightarrow> (rat, order_flow_point) dict option" where
  "kbar_step latestMetricByMinute kbar acc =
     Option.bind acc (\<lambda>series.
       let minuteTs = minuteKeyFromEpochMs (kb_minute_ts kbar);
           chip = (case dict_get latestMetricByMinute minuteTs of Some s \<Rightarrow> ms_value s | None \<Rightarrow> Fin 0)
       in map_option (dict_set series minuteTs) (order_flow_row minuteTs (kb_close kbar) chip))"

definition buildOrderFlowSeries ::
  "(string \<Rightarrow> jsnum) \<Rightarrow> kbar_today list \<Rightarrow> jsval list \<Rightarrow> order_flow_point list option" where
  "buildOrderFlowSeries legacy kbars metrics =
     (let latestMetricByMinute = latest_by_minute (toMinuteMetricSample legacy) metrics
      in map_option (\<lambda>series. sort_key of_minuteTs (map snd series))
           (fold (kbar_step latestMetricByMinute) kbars (Some [])))"

definition buildOrderFlowSeriesFromTimelineMaps ::
  "(rat, rat) dict \<Rightarrow> (rat, jsnum) dict \<Rightarrow> order_flow_point list option" where
  "buildOrderFlowSeriesFromTimelineMaps indexPriceByMinuteTs chipDeltaByMinuteTs =
     (let minuteTsList = sort (map fst indexPriceByMinuteTs)
      in those (map (\<lambda>minuteTs.
           order_flow_row minuteTs
             (case dict_get indexPriceByMinuteTs minuteTs of Some p \<Rightarrow> p | None \<Rightarrow> 0)
             (case dict_get chipDeltaByMinuteTs minuteTs of Some c \<Rightarrow> c | None \<Rightarrow> Fin 0)) minuteTsList))"

definition applyRealtimePatch :: "order_flow_point list \<Rightarrow> order_flow_patch \<Rightarrow> order_flow_point list option" where
  "applyRealtimePatch series patch =
     (let minuteTs = minuteKeyFromEpochMs (pa_minuteTs patch)
      in case find_index (\<lambda>point. of_minuteTs point = minuteTs) series of
           Some existingIndex \<Rightarrow>
             (let current = series ! existingIndex;
                  point = current\<lparr>of_indexPrice := (case pa_indexPrice patch of Some p \<Rightarrow> p | None \<Rightarrow> of_indexPrice current),
                                  of_chipDelta := (case pa_chipDelta patch of Some c \<Rightarrow> c | None \<Rightarrow> of_chipDelta current)\<rparr>
              in Some (sort_key of_minuteTs (series[existingIndex := point])))
         | None \<Rightarrow>
             (case pa_indexPrice patch of
                None \<Rightarrow> Some series
              | Some price \<Rightarrow>
                  map_option (\<lambda>point. sort_key of_minuteTs (series @ [point]))
                    (order_flow_row minuteTs price
                       (case pa_chipDelta patch of Some c \<Rightarrow> c | None \<Rightarrow> Fin 0))))"

text \<open>The records the timeline hooks build from the same rows.\<close>

definition kbar_prices :: "kbar_today list \<Rightarrow> (rat, rat) dict" where
  "kbar_prices kbars = minute_record (\<lambda>k. minuteKeyFromEpochMs (kb_minute_ts k)) kb_close kbars"

definition chip_values :: "(jsval \<Rightarrow> metric_sample option) \<Rightarrow> jsval list \<Rightarrow> (rat, jsnum) dict" where
  "chip_values to_sample metrics = map (\<lambda>(t, s). (t, ms_value s)) (latest_by_minute to_sample metrics)"

lemma minute_record_wf [simp]: "dict_wf (minute_record key val s)"
  unfolding minute_record_def by (rule dict_set_fold_wf) simp

lemma minute_record_keys: "fst ` set (minute_record key val s) = key ` set s"
  by (simp add: minute_record_def dict_set_fold_keys)

lemma kbar_fold_Some:
  fixes latest :: "(rat, metric_sample) dict"
  assumes "\<forall>k \<in> set kbars. formatMinuteLabel (minuteKeyFromEpochMs (kb_minute_ts k)) \<noteq> None"
  defines "g \<equiv> \<lambda>t c. \<lparr>of_minuteTs = t, of_time = the (formatMinuteLabel t), of_indexPrice = c,
       of_chipDelta = (case dict_get latest t of Some s \<Rightarrow> ms_value s | None \<Rightarrow> Fin 0)\<rparr>"
  shows "fold (kbar_step latest) kbars (Some (map (\<lambda>(t, c). (t, g t c)) d)) =
    Some (map (\<lambda>(t, c). (t, g t c)) (fold (\<lambda>k d. dict_set d (minuteKeyFromEpochMs (kb_minute_ts k)) (kb_close k)) kbars d))"
  using assms(1)
proof (induction kbars arbitrary: d)
  case Nil
  then show ?case by simp
next
  case (Cons k kbars)
  let ?t = "minuteKeyFromEpochMs (kb_minute_ts k)"
  have "order_flow_row ?t (kb_close k) (case dict_get latest ?t of Some s \<Rightarrow> ms_value s | None \<Rightarrow> Fin 0)
      = Some (g ?t (kb_close k))"
    using Cons.prems by (auto simp: order_flow_row_def g_def)
  then have "kbar_step latest k (Some (map (\<lambda>(t, c). (t, g t c)) d))
      = Some (map (\<lambda>(t, c). (t, g t c)) (dict_set d ?t (kb_close k)))"
    by (simp add: kbar_step_def Let_def dict_set_map)
  then show ?case using Cons by simp
qed

lemma kbar_fold_None:
  assumes "k \<in> set kbars" and "formatMinuteLabel (minuteKeyFromEpochMs (kb_minute_ts k)) = None"
  shows "fold (kbar_step latest) kbars acc = None"
proof -
  have None: "fold (kbar_step latest) ks None = None" for ks
    by (induction ks) (auto simp: kbar_step_def)
  show ?thesis using assms
  proof (induction kbars arbitrary: acc)
    case Nil
    then show ?case by simp
  next
    case (Cons k' kbars)
    show ?case
    proof (cases "k = k'")
      case True
      then have "kbar_step latest k' acc = None"
        using Cons.prems(2) by (cases acc) (simp_all add: kbar_step_def order_flow_row_def Let_def)
      then show ?thesis using None by simp
    next
      case False
      then show ?thesis using Cons by simp
    qed
  qed
qed

lemma two_builders:
  "buildOrderFlowSeries legacy kbars metrics =
    buildOrderFlowSeriesFromTimelineMaps (kbar_prices kbars) (chip_values (toMinuteMetricSample legacy) metrics)"
proof -
  let ?latest = "latest_by_minute (toMinuteMetricSample legacy) metrics"
  let ?key = "\<lambda>k. minuteKeyFromEpochMs (kb_minute_ts k)"
  let ?d = "kbar_prices kbars"
  let ?g = "\<lambda>t c. \<lparr>of_minuteTs = t, of_time = the (formatMinuteLabel t), of_indexPrice = c,
       of_chipDelta = (case dict_get ?latest t of Some s \<Rightarrow> ms_value s | None \<Rightarrow> Fin 0)\<rparr>"
  have chip: "(case dict_get (chip_values (toMinuteMetricSample legacy) metrics) t of Some c \<Rightarrow> c | None \<Rightarrow> Fin 0)
      = (case dict_get ?latest t of Some s \<Rightarrow> ms_value s | None \<Rightarrow> Fin 0)" for t
    using dict_get_map_key [of "\<lambda>k. ms_value" ?latest t] by (auto simp: chip_values_def split: option.splits)
  show ?thesis
  proof (cases "\<forall>k \<in> set kbars. formatMinuteLabel (?key k) \<noteq> None")
    case True
    have l: "buildOrderFlowSeries legacy kbars metrics = Some (map (\<lambda>(t, c). ?g t c) (sort_key fst ?d))"
      using kbar_fold_Some [OF True, of ?latest "[]"]
      by (simp add: buildOrderFlowSeries_def kbar_prices_def minute_record_def comp_def case_prod_unfold sort_key_map)
    have key: "set (sort_key fst ?d) = set ?d" "map fst (sort_key fst ?d) = sort (map fst ?d)"
      by (simp_all add: map_key_sort_key)
    have "\<forall>t \<in> set (map fst ?d). formatMinuteLabel t \<noteq> None"
      using True by (simp add: kbar_prices_def minute_record_keys)
    then have "those (map (\<lambda>e. order_flow_row (fst e) (case dict_get ?d (fst e) of Some p \<Rightarrow> p | None \<Rightarrow> 0)
          (case dict_get (chip_values (toMinuteMetricSample legacy) metrics) (fst e) of Some c \<Rightarrow> c | None \<Rightarrow> Fin 0)) (sort_key fst ?d))
      = Some (map (\<lambda>(t, c). ?g t c) (sort_key fst ?d))"
      unfolding chip by (intro those_eq_Some) (auto simp: order_flow_row_def kbar_prices_def)
    then show ?thesis
      unfolding l buildOrderFlowSeriesFromTimelineMaps_def Let_def key(2) [symmetric] by (simp add: comp_def)
  next
    case False
    then obtain k where k: "k \<in> set kbars" "formatMinuteLabel (?key k) = None" by auto
    then have "?key k \<in> set (sort (map fst ?d))"
      by (simp add: kbar_prices_def minute_record_keys)
    then have "buildOrderFlowSeriesFromTimelineMaps ?d c = None" for c
      unfolding buildOrderFlowSeriesFromTimelineMaps_def Let_def
      by (rule those_eq_None) (simp add: order_flow_row_def k)
    then show ?thesis by (simp add: buildOrderFlowSeries_def kbar_fold_None [OF k])
  qed
qed

text \<open>
  What the builders are to show, without an order of evaluation: the newest sample of a minute is the
  last one of those that no other of that minute is later than, and the price of a minute is that of
  its last k-bar.
\<close>

definition newest_sample :: "metric_sample list \<Rightarrow> rat \<Rightarrow> metric_sample option" where
  "newest_sample xs t =
     (let newest = filter (\<lambda>x. ms_minuteTs x = t \<and> (\<forall>y \<in> set xs. ms_minuteTs y = t \<longrightarrow> ms_ts y \<le> ms_ts x)) xs
      in if newest = [] then None else Some (last newest))"

definition last_price :: "kbar_today list \<Rightarrow> rat \<Rightarrow> rat option" where
  "last_price kbars t =
     (let ks = filter (\<lambda>k. minuteKeyFromEpochMs (kb_minute_ts k) = t) kbars
      in if ks = [] then None else Some (kb_close (last ks)))"

lemma newest_in_snoc:
  "newest_in t (xs @ [x]) best =
     (if ms_minuteTs x = t \<and> (case newest_in t xs best of None \<Rightarrow> True | Some b \<Rightarrow> ms_ts b \<le> ms_ts x)
      then Some x else newest_in t xs best)"
  by (induction xs arbitrary: best) simp_all

lemma newest_in_sample: "newest_in t xs None = newest_sample xs t"
proof (induction xs rule: rev_induct)
  case Nil
  then show ?case by (simp add: newest_sample_def)
next
  case (snoc x xs)
  note best = newest_in_best [where best = None and t = t and xs = xs, simplified]
  show ?case
  proof (cases "ms_minuteTs x = t \<and> (case newest_in t xs None of None \<Rightarrow> True | Some b \<Rightarrow> ms_ts b \<le> ms_ts x)")
    case True
    then have "\<forall>y \<in> set xs. ms_minuteTs y = t \<longrightarrow> ms_ts y \<le> ms_ts x"
      using best by (cases "newest_in t xs None") fastforce+
    then show ?thesis using True by (simp add: newest_in_snoc newest_sample_def Let_def)
  next
    case False
    have f: "filter (\<lambda>z. ms_minuteTs z = t \<and> (\<forall>y \<in> set (xs @ [x]). ms_minuteTs y = t \<longrightarrow> ms_ts y \<le> ms_ts z)) (xs @ [x])
        = filter (\<lambda>z. ms_minuteTs z = t \<and> (\<forall>y \<in> set xs. ms_minuteTs y = t \<longrightarrow> ms_ts y \<le> ms_ts z)) xs"
    proof (cases "ms_minuteTs x = t")
      case True
      then obtain b where b: "newest_in t xs None = Some b" "ms_ts x < ms_ts b" using False by (auto split: option.splits)
      then have "b \<in> set xs" "ms_minuteTs b = t" using best by simp_all
      then have "ms_ts x \<le> ms_ts z" if "\<forall>y \<in> set xs. ms_minuteTs y = t \<longrightarrow> ms_ts y \<le> ms_ts z" for z
        using that b(2) by force
      moreover have "\<not> (\<forall>y \<in> set xs. ms_minuteTs y = t \<longrightarrow> ms_ts y \<le> ms_ts x)"
        using b(2) \<open>b \<in> set xs\<close> \<open>ms_minuteTs b = t\<close> by force
      ultimately show ?thesis by (auto intro!: filter_cong)
    qed auto
    have "newest_sample (xs @ [x]) t = newest_sample xs t"
      unfolding newest_sample_def f ..
    moreover have "newest_in t (xs @ [x]) None = newest_in t xs None"
      unfolding newest_in_snoc by (rule if_not_P [OF False])
    ultimately show ?thesis using snoc.IH by simp
  qed
qed

lemma kbar_prices_last: "dict_get (kbar_prices kbars) t = last_price kbars t"
  by (induction kbars rule: rev_induct) (auto simp: kbar_prices_def minute_record_def last_price_def Let_def)

lemma chip_values_newest:
  "dict_get (chip_values to_sample metrics) t = map_option ms_value (newest_sample (List.map_filter to_sample metrics) t)"
  using dict_get_map_key [of "\<lambda>k. ms_value" "latest_by_minute to_sample metrics" t]
  by (simp add: chip_values_def latest_by_minute_get newest_in_sample)

text \<open>The second builder reads nothing of its records but their entries.\<close>

lemma timeline_builder_extensional:
  assumes "dict_wf p" "dict_wf p'" and "\<And>t. dict_get p t = dict_get p' t" and "\<And>t. dict_get c t = dict_get c' t"
  shows "buildOrderFlowSeriesFromTimelineMaps p c = buildOrderFlowSeriesFromTimelineMaps p' c'"
proof -
  have "set (map fst p) = set (map fst p')"
    using assms(3) by (metis dom_map_of_conv_image_fst list.set_map ext)
  then have "sort (map fst p) = sort (map fst p')"
    using assms(1,2) by (intro sorted_distinct_set_unique) simp_all
  then show ?thesis by (simp add: buildOrderFlowSeriesFromTimelineMaps_def assms(3,4))
qed

text \<open>
  C17. The two builders agree: \<open>buildOrderFlowSeries\<close> over the k-bars and the metrics of the day
  gives what \<open>buildOrderFlowSeriesFromTimelineMaps\<close> gives over any two records of which one holds, for
  every minute with a k-bar, the close of the last of them, and the other, for every minute with a
  usable metric, the value of its newest one (the last of several of the same instant); and they throw
  on the same inputs.
\<close>

theorem order_flow_builders_agree:
  assumes "dict_wf prices" and "\<And>t. dict_get prices t = last_price kbars t"
    and "\<And>t. dict_get chips t = map_option ms_value (newest_sample (List.map_filter (toMinuteMetricSample legacy) metrics) t)"
  shows "buildOrderFlowSeries legacy kbars metrics = buildOrderFlowSeriesFromTimelineMaps prices chips"
  unfolding two_builders
  by (rule timeline_builder_extensional) (simp_all add: assms kbar_prices_last chip_values_newest, simp add: kbar_prices_def)

text \<open>Two metrics of one minute, the newer one first, and two k-bars of it.\<close>

definition flow_metric :: "rat \<Rightarrow> rat \<Rightarrow> jsval" where
  "flow_metric ts v = Obj 0 [(''ts'', Num (Fin ts)), (''main_force_big_order'', Num (Fin v))]"

definition flow_kbar :: "rat \<Rightarrow> rat \<Rightarrow> kbar_today" where
  "flow_kbar ts c = \<lparr>kb_trade_date = [], kb_minute_ts = ts, kb_open = 0, kb_high = 0, kb_low = 0, kb_close = c,
     kb_day_amplitude = None\<rparr>"

theorem order_flow_builders_agree_witness:
  "buildOrderFlowSeries (\<lambda>_. NaN) [flow_kbar 60000 5, flow_kbar 60001 7] [flow_metric 60030 2, flow_metric 60010 1]
     = buildOrderFlowSeriesFromTimelineMaps [(60000, 7)] [(60000, Fin 2)]"
proof (rule order_flow_builders_agree)
  have m: "minuteKeyFromEpochMs 60000 = 60000" "minuteKeyFromEpochMs 60001 = 60000" "minuteKeyFromEpochMs 60030 = 60000"
    "minuteKeyFromEpochMs 60010 = 60000" by code_simp+
  show "dict_wf [(60000 :: rat, 7 :: rat)]" by simp
  show "dict_get [(60000, 7)] t = last_price [flow_kbar 60000 5, flow_kbar 60001 7] t" for t
    by (simp add: last_price_def flow_kbar_def m)
  show "dict_get [(60000, Fin 2)] t = map_option ms_value (newest_sample
      (List.map_filter (toMinuteMetricSample (\<lambda>_. NaN)) [flow_metric 60030 2, flow_metric 60010 1]) t)" for t
    by (simp add: newest_sample_def flow_metric_def toMinuteMetricSample_def metric_point_ts_def m List.map_filter_def)
qed

section \<open>Patching the series\<close>

fun same_order_flow :: "order_flow_point \<Rightarrow> order_flow_point \<Rightarrow> bool" where
  "same_order_flow a b \<longleftrightarrow>
     of_minuteTs a = of_minuteTs b \<and> of_time a = of_time b \<and> of_indexPrice a = of_indexPrice b
     \<and> num_seq (of_chipDelta a) (of_chipDelta b)"

declare same_order_flow.simps [simp del]

interpretation flow: timeline of_minuteTs same_order_flow
  by unfold_locales (auto simp: same_order_flow.simps dest: num_seq_eq)

lemma find_index_series_at:
  "series_at key s t = map_option (\<lambda>i. s ! i) (find_index (\<lambda>p. key p = t) s)"
  unfolding series_at_def by (induction s) (auto simp: option.map_comp comp_def)

text \<open>
  C18. On a series in ascending order \<open>applyRealtimePatch\<close> is the update of a sorted map: it
  changes the fields the patch carries at the patched minute and nothing else, adds a minute
  only when the patch has a price, and keeps the order.
\<close>

theorem realtime_patch_is_update:
  assumes "ascending of_minuteTs series"
  shows "applyRealtimePatch series patch =
    (let minuteTs = minuteKeyFromEpochMs (pa_minuteTs patch) in
     case series_at of_minuteTs series minuteTs of
       Some current \<Rightarrow>
         Some (upd_series of_minuteTs
           (current\<lparr>of_indexPrice := (case pa_indexPrice patch of Some p \<Rightarrow> p | None \<Rightarrow> of_indexPrice current),
                    of_chipDelta := (case pa_chipDelta patch of Some c \<Rightarrow> c | None \<Rightarrow> of_chipDelta current)\<rparr>) series)
     | None \<Rightarrow>
         (case pa_indexPrice patch of
            None \<Rightarrow> Some series
          | Some price \<Rightarrow>
              map_option (\<lambda>point. upd_series of_minuteTs point series)
                (order_flow_row minuteTs price (case pa_chipDelta patch of Some c \<Rightarrow> c | None \<Rightarrow> Fin 0))))"
proof (cases "find_index (\<lambda>p. of_minuteTs p = minuteKeyFromEpochMs (pa_minuteTs patch)) series")
  case None
  then have "\<forall>p \<in> set series. of_minuteTs p \<noteq> minuteKeyFromEpochMs (pa_minuteTs patch)"
    by (simp add: find_index_None_iff)
  then have "sort_key of_minuteTs (series @ [p]) = upd_series of_minuteTs p series"
    if "of_minuteTs p = minuteKeyFromEpochMs (pa_minuteTs patch)" for p
    using sort_snoc_upd [OF assms, of p] that by simp
  then show ?thesis using None
    by (auto simp: applyRealtimePatch_def find_index_series_at Let_def order_flow_row_def map_option_case
        split: option.splits)
next
  case (Some i)
  note i = find_index_SomeD [OF Some]
  have "upd_series of_minuteTs p series = series[i := p]" "sort_key of_minuteTs (series[i := p]) = series[i := p]"
    if "of_minuteTs p = of_minuteTs (series ! i)" for p
    using upd_series_present [OF assms, of i p] sort_list_update [OF strict_sorted_imp_sorted [OF assms], of i p]
      that i by auto
  then show ?thesis using Some
    by (simp add: applyRealtimePatch_def find_index_series_at Let_def)
qed

theorem realtime_patch_is_update_witness:
  "applyRealtimePatch [\<lparr>of_minuteTs = 60000, of_time = ''08:01'', of_indexPrice = 5, of_chipDelta = Fin 1\<rparr>]
      \<lparr>pa_minuteTs = 60001, pa_indexPrice = Some 7, pa_chipDelta = None\<rparr>
    = Some [\<lparr>of_minuteTs = 60000, of_time = ''08:01'', of_indexPrice = 7, of_chipDelta = Fin 1\<rparr>]"
proof -
  have m: "minuteKeyFromEpochMs 60001 = 60000" by code_simp
  show ?thesis
    by (subst realtime_patch_is_update) (simp_all add: m Let_def series_at_def)
qed

section \<open>The secondary line\<close>

text \<open>
  \<open>buildSecondaryOverlaySeries\<close>: the last finite secondary value up to each minute. An absent
  argument is the empty record.
\<close>

definition overlay_step ::
  "(rat, jsnum) dict \<Rightarrow> order_flow_point \<Rightarrow> order_flow_point list \<times> jsnum \<Rightarrow> order_flow_point list \<times> jsnum" where
  "overlay_step secondaryByMinuteTs point acc =
     (let carry = (case dict_get secondaryByMinuteTs (of_minuteTs point) of
            Some (Fin x) \<Rightarrow> Fin x | _ \<Rightarrow> snd acc)
      in (fst acc @ [\<lparr>of_minuteTs = of_minuteTs point, of_time = of_time point,
                      of_indexPrice = of_indexPrice point, of_chipDelta = carry\<rparr>], carry))"

definition buildSecondaryOverlaySeries ::
  "order_flow_point list \<Rightarrow> (rat, jsnum) dict \<Rightarrow> order_flow_point list" where
  "buildSecondaryOverlaySeries tickSeries secondaryByMinuteTs =
     (if tickSeries = [] then []
      else fst (fold (overlay_step secondaryByMinuteTs) (sort_key of_minuteTs tickSeries) ([], Fin 0)))"

definition useProgramActivitySeries :: "order_flow_point list \<Rightarrow> order_flow_point list" where
  "useProgramActivitySeries tickSeries = buildSecondaryOverlaySeries tickSeries []"

text \<open>The last finite value among the points, else the start value.\<close>

definition last_known :: "(rat, jsnum) dict \<Rightarrow> jsnum \<Rightarrow> order_flow_point list \<Rightarrow> jsnum" where
  "last_known d z points =
     fold (\<lambda>p c. case dict_get d (of_minuteTs p) of Some (Fin x) \<Rightarrow> Fin x | _ \<Rightarrow> c) points z"

lemma overlay_fold:
  "fold (overlay_step d) points (out, c) =
    (out @ map (\<lambda>i. (points ! i)\<lparr>of_chipDelta := last_known d c (take (Suc i) points)\<rparr>) [0..<length points],
     last_known d c points)"
proof (induction points rule: rev_induct)
  case Nil
  then show ?case by (simp add: last_known_def)
next
  case (snoc p points)
  have "map (\<lambda>i. ((points @ [p]) ! i)\<lparr>of_chipDelta := last_known d c (take (Suc i) (points @ [p]))\<rparr>) [0..<length points]
      = map (\<lambda>i. (points ! i)\<lparr>of_chipDelta := last_known d c (take (Suc i) points)\<rparr>) [0..<length points]"
    by (intro map_cong) (auto simp: nth_append)
  moreover have "last_known d c (points @ [p]) =
      (case dict_get d (of_minuteTs p) of Some (Fin x) \<Rightarrow> Fin x | _ \<Rightarrow> last_known d c points)"
    unfolding last_known_def by simp
  moreover have "overlay_step d p (out', c') =
      (out' @ [p\<lparr>of_chipDelta := (case dict_get d (of_minuteTs p) of Some (Fin x) \<Rightarrow> Fin x | _ \<Rightarrow> c')\<rparr>],
       case dict_get d (of_minuteTs p) of Some (Fin x) \<Rightarrow> Fin x | _ \<Rightarrow> c')" for out' c'
    unfolding overlay_step_def Let_def snd_conv fst_conv by simp
  ultimately show ?case using snoc by simp
qed

text \<open>
  The overlay has one point per tick, in ascending order, with the tick's own minute, label
  and price, and as its value the last finite secondary value up to that tick (0 before the
  first): a gap in the secondary series never shows as zero or as a missing value.
\<close>

lemma overlay_carries_forward:
  "buildSecondaryOverlaySeries ticks secondary =
    (let points = sort_key of_minuteTs ticks in
     map (\<lambda>i. (points ! i)\<lparr>of_chipDelta := last_known secondary (Fin 0) (take (Suc i) points)\<rparr>)
       [0..<length ticks])"
  by (simp add: buildSecondaryOverlaySeries_def overlay_fold Let_def)

lemma last_known_finite: "is_finite z \<Longrightarrow> is_finite (last_known d z points)"
  unfolding last_known_def by (rule fold_invariant) (auto split: option.splits jsnum.splits)

lemma program_activity_zero: "p \<in> set (useProgramActivitySeries ticks) \<Longrightarrow> of_chipDelta p = Fin 0"
proof -
  have "last_known [] (Fin 0) ps = Fin 0" for ps
    unfolding last_known_def by (rule fold_invariant) auto
  then show "p \<in> set (useProgramActivitySeries ticks) \<Longrightarrow> of_chipDelta p = Fin 0"
    by (auto simp: useProgramActivitySeries_def buildSecondaryOverlaySeries_def overlay_fold split: if_splits)
qed

end
