(* ===== verification/TimelineHooks.thy ===== *)
theory TimelineHooks
  imports OrderFlow RealtimeStore
begin

text \<open>
  The hooks of \<open>features/dashboard/hooks\<close> that join a baseline with the realtime events:
  \<open>use-kbar-timeline\<close>, \<open>use-metric-timeline\<close>, \<open>use-quote-timeline\<close> and
  \<open>use-market-overview-timeline\<close>.

  A hook is a state machine over renders. A render brings new inputs; after it React runs, in
  the order of the source, those effects whose dependencies are not the same values as at the
  previous render (all of them after the first). An array or an object that is only compared by
  identity is paired with its address.
\<close>

section \<open>Renders\<close>

definition dep_changed :: "('q \<Rightarrow> 'd) \<Rightarrow> 'q option \<Rightarrow> 'q \<Rightarrow> bool" where
  "dep_changed dep prev now = (case prev of None \<Rightarrow> True | Some p \<Rightarrow> dep p \<noteq> dep now)"

definition render_step ::
  "('q option \<Rightarrow> 'q \<Rightarrow> 's \<Rightarrow> 's) \<Rightarrow> 'q option \<times> 's \<Rightarrow> 'q option \<times> 's \<Rightarrow> bool" where
  "render_step commit x y \<longleftrightarrow> (\<exists>q. y = (Some q, commit (fst x) q (snd x)))"

definition mounted :: "'s \<Rightarrow> 'q option \<times> 's \<Rightarrow> bool" where
  "mounted s0 x \<longleftrightarrow> x = (None, s0)"

text \<open>The states of a hook after any sequence of renders.\<close>

abbreviation hook_reachable :: "('q option \<Rightarrow> 'q \<Rightarrow> 's \<Rightarrow> 's) \<Rightarrow> 's \<Rightarrow> 'q option \<Rightarrow> 's \<Rightarrow> bool" where
  "hook_reachable commit s0 prev st \<equiv> reachable (mounted s0) (render_step commit) (prev, st)"

definition no_series :: "'p timeline_state" where
  "no_series = \<lparr>tl_series = [], tl_index = []\<rparr>"

lemma no_series_ok [simp, inv_intros]: "timeline_ok key no_series"
  by (simp add: no_series_def)

section \<open>K-bars\<close>

record price_point =
  pp_minuteTs :: rat
  pp_price :: rat

record kbar_props =
  kp_today :: "nat \<times> kbar_today list"
  kp_ready :: bool
  kp_current :: "(nat \<times> kbar_today) option"

definition same_price :: "price_point \<Rightarrow> price_point \<Rightarrow> bool" where
  "same_price a b \<longleftrightarrow> pp_minuteTs a = pp_minuteTs b \<and> pp_price a = pp_price b"

interpretation price: timeline pp_minuteTs same_price
  by unfold_locales (auto simp: same_price_def)

definition price_of :: "kbar_today \<Rightarrow> price_point" where
  "price_of r = \<lparr>pp_minuteTs = minuteKeyFromEpochMs (kb_minute_ts r), pp_price = kb_close r\<rparr>"

definition kbar_reset :: "kbar_props \<Rightarrow> price_point timeline_state" where
  "kbar_reset p = reset_timeline pp_minuteTs (sort_key pp_minuteTs (map price_of (snd (kp_today p))))"

definition kbar_patch :: "kbar_props \<Rightarrow> price_point timeline_state \<Rightarrow> price_point timeline_state" where
  "kbar_patch p st =
     (case kp_current p of
        Some (_, kbarCurrent) \<Rightarrow>
          if kp_ready p then patch_timeline pp_minuteTs same_price (price_of kbarCurrent) st else st
      | None \<Rightarrow> st)"

definition useKbarTimelineFromBaseline ::
  "kbar_props option \<Rightarrow> kbar_props \<Rightarrow> price_point timeline_state \<Rightarrow> price_point timeline_state" where
  "useKbarTimelineFromBaseline prev p st =
     (let st1 = (if dep_changed (\<lambda>p. fst (kp_today p)) prev p then kbar_reset p else st)
      in if dep_changed (\<lambda>p. (kp_ready p, map_option fst (kp_current p))) prev p
         then kbar_patch p st1 else st1)"

definition indexPriceByMinuteTs :: "price_point timeline_state \<Rightarrow> (rat, rat) dict" where
  "indexPriceByMinuteTs st = minute_record pp_minuteTs pp_price (tl_series st)"

interpretation kbar_inv: invariant_of "mounted no_series" "render_step useKbarTimelineFromBaseline"
    "\<lambda>x. timeline_ok pp_minuteTs (snd x)"
  by unfold_locales
    (auto simp: mounted_def render_step_def useKbarTimelineFromBaseline_def kbar_reset_def kbar_patch_def
       Let_def intro!: price.patch_ok split: option.splits)

lemma map_price_record:
  "minute_record pp_minuteTs pp_price (map price_of rows) = kbar_prices rows"
  by (simp add: minute_record_def kbar_prices_def fold_map comp_def price_of_def)

lemma kbar_reset_record: "dict_get (indexPriceByMinuteTs (kbar_reset p)) = dict_get (kbar_prices (snd (kp_today p)))"
  by (simp add: indexPriceByMinuteTs_def kbar_reset_def reset_timeline_def minute_record_sort map_price_record)

text \<open>
  C19. What the k-bar hook shows after any render, whatever came before: the last baseline price
  of every minute when the baseline is new, else what it showed, overridden at the minute of the
  current k-bar when that is new and the baseline is there. (So a refetched baseline drops the
  realtime minute until the next event.)
\<close>

theorem kbar_hook_shows:
  assumes "hook_reachable useKbarTimelineFromBaseline no_series prev st"
  shows "dict_get (indexPriceByMinuteTs (useKbarTimelineFromBaseline prev p st)) =
    (let base = (if dep_changed (\<lambda>p. fst (kp_today p)) prev p then dict_get (kbar_prices (snd (kp_today p)))
                 else dict_get (indexPriceByMinuteTs st))
     in case kp_current p of
          Some (_, k) \<Rightarrow>
            if kp_ready p \<and> dep_changed (\<lambda>p. (kp_ready p, map_option fst (kp_current p))) prev p
            then base(minuteKeyFromEpochMs (kb_minute_ts k) \<mapsto> kb_close k) else base
        | None \<Rightarrow> base)"
proof -
  define st1 where "st1 = (if dep_changed (\<lambda>p. fst (kp_today p)) prev p then kbar_reset p else st)"
  have "timeline_ok pp_minuteTs st" using kbar_inv.reachable_inv [OF assms] by simp
  then have ok: "timeline_ok pp_minuteTs st1" by (simp add: st1_def kbar_reset_def)
  have base: "dict_get (indexPriceByMinuteTs st1) =
      (if dep_changed (\<lambda>p. fst (kp_today p)) prev p then dict_get (kbar_prices (snd (kp_today p)))
       else dict_get (indexPriceByMinuteTs st))"
    by (simp add: st1_def kbar_reset_record)
  show ?thesis
    unfolding base [symmetric] useKbarTimelineFromBaseline_def Let_def st1_def [symmetric]
    using price.patch_record [OF ok, of pp_price]
    by (auto simp: kbar_patch_def indexPriceByMinuteTs_def price_of_def split: option.splits)
qed

abbreviation sample_kbar :: kbar_today where
  "sample_kbar \<equiv> \<lparr>kb_trade_date = ''2026-05-04'', kb_minute_ts = 60001, kb_open = 1, kb_high = 3, kb_low = 1,
     kb_close = 2, kb_day_amplitude = None\<rparr>"

theorem kbar_hook_shows_witness:
  "dict_get (indexPriceByMinuteTs (useKbarTimelineFromBaseline None
      \<lparr>kp_today = (1, [sample_kbar]), kp_ready = True, kp_current = Some (2, sample_kbar\<lparr>kb_close := 7\<rparr>)\<rparr>
      no_series)) 60000 = Some 7"
proof -
  have "hook_reachable useKbarTimelineFromBaseline no_series None no_series"
    by (rule reachable_init) (simp add: mounted_def)
  moreover have "minuteKeyFromEpochMs 60001 = 60000" by code_simp
  ultimately show ?thesis by (simp add: kbar_hook_shows dep_changed_def Let_def)
qed

section \<open>Metrics\<close>

record value_point =
  vp_minuteTs :: rat
  vp_value :: jsnum

definition same_value :: "value_point \<Rightarrow> value_point \<Rightarrow> bool" where
  "same_value a b \<longleftrightarrow> vp_minuteTs a = vp_minuteTs b \<and> num_seq (vp_value a) (vp_value b)"

interpretation val: timeline vp_minuteTs same_value
  by unfold_locales (auto simp: same_value_def dest: num_seq_eq)

definition values_by_minute :: "value_point timeline_state \<Rightarrow> (rat, jsnum) dict" where
  "values_by_minute st = minute_record vp_minuteTs vp_value (tl_series st)"

definition resolveMetricPointTs :: "(string \<Rightarrow> jsnum) \<Rightarrow> jsval \<Rightarrow> rat option" where
  "resolveMetricPointTs legacy point =
     (case js_get point ''ts'' of
        Num (Fin ts) \<Rightarrow> Some ts
      | _ \<Rightarrow>
          (case js_get point ''event_ts'' of
             Str s \<Rightarrow> (case date_parse legacy s of Fin t \<Rightarrow> Some t | _ \<Rightarrow> None)
           | _ \<Rightarrow> None))"

definition toMetricSample :: "(string \<Rightarrow> jsnum) \<Rightarrow> jsval \<Rightarrow> metric_sample option" where
  "toMetricSample legacy metric =
     (case js_get metric ''main_force_big_order'' of
        Num v \<Rightarrow> map_option (\<lambda>ts. \<lparr>ms_minuteTs = minuteKeyFromEpochMs ts, ms_ts = ts, ms_value = v\<rparr>)
                   (resolveMetricPointTs legacy metric)
      | _ \<Rightarrow> None)"

definition resolveMetricLatestSample :: "(string \<Rightarrow> jsnum) \<Rightarrow> jsval \<Rightarrow> metric_sample option" where
  "resolveMetricLatestSample legacy metricLatest =
     (if \<not> truthy metricLatest then None
      else case js_get metricLatest ''main_force_big_order'' of
        Num v \<Rightarrow> map_option (\<lambda>ts. \<lparr>ms_minuteTs = minuteKeyFromEpochMs ts, ms_ts = ts, ms_value = v\<rparr>)
                   (resolveMetricPointTs legacy metricLatest)
      | _ \<Rightarrow> None)"

definition value_of_sample :: "metric_sample \<Rightarrow> value_point" where
  "value_of_sample s = \<lparr>vp_minuteTs = ms_minuteTs s, vp_value = ms_value s\<rparr>"

record metric_props =
  mp_today :: "nat \<times> jsval list"
  mp_ready :: bool
  mp_latest :: "nat \<times> jsval"

definition metric_reset :: "(string \<Rightarrow> jsnum) \<Rightarrow> metric_props \<Rightarrow> value_point timeline_state" where
  "metric_reset legacy p =
     reset_timeline vp_minuteTs (sort_key vp_minuteTs
       (map value_of_sample (map snd (latest_by_minute (toMetricSample legacy) (snd (mp_today p))))))"

definition metric_patch ::
  "(string \<Rightarrow> jsnum) \<Rightarrow> metric_props \<Rightarrow> value_point timeline_state \<Rightarrow> value_point timeline_state" where
  "metric_patch legacy p st =
     (if \<not> mp_ready p then st
      else case resolveMetricLatestSample legacy (snd (mp_latest p)) of
        None \<Rightarrow> st
      | Some realtimeSample \<Rightarrow> patch_timeline vp_minuteTs same_value (value_of_sample realtimeSample) st)"

definition useMetricTimelineFromBaseline ::
  "(string \<Rightarrow> jsnum) \<Rightarrow> metric_props option \<Rightarrow> metric_props \<Rightarrow> value_point timeline_state
     \<Rightarrow> value_point timeline_state" where
  "useMetricTimelineFromBaseline legacy prev p st =
     (let st1 = (if dep_changed (\<lambda>p. fst (mp_today p)) prev p then metric_reset legacy p else st)
      in if dep_changed (\<lambda>p. (mp_ready p, fst (mp_latest p))) prev p then metric_patch legacy p st1 else st1)"

lemma latest_by_minute_key:
  "dict_get (latest_by_minute f metrics) t = Some s \<Longrightarrow> ms_minuteTs s = t"
  using newest_in_best [where best = None and t = t and xs = "List.map_filter f metrics"] by (simp add: latest_by_minute_get)

lemma minute_record_latest:
  "dict_get (minute_record vp_minuteTs vp_value (map value_of_sample (map snd (latest_by_minute f metrics))))
    = dict_get (chip_values f metrics)"
proof -
  let ?d = "latest_by_minute f metrics"
  have key: "ms_minuteTs s = t" if "(t, s) \<in> set ?d" for t s
    using that latest_by_minute_key [of f metrics t s] latest_by_minute_wf [of f metrics] by simp
  have "minute_record vp_minuteTs vp_value (map value_of_sample (map snd d))
      = fold (\<lambda>e out. dict_set out (fst e) (ms_value (snd e))) d []"
    if "\<forall>(t, s) \<in> set d. ms_minuteTs s = t" for d
    unfolding minute_record_def fold_map comp_def value_of_sample_def using that by (intro fold_cong) auto
  then have "minute_record vp_minuteTs vp_value (map value_of_sample (map snd ?d))
      = dict_assign [] (chip_values f metrics)"
    using key by (simp add: dict_assign_def chip_values_def fold_map comp_def case_prod_unfold)
  moreover have "dict_wf (chip_values f metrics)"
    using latest_by_minute_wf [of f metrics] by (simp add: chip_values_def comp_def case_prod_unfold)
  ultimately show ?thesis by (simp add: dict_assign_empty)
qed

lemma metric_reset_record:
  "dict_get (values_by_minute (metric_reset legacy p)) = dict_get (chip_values (toMetricSample legacy) (snd (mp_today p)))"
  unfolding values_by_minute_def metric_reset_def reset_timeline_def timeline_state.simps minute_record_sort
  by (rule minute_record_latest)

lemma metric_reset_ok [simp]: "timeline_ok vp_minuteTs (metric_reset legacy p)"
  unfolding metric_reset_def by (rule reset_timeline_sort)

interpretation metric_inv: invariant_of "mounted no_series" "render_step (useMetricTimelineFromBaseline legacy)"
    "\<lambda>x. timeline_ok vp_minuteTs (snd x)" for legacy
  by unfold_locales
    (auto simp: mounted_def render_step_def useMetricTimelineFromBaseline_def metric_patch_def
       Let_def intro!: val.patch_ok split: option.splits)

text \<open>
  What the metric hook shows after any render: the newest value of every minute of a new
  baseline, else what it showed, overridden at the minute of the latest metric when that is new,
  is a usable sample, and the baseline is there.
\<close>

lemma metric_hook_shows:
  assumes "hook_reachable (useMetricTimelineFromBaseline legacy) no_series prev st"
  shows "dict_get (values_by_minute (useMetricTimelineFromBaseline legacy prev p st)) =
    (let base = (if dep_changed (\<lambda>p. fst (mp_today p)) prev p
                 then dict_get (chip_values (toMetricSample legacy) (snd (mp_today p)))
                 else dict_get (values_by_minute st))
     in case resolveMetricLatestSample legacy (snd (mp_latest p)) of
          Some s \<Rightarrow>
            if mp_ready p \<and> dep_changed (\<lambda>p. (mp_ready p, fst (mp_latest p))) prev p
            then base(ms_minuteTs s \<mapsto> ms_value s) else base
        | None \<Rightarrow> base)"
proof -
  define st1 where "st1 = (if dep_changed (\<lambda>p. fst (mp_today p)) prev p then metric_reset legacy p else st)"
  have "timeline_ok vp_minuteTs st" using metric_inv.reachable_inv [OF assms] by simp
  then have ok: "timeline_ok vp_minuteTs st1" by (simp add: st1_def)
  have base: "dict_get (values_by_minute st1) =
      (if dep_changed (\<lambda>p. fst (mp_today p)) prev p
       then dict_get (chip_values (toMetricSample legacy) (snd (mp_today p)))
       else dict_get (values_by_minute st))"
    by (simp add: st1_def metric_reset_record)
  show ?thesis
    unfolding base [symmetric] useMetricTimelineFromBaseline_def Let_def st1_def [symmetric]
    using val.patch_record [OF ok, of vp_value]
    by (auto simp: metric_patch_def values_by_minute_def value_of_sample_def split: option.splits)
qed

lemma metric_hook_shows_witness:
  "dict_get (values_by_minute (useMetricTimelineFromBaseline (\<lambda>_. NaN) None
      \<lparr>mp_today = (1, []), mp_ready = True,
       mp_latest = (2, Obj 2 [(''ts'', Num (Fin 60001)), (''main_force_big_order'', Num (Fin 4))])\<rparr>
      no_series)) 60000 = Some (Fin 4)"
proof -
  have "hook_reachable (useMetricTimelineFromBaseline (\<lambda>_. NaN)) no_series None no_series"
    by (rule reachable_init) (simp add: mounted_def)
  moreover have "minuteKeyFromEpochMs 60001 = 60000" by code_simp
  ultimately show ?thesis
    by (simp add: metric_hook_shows dep_changed_def Let_def resolveMetricLatestSample_def resolveMetricPointTs_def)
qed

section \<open>Quotes\<close>

definition finite_num :: "jsval \<Rightarrow> rat option" where
  "finite_num v = (case v of Num (Fin x) \<Rightarrow> Some x | _ \<Rightarrow> None)"

definition parsed_date :: "(string \<Rightarrow> jsnum) \<Rightarrow> jsval \<Rightarrow> rat option" where
  "parsed_date legacy v =
     (case v of Str s \<Rightarrow> (case date_parse legacy s of Fin t \<Rightarrow> Some t | _ \<Rightarrow> None) | _ \<Rightarrow> None)"

definition or_else :: "'a option \<Rightarrow> 'a option \<Rightarrow> 'a option" where
  "or_else a b = (case a of None \<Rightarrow> b | Some x \<Rightarrow> Some x)"

definition resolvePointTs :: "(string \<Rightarrow> jsnum) \<Rightarrow> jsval \<Rightarrow> rat option" where
  "resolvePointTs legacy point =
     or_else (finite_num (js_get point ''ts''))
       (or_else (parsed_date legacy (js_get point ''ts''))
          (or_else (finite_num (js_get point ''event_ts''))
             (parsed_date legacy (js_get point ''event_ts''))))"

text \<open>One of the two lines: the values of \<open>field\<close> by minute, the last row of a minute wins.\<close>

definition quote_record :: "(string \<Rightarrow> jsnum) \<Rightarrow> string \<Rightarrow> jsval list \<Rightarrow> (rat, jsnum) dict" where
  "quote_record legacy field rows =
     fold (\<lambda>row out.
       case resolvePointTs legacy row of
         None \<Rightarrow> out
       | Some ts \<Rightarrow>
           (case finite_num (js_get row field) of
              Some v \<Rightarrow> dict_set out (minuteKeyFromEpochMs ts) (Fin v)
            | None \<Rightarrow> out)) rows []"

definition series_of_record :: "(rat, jsnum) dict \<Rightarrow> value_point list" where
  "series_of_record d =
     map (\<lambda>minute. \<lparr>vp_minuteTs = minute, vp_value = (case dict_get d minute of Some v \<Rightarrow> v | None \<Rightarrow> NaN)\<rparr>)
       (sort (map fst d))"

record quote_props =
  qp_data :: "nat \<times> jsval list"
  qp_latest :: "nat \<times> jsval"

record quote_state =
  qs_main :: "value_point timeline_state"
  qs_long :: "value_point timeline_state"

definition quote_reset :: "(string \<Rightarrow> jsnum) \<Rightarrow> quote_props \<Rightarrow> quote_state" where
  "quote_reset legacy p =
     \<lparr>qs_main = reset_timeline vp_minuteTs (series_of_record (quote_record legacy ''main_chip'' (snd (qp_data p)))),
      qs_long = reset_timeline vp_minuteTs (series_of_record (quote_record legacy ''long_short_force'' (snd (qp_data p))))\<rparr>"

definition patch_value ::
  "rat \<Rightarrow> rat option \<Rightarrow> value_point timeline_state \<Rightarrow> value_point timeline_state" where
  "patch_value minuteTs v st =
     (case v of None \<Rightarrow> st
      | Some x \<Rightarrow> patch_timeline vp_minuteTs same_value \<lparr>vp_minuteTs = minuteTs, vp_value = Fin x\<rparr> st)"

definition quote_patch :: "(string \<Rightarrow> jsnum) \<Rightarrow> quote_props \<Rightarrow> quote_state \<Rightarrow> quote_state" where
  "quote_patch legacy p st =
     (case resolvePointTs legacy (snd (qp_latest p)) of
        None \<Rightarrow> st
      | Some latestTs \<Rightarrow>
          (let minuteTs = minuteKeyFromEpochMs latestTs
           in \<lparr>qs_main = patch_value minuteTs (finite_num (js_get (snd (qp_latest p)) ''main_chip'')) (qs_main st),
               qs_long = patch_value minuteTs (finite_num (js_get (snd (qp_latest p)) ''long_short_force'')) (qs_long st)\<rparr>))"

definition useQuoteTimeline ::
  "(string \<Rightarrow> jsnum) \<Rightarrow> quote_props option \<Rightarrow> quote_props \<Rightarrow> quote_state \<Rightarrow> quote_state" where
  "useQuoteTimeline legacy prev p st =
     (let st1 = (if dep_changed (\<lambda>p. fst (qp_data p)) prev p then quote_reset legacy p else st)
      in if dep_changed (\<lambda>p. fst (qp_latest p)) prev p then quote_patch legacy p st1 else st1)"

definition no_quotes :: quote_state where
  "no_quotes = \<lparr>qs_main = no_series, qs_long = no_series\<rparr>"

lemma quote_record_wf [simp]: "dict_wf (quote_record legacy field rows)"
  unfolding quote_record_def by (rule fold_invariant) (auto split: option.splits)

lemma series_of_record_ok [simp]: "timeline_ok vp_minuteTs (reset_timeline vp_minuteTs (series_of_record d))"
  by (rule reset_timeline_ok) (simp add: series_of_record_def comp_def)

lemma series_of_record_get:
  assumes "dict_wf d"
  shows "dict_get (minute_record vp_minuteTs vp_value (series_of_record d)) = dict_get d"
proof
  fix t
  let ?f = "\<lambda>minute. \<lparr>vp_minuteTs = minute, vp_value = (case dict_get d minute of Some v \<Rightarrow> v | None \<Rightarrow> NaN)\<rparr>"
  have flt: "filter (\<lambda>p. vp_minuteTs p = t) (series_of_record d) = map ?f (filter (\<lambda>m. m = t) (sort (map fst d)))"
    by (simp add: series_of_record_def filter_map comp_def)
  have all: "set (filter (\<lambda>m. m = t) (sort (map fst d))) \<subseteq> {t}" by auto
  show "dict_get (minute_record vp_minuteTs vp_value (series_of_record d)) t = dict_get d t"
  proof (cases "t \<in> set (map fst d)")
    case True
    then have ne: "filter (\<lambda>m. m = t) (sort (map fst d)) \<noteq> []" by (auto simp: filter_empty_conv)
    then have "last (filter (\<lambda>m. m = t) (sort (map fst d))) = t" using all last_in_set by fastforce
    moreover obtain v where "dict_get d t = Some v" using True by (metis domD domIff map_of_eq_None_iff list.set_map)
    ultimately show ?thesis using ne by (simp add: minute_record_last flt last_map)
  next
    case False
    then have "filter (\<lambda>m. m = t) (sort (map fst d)) = []" by (auto simp: filter_empty_conv)
    moreover have "dict_get d t = None" using False by (simp add: map_of_eq_None_iff)
    ultimately show ?thesis by (simp add: minute_record_last flt)
  qed
qed

lemma patch_value_record:
  "timeline_ok vp_minuteTs st \<Longrightarrow> dict_get (values_by_minute (patch_value t v st)) =
    (case v of None \<Rightarrow> dict_get (values_by_minute st) | Some x \<Rightarrow> (dict_get (values_by_minute st))(t \<mapsto> Fin x))"
  using val.patch_record [of st vp_value] by (auto simp: patch_value_def values_by_minute_def split: option.splits)

lemma patch_value_ok [simp]: "timeline_ok vp_minuteTs st \<Longrightarrow> timeline_ok vp_minuteTs (patch_value t v st)"
  by (auto simp: patch_value_def intro: val.patch_ok split: option.splits)

definition quote_ok :: "quote_state \<Rightarrow> bool" where
  "quote_ok st \<longleftrightarrow> timeline_ok vp_minuteTs (qs_main st) \<and> timeline_ok vp_minuteTs (qs_long st)"

interpretation quote_inv: invariant_of "mounted no_quotes" "render_step (useQuoteTimeline legacy)"
    "\<lambda>x. quote_ok (snd x)" for legacy
  by unfold_locales
    (auto simp: mounted_def render_step_def useQuoteTimeline_def quote_ok_def quote_reset_def quote_patch_def
       no_quotes_def Let_def split: option.splits)

text \<open>
  The two lines of the quote hook never interfere: after any render each shows its own
  values of a new baseline (else what it showed), overridden at the minute of a new latest quote
  exactly when that quote has a time and a finite value for that line.
\<close>

theorem quote_hook_shows:
  assumes "hook_reachable (useQuoteTimeline legacy) no_quotes prev st"
  shows "\<forall>(line, field) \<in> {(qs_main, ''main_chip''), (qs_long, ''long_short_force'')}.
    dict_get (values_by_minute (line (useQuoteTimeline legacy prev p st))) =
      (let base = (if dep_changed (\<lambda>p. fst (qp_data p)) prev p
                   then dict_get (quote_record legacy field (snd (qp_data p)))
                   else dict_get (values_by_minute (line st)))
       in case (resolvePointTs legacy (snd (qp_latest p)), finite_num (js_get (snd (qp_latest p)) field)) of
            (Some ts, Some v) \<Rightarrow>
              if dep_changed (\<lambda>p. fst (qp_latest p)) prev p
              then base(minuteKeyFromEpochMs ts \<mapsto> Fin v) else base
          | _ \<Rightarrow> base)"
proof -
  define st1 where "st1 = (if dep_changed (\<lambda>p. fst (qp_data p)) prev p then quote_reset legacy p else st)"
  have "quote_ok st" using quote_inv.reachable_inv [OF assms] by simp
  then have ok: "timeline_ok vp_minuteTs (qs_main st1)" "timeline_ok vp_minuteTs (qs_long st1)"
    by (simp_all add: st1_def quote_ok_def quote_reset_def)
  have base: "dict_get (values_by_minute (qs_main st1)) =
      (if dep_changed (\<lambda>p. fst (qp_data p)) prev p then dict_get (quote_record legacy ''main_chip'' (snd (qp_data p)))
       else dict_get (values_by_minute (qs_main st)))"
    "dict_get (values_by_minute (qs_long st1)) =
      (if dep_changed (\<lambda>p. fst (qp_data p)) prev p then dict_get (quote_record legacy ''long_short_force'' (snd (qp_data p)))
       else dict_get (values_by_minute (qs_long st)))"
    by (simp_all add: st1_def quote_reset_def values_by_minute_def reset_timeline_def series_of_record_get)
  have "dict_get (values_by_minute (qs_main (quote_patch legacy p st1))) =
      (case (resolvePointTs legacy (snd (qp_latest p)), finite_num (js_get (snd (qp_latest p)) ''main_chip'')) of
         (Some ts, Some v) \<Rightarrow> (dict_get (values_by_minute (qs_main st1)))(minuteKeyFromEpochMs ts \<mapsto> Fin v)
       | _ \<Rightarrow> dict_get (values_by_minute (qs_main st1)))"
    "dict_get (values_by_minute (qs_long (quote_patch legacy p st1))) =
      (case (resolvePointTs legacy (snd (qp_latest p)), finite_num (js_get (snd (qp_latest p)) ''long_short_force'')) of
         (Some ts, Some v) \<Rightarrow> (dict_get (values_by_minute (qs_long st1)))(minuteKeyFromEpochMs ts \<mapsto> Fin v)
       | _ \<Rightarrow> dict_get (values_by_minute (qs_long st1)))"
    using patch_value_record [OF ok(1)] patch_value_record [OF ok(2)]
    by (simp_all add: quote_patch_def Let_def split: option.splits)
  moreover have "useQuoteTimeline legacy prev p st
      = (if dep_changed (\<lambda>p. fst (qp_latest p)) prev p then quote_patch legacy p st1 else st1)"
    by (simp add: useQuoteTimeline_def st1_def)
  ultimately show ?thesis
    by (cases "dep_changed (\<lambda>p. fst (qp_latest p)) prev p")
      (simp_all add: base Let_def split: option.splits)
qed

theorem quote_hook_shows_witness:
  "dict_get (values_by_minute (qs_long (useQuoteTimeline (\<lambda>_. NaN) None
      \<lparr>qp_data = (1, []), qp_latest = (2, Obj 2 [(''ts'', Num (Fin 60001)), (''long_short_force'', Num (Fin 4))])\<rparr>
      no_quotes))) 60000 = Some (Fin 4)"
proof -
  let ?p = "\<lparr>qp_data = (1, []), qp_latest = (2, Obj 2 [(''ts'', Num (Fin 60001)), (''long_short_force'', Num (Fin 4))])\<rparr>"
  have "hook_reachable (useQuoteTimeline (\<lambda>_. NaN)) no_quotes None no_quotes"
    by (rule reachable_init) (simp add: mounted_def)
  moreover have "minuteKeyFromEpochMs 60001 = 60000" by code_simp
  ultimately show ?thesis
    using quote_hook_shows [of "\<lambda>_. NaN" None no_quotes ?p]
    by (simp add: dep_changed_def Let_def resolvePointTs_def finite_num_def or_else_def)
qed

section \<open>The market overview\<close>

text \<open>
  \<open>use-market-overview-timeline\<close> joins the two records. Its first effect rebuilds the series,
  its second, with the same dependencies, looks for changed minutes and upserts those. An effect
  that throws is None. A new array with the same points is not told apart from the old one.
\<close>

record overview_props =
  op_price :: "nat \<times> (rat, rat) dict"
  op_chip :: "nat \<times> (rat, jsnum) dict"

record overview_state =
  os_series :: "order_flow_point list"
  os_seriesRef :: "order_flow_point list"
  os_index :: "(rat, nat) dict"
  os_prevPrice :: "(rat, rat) dict option"
  os_prevChip :: "(rat, jsnum) dict option"

definition overview_rebuild :: "overview_props \<Rightarrow> overview_state \<Rightarrow> overview_state option" where
  "overview_rebuild p st =
     map_option (\<lambda>full.
       \<lparr>os_series = full, os_seriesRef = full, os_index = rebuildIndexMap of_minuteTs full,
        os_prevPrice = Some (snd (op_price p)), os_prevChip = Some (snd (op_chip p))\<rparr>)
       (buildOrderFlowSeriesFromTimelineMaps (snd (op_price p)) (snd (op_chip p)))"

definition chip_differs :: "jsnum option \<Rightarrow> jsnum option \<Rightarrow> bool" where
  "chip_differs a b =
     (case (a, b) of (Some x, Some y) \<Rightarrow> \<not> num_seq x y | (None, None) \<Rightarrow> False | _ \<Rightarrow> True)"

definition changed_minutes ::
  "(rat, rat) dict \<Rightarrow> (rat, jsnum) dict \<Rightarrow> (rat, rat) dict \<Rightarrow> (rat, jsnum) dict \<Rightarrow> rat list" where
  "changed_minutes prevPrice prevChip price chip =
     remdups
       (filter (\<lambda>k. dict_get prevPrice k \<noteq> dict_get price k) (map fst price)
        @ filter (\<lambda>k. dict_get price k = None) (map fst prevPrice)
        @ filter (\<lambda>k. chip_differs (dict_get prevChip k) (dict_get chip k)) (map fst chip)
        @ filter (\<lambda>k. dict_get chip k = None) (map fst prevChip))"

definition changed_point :: "(rat, rat) dict \<Rightarrow> (rat, jsnum) dict \<Rightarrow> rat \<Rightarrow> order_flow_point option option" where
  "changed_point price chip minuteTs =
     map_option (\<lambda>pointArr. case pointArr of [] \<Rightarrow> None | point # _ \<Rightarrow> Some point)
       (buildOrderFlowSeriesFromTimelineMaps
          [(minuteTs, case dict_get price minuteTs of Some x \<Rightarrow> x | None \<Rightarrow> 0)]
          [(minuteTs, case dict_get chip minuteTs of Some x \<Rightarrow> x | None \<Rightarrow> Fin 0)])"

definition overview_increment :: "overview_props \<Rightarrow> overview_state \<Rightarrow> overview_state option" where
  "overview_increment p st =
     (case (os_prevPrice st, os_prevChip st) of
        (Some prevPrice, Some prevChip) \<Rightarrow>
          (let price = snd (op_price p); chip = snd (op_chip p);
               changed = changed_minutes prevPrice prevChip price chip;
               remember = (\<lambda>st. st\<lparr>os_prevPrice := Some price, os_prevChip := Some chip\<rparr>)
           in if changed = [] then Some (remember st)
              else map_option (\<lambda>points.
                (case buildSeriesFromMaps of_minuteTs same_order_flow (os_seriesRef st) (os_index st) points of
                   (applied, appliedIndex) \<Rightarrow>
                     if applied \<noteq> os_seriesRef st
                     then remember (st\<lparr>os_series := applied, os_seriesRef := applied, os_index := appliedIndex\<rparr>)
                     else remember st))
                (those (map (changed_point price chip) (sort changed))))
      | _ \<Rightarrow> Some st)"

definition useMarketOverviewTimeline ::
  "overview_props option \<Rightarrow> overview_props \<Rightarrow> overview_state \<Rightarrow> overview_state option" where
  "useMarketOverviewTimeline prev p st =
     (if dep_changed (\<lambda>p. (fst (op_price p), fst (op_chip p))) prev p
      then Option.bind (overview_rebuild p st) (overview_increment p) else Some st)"

lemma changed_minutes_refl:
  assumes "\<forall>c \<in> snd ` set chip. c \<noteq> NaN"
  shows "changed_minutes price chip price chip = []"
proof -
  have "\<not> chip_differs (dict_get chip k) (dict_get chip k)" for k
  proof (cases "dict_get chip k")
    case (Some c)
    then have "c \<noteq> NaN" using assms map_of_SomeD [of chip k c] by force
    then show ?thesis using Some by (cases c) (auto simp: chip_differs_def)
  qed (simp add: chip_differs_def)
  then show ?thesis
    by (auto simp: changed_minutes_def filter_empty_conv dest: weak_map_of_SomeI)
qed

text \<open>
  The second effect of the overview hook is idle: when the inputs change, the first effect
  has rebuilt the whole series and recorded the inputs before the second compares with them, so
  every render with new inputs rebuilds from scratch and the upsert path never runs.
\<close>

theorem overview_always_rebuilds:
  assumes "\<forall>c \<in> snd ` set (snd (op_chip p)). c \<noteq> NaN"
  shows "useMarketOverviewTimeline prev p st =
    (if dep_changed (\<lambda>p. (fst (op_price p), fst (op_chip p))) prev p then overview_rebuild p st else Some st)"
proof (cases "buildOrderFlowSeriesFromTimelineMaps (snd (op_price p)) (snd (op_chip p))")
  case None
  then show ?thesis by (simp add: useMarketOverviewTimeline_def overview_rebuild_def)
next
  case (Some full)
  then show ?thesis
    by (simp add: useMarketOverviewTimeline_def overview_rebuild_def overview_increment_def Let_def
        changed_minutes_refl [OF assms])
qed

abbreviation empty_overview :: overview_state where
  "empty_overview \<equiv> \<lparr>os_series = [], os_seriesRef = [], os_index = [], os_prevPrice = None, os_prevChip = None\<rparr>"

theorem overview_always_rebuilds_witness:
  "useMarketOverviewTimeline None \<lparr>op_price = (1, [(60000, 5)]), op_chip = (2, [(60000, Fin 1)])\<rparr> empty_overview
    = overview_rebuild \<lparr>op_price = (1, [(60000, 5)]), op_chip = (2, [(60000, Fin 1)])\<rparr> empty_overview"
  by (subst overview_always_rebuilds) (simp_all add: dep_changed_def)

lemma timeline_maps_cong:
  assumes "dict_wf d" "dict_wf d'" "dict_get d = dict_get d'" "dict_get c = dict_get c'"
  shows "buildOrderFlowSeriesFromTimelineMaps d c = buildOrderFlowSeriesFromTimelineMaps d' c'"
proof -
  have "set (map fst d) = set (map fst d')"
    using assms(3) by (simp add: dom_map_of_conv_image_fst [symmetric])
  then have "sort (map fst d) = sort (map fst d')"
    using assms(1,2) sorted_distinct_set_unique [of "sort (map fst d)" "sort (map fst d')"]
    by (simp del: set_map)
  then show ?thesis by (simp add: buildOrderFlowSeriesFromTimelineMaps_def assms(3,4))
qed

text \<open>
  From the responses to the chart: with no realtime event yet, the k-bar hook, the metric
  hook and the overview hook together build the same series as \<open>buildOrderFlowSeries\<close> on the two
  responses (whose times are numbers of JSON, hence finite).
\<close>

theorem overview_of_baseline:
  assumes "kp_current p = None" and "resolveMetricLatestSample legacy (snd (mp_latest q)) = None"
    and "\<forall>m \<in> set (snd (mp_today q)). \<forall>x. js_get m ''ts'' = Num x \<longrightarrow> is_finite x"
  shows "buildOrderFlowSeriesFromTimelineMaps
      (indexPriceByMinuteTs (useKbarTimelineFromBaseline None p no_series))
      (values_by_minute (useMetricTimelineFromBaseline legacy None q no_series))
    = buildOrderFlowSeries legacy (snd (kp_today p)) (snd (mp_today q))"
proof -
  have "hook_reachable useKbarTimelineFromBaseline no_series None no_series"
    "hook_reachable (useMetricTimelineFromBaseline legacy) no_series None no_series"
    by (auto intro!: reachable_init simp: mounted_def)
  note price = kbar_inv.reachable_inv [OF this(1)] and this
  have k: "useKbarTimelineFromBaseline None p no_series = kbar_reset p"
    using assms(1) by (simp add: useKbarTimelineFromBaseline_def dep_changed_def kbar_patch_def)
  have m: "useMetricTimelineFromBaseline legacy None q no_series = metric_reset legacy q"
    using assms(2) by (simp add: useMetricTimelineFromBaseline_def dep_changed_def metric_patch_def Let_def)
  have "toMetricSample legacy x = toMinuteMetricSample legacy x" if "x \<in> set (snd (mp_today q))" for x
  proof (cases "js_get x ''ts''")
    case (Num n)
    then have "is_finite n" using assms(3) that by blast
    then show ?thesis using Num
      by (cases n) (auto simp: toMetricSample_def toMinuteMetricSample_def resolveMetricPointTs_def
          metric_point_ts_def split: jsval.splits)
  qed (auto simp: toMetricSample_def toMinuteMetricSample_def resolveMetricPointTs_def metric_point_ts_def
      split: jsval.splits jsnum.splits)
  then have "latest_by_minute (toMetricSample legacy) (snd (mp_today q))
      = latest_by_minute (toMinuteMetricSample legacy) (snd (mp_today q))"
    unfolding latest_by_minute_def by (intro fold_cong) auto
  then have chips: "chip_values (toMetricSample legacy) (snd (mp_today q))
      = chip_values (toMinuteMetricSample legacy) (snd (mp_today q))"
    by (simp add: chip_values_def)
  show ?thesis
    unfolding two_builders
  proof (rule timeline_maps_cong)
    show "dict_wf (indexPriceByMinuteTs (useKbarTimelineFromBaseline None p no_series))"
      by (simp add: indexPriceByMinuteTs_def)
    show "dict_wf (kbar_prices (snd (kp_today p)))" by (simp add: kbar_prices_def)
    show "dict_get (indexPriceByMinuteTs (useKbarTimelineFromBaseline None p no_series))
        = dict_get (kbar_prices (snd (kp_today p)))"
      unfolding k by (rule kbar_reset_record)
    show "dict_get (values_by_minute (useMetricTimelineFromBaseline legacy None q no_series))
        = dict_get (chip_values (toMinuteMetricSample legacy) (snd (mp_today q)))"
      unfolding m metric_reset_record chips ..
  qed
qed

theorem overview_of_baseline_witness:
  "buildOrderFlowSeriesFromTimelineMaps
      (indexPriceByMinuteTs (useKbarTimelineFromBaseline None
         \<lparr>kp_today = (1, [sample_kbar]), kp_ready = True, kp_current = None\<rparr> no_series))
      (values_by_minute (useMetricTimelineFromBaseline (\<lambda>_. NaN) None
         \<lparr>mp_today = (2, []), mp_ready = True, mp_latest = (0, Null)\<rparr> no_series))
    = buildOrderFlowSeries (\<lambda>_. NaN) [sample_kbar] []"
  by (subst overview_of_baseline) (simp_all add: resolveMetricLatestSample_def)

end
