(* ===== verification/Participant.thy ===== *)
theory Participant
  imports TimelineHooks
begin

text \<open>
  The participant card: the daily candles with today's realtime candle
  (\<open>features/dashboard/hooks/use-participant-amplitude.ts\<close>) and their moving averages
  (\<open>lib/participant-signals.ts\<close>). Rows are records of the declared fields; an optional number is
  None when it is null or absent. The key of a candle is the midnight of its trade date; a trade
  date that is not a date would give a key that is not a number, which the model leaves out: the
  operation is None, as it is when formatting throws.
\<close>

section \<open>Candles\<close>

record daily_row =
  dr_trade_date :: string
  dr_open :: rat
  dr_high :: rat
  dr_low :: rat
  dr_close :: rat
  dr_day_amplitude :: rat

record candle =
  ca_day :: string
  ca_tradeDate :: string
  ca_open :: rat
  ca_high :: rat
  ca_low :: rat
  ca_close :: rat
  ca_amplitude :: rat
  ca_isRealtime :: bool

record dated_candle = candle +
  ca_minuteTs :: rat

definition normalizeAmplitude :: "rat \<Rightarrow> rat" where
  "normalizeAmplitude v = \<bar>v\<bar>"

definition format_md :: "int \<Rightarrow> string" where
  "format_md z = (case civil_of_days z of (y, m, d) \<Rightarrow> pad2 (nat m) @ ''/'' @ pad2 (nat d))"

definition day_label :: "rat \<Rightarrow> string option" where
  "day_label tsMs = map_option (\<lambda>t. format_md (taipei_day t)) (time_clip tsMs)"

definition midnight :: "(string \<Rightarrow> jsnum) \<Rightarrow> string \<Rightarrow> jsnum" where
  "midnight legacy isoDate = date_parse legacy (isoDate @ ''T00:00:00+08:00'')"

definition formatDayLabel :: "(string \<Rightarrow> jsnum) \<Rightarrow> string \<Rightarrow> string option" where
  "formatDayLabel legacy isoDate =
     (case midnight legacy isoDate of Fin parsed \<Rightarrow> day_label parsed | _ \<Rightarrow> Some isoDate)"

definition toClosedSeries :: "(string \<Rightarrow> jsnum) \<Rightarrow> daily_row list \<Rightarrow> candle list option" where
  "toClosedSeries legacy rows =
     those (map (\<lambda>row.
       map_option (\<lambda>day.
         \<lparr>ca_day = day, ca_tradeDate = dr_trade_date row, ca_open = dr_open row, ca_high = dr_high row,
          ca_low = dr_low row, ca_close = dr_close row,
          ca_amplitude = normalizeAmplitude (dr_day_amplitude row), ca_isRealtime = False\<rparr>)
         (formatDayLabel legacy (dr_trade_date row))) (rev rows))"

definition candle_amplitude :: "rat option \<Rightarrow> rat \<Rightarrow> rat \<Rightarrow> rat" where
  "candle_amplitude day_amplitude high low =
     (case day_amplitude of Some a \<Rightarrow> normalizeAmplitude a | None \<Rightarrow> normalizeAmplitude (high - low))"

text \<open>\<open>aggregateTodayKbar\<close>, with the label of today: None for null.\<close>

definition aggregateTodayKbar :: "string \<Rightarrow> kbar_today list \<Rightarrow> candle option" where
  "aggregateTodayKbar today kbars =
     (if kbars = [] then None
      else (let asc = sort_key kb_minute_ts kbars; first = hd asc; lst = last asc;
                high = Max (kb_high ` set asc); low = Min (kb_low ` set asc)
            in Some \<lparr>ca_day = today, ca_tradeDate = kb_trade_date first, ca_open = kb_open first,
                     ca_high = high, ca_low = low, ca_close = kb_close lst,
                     ca_amplitude = candle_amplitude (kb_day_amplitude lst) high low, ca_isRealtime = True\<rparr>))"

definition patchRealtimeTodayCandle :: "string \<Rightarrow> candle option \<Rightarrow> kbar_today \<Rightarrow> candle" where
  "patchRealtimeTodayCandle today current k =
     (case current of
        None \<Rightarrow>
          \<lparr>ca_day = today, ca_tradeDate = kb_trade_date k, ca_open = kb_open k, ca_high = kb_high k,
           ca_low = kb_low k, ca_close = kb_close k,
           ca_amplitude = candle_amplitude (kb_day_amplitude k) (kb_high k) (kb_low k), ca_isRealtime = True\<rparr>
      | Some c \<Rightarrow>
          (let high = max (ca_high c) (kb_high k); low = min (ca_low c) (kb_low k)
           in c\<lparr>ca_high := high, ca_low := low, ca_close := kb_close k,
                ca_amplitude := candle_amplitude (kb_day_amplitude k) high low\<rparr>))"

section \<open>The summary\<close>

record amplitude_summary =
  as_avg5 :: rat
  as_avg10 :: rat
  as_yesterday :: rat
  as_max5 :: rat
  as_max10 :: rat

definition avg :: "rat list \<Rightarrow> rat" where
  "avg xs = (if xs = [] then 0 else fold (\<lambda>v acc. acc + v) xs 0 / of_nat (length xs))"

definition max_of :: "rat list \<Rightarrow> rat" where
  "max_of xs = (if xs = [] then 0 else Max (set xs))"

definition computeSummary :: "candle list \<Rightarrow> amplitude_summary" where
  "computeSummary closedSeries =
     (let latestFirst = rev (map ca_amplitude closedSeries);
          latest5 = take 5 latestFirst; latest10 = take 10 latestFirst
      in \<lparr>as_avg5 = avg latest5, as_avg10 = avg latest10,
          as_yesterday = (case latestFirst of [] \<Rightarrow> 0 | a # _ \<Rightarrow> a),
          as_max5 = max_of latest5, as_max10 = max_of latest10\<rparr>)"

section \<open>Moving averages\<close>

definition movingAverage :: "rat list \<Rightarrow> nat \<Rightarrow> nat \<Rightarrow> rat option" where
  "movingAverage values index window =
     (if index + 1 < window then None
      else (let start = index + 1 - window; slice = take (index + 1 - start) (drop start values)
            in Some (fold (\<lambda>v acc. acc + v) slice 0 / of_nat window)))"

record signal_point = candle +
  si_ma3 :: "rat option"
  si_ma5 :: "rat option"
  si_ma10 :: "rat option"
  si_ampOpen :: rat
  si_ampHigh :: rat
  si_ampLow :: rat
  si_ampClose :: rat
  si_ampBody :: rat

definition withAmplitudeMovingAverages :: "candle list \<Rightarrow> signal_point list" where
  "withAmplitudeMovingAverages rows =
     (let amplitudes = map ca_amplitude rows
      in map (\<lambda>i.
           let row = rows ! i; bodyAmplitude = \<bar>ca_close row - ca_open row\<bar>
           in candle.extend row
                \<lparr>si_ma3 = movingAverage amplitudes i 3, si_ma5 = movingAverage amplitudes i 5,
                 si_ma10 = movingAverage amplitudes i 10, si_ampOpen = 0, si_ampHigh = \<bar>ca_amplitude row\<bar>,
                 si_ampLow = 0, si_ampClose = bodyAmplitude, si_ampBody = bodyAmplitude\<rparr>)
         [0..<length rows])"

lemma fold_sum: "fold (\<lambda>v acc. acc + v) xs z = z + sum_list xs" for xs :: "rat list"
  by (induction xs arbitrary: z) auto

lemma sum_list_bounds:
  fixes xs :: "rat list"
  assumes "\<forall>x \<in> set xs. l \<le> x \<and> x \<le> u"
  shows "of_nat (length xs) * l \<le> sum_list xs \<and> sum_list xs \<le> of_nat (length xs) * u"
  using assms by (induction xs) (auto simp: algebra_simps)

lemma avg_bounds:
  fixes l :: rat
  assumes "xs \<noteq> []" and "\<forall>x \<in> set xs. l \<le> x \<and> x \<le> u"
  shows "l \<le> sum_list xs / of_nat (length xs) \<and> sum_list xs / of_nat (length xs) \<le> u"
  using sum_list_bounds [OF assms(2)] assms(1) by (auto simp: field_simps)

text \<open>
  A moving average is absent exactly while its window is not full, and otherwise lies between
  the smallest and the largest amplitude of the window that ends at its day.
\<close>

lemma moving_average_bounds:
  assumes "i < length values" and "0 < w"
  shows "(movingAverage values i w = None \<longleftrightarrow> i + 1 < w) \<and>
    (\<forall>m. movingAverage values i w = Some m \<longrightarrow>
       (let slice = take w (drop (i + 1 - w) values)
        in length slice = w \<and> last slice = values ! i \<and> Min (set slice) \<le> m \<and> m \<le> Max (set slice)))"
proof (cases "i + 1 < w")
  case True
  then show ?thesis by (simp add: movingAverage_def)
next
  case False
  define slice where "slice = take w (drop (i + 1 - w) values)"
  have len: "length slice = w" and ne: "slice \<noteq> []" using assms False by (auto simp: slice_def)
  have "last slice = slice ! (w - 1)" using ne len by (simp add: last_conv_nth)
  also have "\<dots> = values ! i" using assms False by (simp add: slice_def)
  finally have l: "last slice = values ! i" .
  have "i + 1 - (i + 1 - w) = w" using False by simp
  then have m: "movingAverage values i w = Some (sum_list slice / of_nat w)"
    using False by (simp add: movingAverage_def slice_def fold_sum Let_def)
  have "Min (set slice) \<le> sum_list slice / of_nat w \<and> sum_list slice / of_nat w \<le> Max (set slice)"
    using avg_bounds [OF ne, of "Min (set slice)" "Max (set slice)"] len by simp
  then show ?thesis using False m len l unfolding slice_def [symmetric] Let_def by simp
qed

lemma moving_average_bounds_witness:
  "movingAverage [1, 2, 6, 4] 3 3 = Some 4 \<and> Min (set [2, 6, 4 :: rat]) \<le> 4"
proof -
  have "movingAverage [1, 2, 6, 4] 3 3 = Some 4"
    by (simp add: movingAverage_def Let_def)
  then show ?thesis using moving_average_bounds [of 3 "[1, 2, 6, 4]" 3] by (simp add: Let_def)
qed

section \<open>The hook\<close>

definition dated :: "(string \<Rightarrow> jsnum) \<Rightarrow> candle \<Rightarrow> dated_candle option" where
  "dated legacy c =
     (case midnight legacy (ca_tradeDate c) of
        Fin t \<Rightarrow> Some (candle.extend c \<lparr>ca_minuteTs = t\<rparr>) | _ \<Rightarrow> None)"

definition baselineInternal ::
  "(string \<Rightarrow> jsnum) \<Rightarrow> candle list \<Rightarrow> candle option \<Rightarrow> dated_candle list option" where
  "baselineInternal legacy closedSeries aggregatedTodayCandle =
     Option.bind (those (map (dated legacy) closedSeries)) (\<lambda>list.
       case aggregatedTodayCandle of
         None \<Rightarrow> Some (sort_key ca_minuteTs list)
       | Some c \<Rightarrow>
           map_option (\<lambda>today.
             sort_key ca_minuteTs
               (case find_index (\<lambda>x. ca_minuteTs x = ca_minuteTs today) list of
                  Some existingIdx \<Rightarrow> list[existingIdx := today]
                | None \<Rightarrow> list @ [today])) (dated legacy c))"

definition same_candle :: "dated_candle \<Rightarrow> dated_candle \<Rightarrow> bool" where
  "same_candle a b \<longleftrightarrow>
     ca_day a = ca_day b \<and> ca_tradeDate a = ca_tradeDate b \<and> ca_open a = ca_open b \<and> ca_high a = ca_high b
     \<and> ca_low a = ca_low b \<and> ca_close a = ca_close b \<and> ca_amplitude a = ca_amplitude b
     \<and> ca_isRealtime a = ca_isRealtime b \<and> ca_minuteTs a = ca_minuteTs b"

interpretation candles: timeline ca_minuteTs same_candle
  by unfold_locales (auto simp: same_candle_def intro!: dated_candle.equality)

record participant_props =
  pq_daily :: "nat \<times> daily_row list"
  pq_today :: "nat \<times> kbar_today list"
  pq_current :: "(nat \<times> kbar_today) option"
  pq_now :: rat

text \<open>The memoised closed series and today's candle, and the series with its index map.\<close>

record participant_state =
  pt_closed :: "candle list"
  pt_agg :: "candle option"
  pt_timeline :: "dated_candle timeline_state"

definition participant_patch ::
  "(string \<Rightarrow> jsnum) \<Rightarrow> participant_props \<Rightarrow> candle option \<Rightarrow> dated_candle timeline_state
     \<Rightarrow> dated_candle timeline_state option" where
  "participant_patch legacy p agg line =
     (case pq_current p of
        None \<Rightarrow> Some line
      | Some (_, kbarCurrent) \<Rightarrow>
          Option.bind (day_label (pq_now p)) (\<lambda>today.
            map_option (\<lambda>point. patch_timeline ca_minuteTs same_candle point line)
              (dated legacy (patchRealtimeTodayCandle today agg kbarCurrent))))"

definition today_changed :: "participant_props option \<Rightarrow> participant_props \<Rightarrow> candle option \<Rightarrow> candle option \<Rightarrow> bool" where
  "today_changed prev p old new \<longleftrightarrow>
     dep_changed (\<lambda>p. fst (pq_today p)) prev p \<and> \<not> (prev \<noteq> None \<and> old = None \<and> new = None)"

definition participant_effects ::
  "(string \<Rightarrow> jsnum) \<Rightarrow> participant_props \<Rightarrow> bool \<Rightarrow> bool \<Rightarrow> candle list \<Rightarrow> candle option
     \<Rightarrow> dated_candle timeline_state \<Rightarrow> dated_candle timeline_state option" where
  "participant_effects legacy p reset patch closedSeries agg line =
     Option.bind
       (if reset then map_option (reset_timeline ca_minuteTs) (baselineInternal legacy closedSeries agg) else Some line)
       (\<lambda>line. if patch then participant_patch legacy p agg line else Some line)"

definition useParticipantAmplitude ::
  "(string \<Rightarrow> jsnum) \<Rightarrow> participant_props option \<Rightarrow> participant_props \<Rightarrow> participant_state
     \<Rightarrow> participant_state option" where
  "useParticipantAmplitude legacy prev p st =
     Option.bind (day_label (pq_now p)) (\<lambda>today.
     Option.bind (if dep_changed (\<lambda>p. fst (pq_daily p)) prev p
                  then toClosedSeries legacy (snd (pq_daily p)) else Some (pt_closed st)) (\<lambda>closed.
       let agg = (if dep_changed (\<lambda>p. fst (pq_today p)) prev p
                  then aggregateTodayKbar today (snd (pq_today p)) else pt_agg st)
       in map_option (\<lambda>line. \<lparr>pt_closed = closed, pt_agg = agg, pt_timeline = line\<rparr>)
            (participant_effects legacy p
               (dep_changed (\<lambda>p. fst (pq_daily p)) prev p \<or> today_changed prev p (pt_agg st) agg)
               (dep_changed (\<lambda>p. map_option fst (pq_current p)) prev p \<or> today_changed prev p (pt_agg st) agg)
               closed agg (pt_timeline st))))"

text \<open>
  A render. Query data is never changed in place, so an array of k-bars with a given identity always
  has the same contents, \<open>rows\<close>.
\<close>

definition participant_render ::
  "(string \<Rightarrow> jsnum) \<Rightarrow> (nat \<Rightarrow> kbar_today list) \<Rightarrow> participant_props option \<times> participant_state
     \<Rightarrow> participant_props option \<times> participant_state \<Rightarrow> bool" where
  "participant_render legacy rows x y \<longleftrightarrow>
     (\<exists>p st. snd (pq_today p) = rows (fst (pq_today p))
        \<and> useParticipantAmplitude legacy (fst x) p (snd x) = Some st \<and> y = (Some p, st))"

definition no_candles :: participant_state where
  "no_candles = \<lparr>pt_closed = [], pt_agg = None, pt_timeline = no_series\<rparr>"

lemma baselineInternal_sorted: "baselineInternal legacy cs agg = Some l \<Longrightarrow> sorted (map ca_minuteTs l)"
  by (auto simp: baselineInternal_def bind_eq_Some_conv split: option.splits)

lemma participant_patch_ok:
  "timeline_ok ca_minuteTs line \<Longrightarrow> participant_patch legacy p agg line = Some line' \<Longrightarrow> timeline_ok ca_minuteTs line'"
  by (auto simp: participant_patch_def bind_eq_Some_conv split: option.splits intro: candles.patch_ok)

lemma participant_effects_ok:
  "timeline_ok ca_minuteTs line \<Longrightarrow> participant_effects legacy p reset patch cs agg line = Some line'
    \<Longrightarrow> timeline_ok ca_minuteTs line'"
  by (cases reset; cases patch)
    (auto simp: participant_effects_def bind_eq_Some_conv
      intro: participant_patch_ok reset_timeline_ok dest: baselineInternal_sorted)

lemma participant_step_ok:
  "timeline_ok ca_minuteTs (pt_timeline st) \<Longrightarrow> useParticipantAmplitude legacy prev p st = Some st'
    \<Longrightarrow> timeline_ok ca_minuteTs (pt_timeline st')"
  unfolding useParticipantAmplitude_def Let_def bind_eq_Some_conv map_option_eq_Some
  by (elim exE conjE, drule sym [of _ st'], simp, rule participant_effects_ok)

text \<open>The memoised candle is that of today's k-bars, with the label of the day they arrived.\<close>

definition aggregated :: "(nat \<Rightarrow> kbar_today list) \<Rightarrow> participant_props option \<times> participant_state \<Rightarrow> bool" where
  "aggregated rows x \<longleftrightarrow>
     (\<forall>p. fst x = Some p \<longrightarrow>
        (\<exists>t day. day_label t = Some day \<and> pt_agg (snd x) = aggregateTodayKbar day (rows (fst (pq_today p)))))"

lemma aggregated_step:
  assumes "aggregated rows x" and "participant_render legacy rows x y"
  shows "aggregated rows y"
proof -
  obtain p st where r: "snd (pq_today p) = rows (fst (pq_today p))"
      "useParticipantAmplitude legacy (fst x) p (snd x) = Some st" "y = (Some p, st)"
    using assms(2) by (auto simp: participant_render_def)
  obtain today where today: "day_label (pq_now p) = Some today"
    and agg: "pt_agg st = (if dep_changed (\<lambda>p. fst (pq_today p)) (fst x) p
        then aggregateTodayKbar today (snd (pq_today p)) else pt_agg (snd x))"
    using r(2) by (auto simp: useParticipantAmplitude_def Let_def bind_eq_Some_conv)
  show ?thesis
  proof (cases "dep_changed (\<lambda>p. fst (pq_today p)) (fst x) p")
    case True
    then show ?thesis using today agg r(1,3) by (auto simp: aggregated_def)
  next
    case False
    then obtain p' where "fst x = Some p'" "fst (pq_today p') = fst (pq_today p)"
      by (auto simp: dep_changed_def split: option.splits)
    then show ?thesis using assms(1) False agg r(3) by (auto simp: aggregated_def)
  qed
qed

interpretation participant_inv: invariant_of "mounted no_candles" "participant_render legacy rows"
    "\<lambda>x. timeline_ok ca_minuteTs (pt_timeline (snd x)) \<and> aggregated rows x" for legacy rows
proof unfold_locales
  fix x y
  assume "timeline_ok ca_minuteTs (pt_timeline (snd x)) \<and> aggregated rows x" and r: "participant_render legacy rows x y"
  then show "timeline_ok ca_minuteTs (pt_timeline (snd y)) \<and> aggregated rows y"
    using aggregated_step [OF _ r] by (auto simp: participant_render_def intro: participant_step_ok)
qed (auto simp: mounted_def no_candles_def aggregated_def)

definition candle_at :: "dated_candle timeline_state \<Rightarrow> rat \<Rightarrow> dated_candle option" where
  "candle_at line = dict_get (minute_record ca_minuteTs (\<lambda>c. c) (tl_series line))"

text \<open>
  C21. After a render with a new k-bar the candle of its trading day (the day of today's k-bars
  when there are some) is the aggregate of the k-bars of today's query, labelled with the day on which
  they arrived, patched with that one k-bar, and every other candle is as before: earlier realtime
  k-bars of the day leave no trace in it, not even in its high and low.
\<close>

theorem participant_hook_shows:
  assumes "reachable (mounted no_candles) (participant_render legacy rows) (Some p0, st)"
    and "useParticipantAmplitude legacy (Some p0) p st = Some st'"
    and same: "fst (pq_daily p) = fst (pq_daily p0)" "fst (pq_today p) = fst (pq_today p0)"
    and k: "pq_current p = Some (r, k)" "map_option fst (pq_current p0) \<noteq> Some r"
  shows "\<exists>today t day c. day_label (pq_now p) = Some today \<and> day_label t = Some day
    \<and> dated legacy (patchRealtimeTodayCandle today (aggregateTodayKbar day (rows (fst (pq_today p)))) k) = Some c
    \<and> candle_at (pt_timeline st') = (candle_at (pt_timeline st))(ca_minuteTs c \<mapsto> c)"
proof -
  have ok: "timeline_ok ca_minuteTs (pt_timeline st)" and "aggregated rows (Some p0, st)"
    using participant_inv.reachable_inv [OF assms(1)] by simp_all
  then obtain t day where agg: "day_label t = Some day" "pt_agg st = aggregateTodayKbar day (rows (fst (pq_today p)))"
    using same(2) by (auto simp: aggregated_def)
  have "dep_changed (\<lambda>p. fst (pq_daily p)) (Some p0) p = False"
    "dep_changed (\<lambda>p. fst (pq_today p)) (Some p0) p = False"
    "dep_changed (\<lambda>p. map_option fst (pq_current p)) (Some p0) p = True"
    using same k by (auto simp: dep_changed_def)
  then obtain today where today: "day_label (pq_now p) = Some today"
      and "participant_patch legacy p (pt_agg st) (pt_timeline st) = Some (pt_timeline st')"
    using assms(2)
    by (auto simp: useParticipantAmplitude_def today_changed_def participant_effects_def bind_eq_Some_conv Let_def)
  then obtain c where "dated legacy (patchRealtimeTodayCandle today (pt_agg st) k) = Some c"
      and "pt_timeline st' = patch_timeline ca_minuteTs same_candle c (pt_timeline st)"
    using k(1) by (auto simp: participant_patch_def)
  then show ?thesis
    using candles.patch_record [OF ok, of "\<lambda>c. c" c] today agg by (auto simp: candle_at_def)
qed

definition today_props :: "nat \<Rightarrow> rat \<Rightarrow> participant_props" where
  "today_props r high = \<lparr>pq_daily = (1, []), pq_today = (2, [sample_kbar]),
     pq_current = Some (r, sample_kbar\<lparr>kb_high := high\<rparr>), pq_now = 0\<rparr>"

lemma midnight_example: "midnight (\<lambda>_. NaN) ''2026-05-04'' = Fin 1777824000000"
proof -
  have "parse_iso ''2026-05-04T00:00:00+08:00'' = Some 1777824000000" by code_simp
  then show ?thesis by (simp add: midnight_def date_parse_def)
qed

lemma dated_sample:
  "ca_tradeDate c = ''2026-05-04'' \<Longrightarrow> dated (\<lambda>_. NaN) c = Some (candle.extend c \<lparr>ca_minuteTs = 1777824000000\<rparr>)"
  by (simp add: dated_def midnight_example)

lemma patched_sample:
  "dated (\<lambda>_. NaN) (patchRealtimeTodayCandle t (aggregateTodayKbar day [sample_kbar]) (sample_kbar\<lparr>kb_high := h\<rparr>)) = Some c
     \<Longrightarrow> ca_minuteTs c = 1777824000000 \<and> ca_high c = max 3 h"
  "\<exists>c. dated (\<lambda>_. NaN) (patchRealtimeTodayCandle t (aggregateTodayKbar day [sample_kbar]) (sample_kbar\<lparr>kb_high := h\<rparr>)) = Some c"
  by (auto simp: aggregateTodayKbar_def patchRealtimeTodayCandle_def Let_def dated_sample candle.defs)

text \<open>
  The k-bar of the day has high 3. A realtime k-bar raises it to 9; the next one has a high of 5, and
  the candle shown has 5.
\<close>

theorem participant_hook_shows_witness:
  "\<exists>st st' c. useParticipantAmplitude (\<lambda>_. NaN) None (today_props 3 9) no_candles = Some st
    \<and> useParticipantAmplitude (\<lambda>_. NaN) (Some (today_props 3 9)) (today_props 4 5) st = Some st'
    \<and> ca_high c = 5 \<and> candle_at (pt_timeline st') = (candle_at (pt_timeline st))(1777824000000 \<mapsto> c)"
proof -
  let ?use = "useParticipantAmplitude (\<lambda>_. NaN)"
  let ?render = "participant_render (\<lambda>_. NaN) (\<lambda>_. [sample_kbar])"
  obtain today where label: "day_label 0 = Some today" by (simp add: day_label_def time_clip_def)
  obtain c where c: "dated (\<lambda>_. NaN) (patchRealtimeTodayCandle today (aggregateTodayKbar today [sample_kbar])
      (sample_kbar\<lparr>kb_high := 9\<rparr>)) = Some c"
    using patched_sample(2) by blast
  obtain c' where c': "dated (\<lambda>_. NaN) (patchRealtimeTodayCandle today (aggregateTodayKbar today [sample_kbar])
      (sample_kbar\<lparr>kb_high := 5\<rparr>)) = Some c'"
    using patched_sample(2) by blast
  have "\<exists>l. baselineInternal (\<lambda>_. NaN) [] (aggregateTodayKbar today [sample_kbar]) = Some l"
    by (auto simp: baselineInternal_def aggregateTodayKbar_def dated_sample Let_def)
  then obtain l where l: "baselineInternal (\<lambda>_. NaN) [] (aggregateTodayKbar today [sample_kbar]) = Some l" by blast
  obtain st where st: "?use None (today_props 3 9) no_candles = Some st"
      "pt_agg st = aggregateTodayKbar today [sample_kbar]"
    using label c l
    by (simp add: useParticipantAmplitude_def participant_effects_def participant_patch_def dep_changed_def
        today_changed_def today_props_def toClosedSeries_def Let_def)
  have "?render (None, no_candles) (Some (today_props 3 9), st)"
    using st(1) by (auto simp: participant_render_def today_props_def)
  moreover have "reachable (mounted no_candles) ?render (None, no_candles)"
    by (rule reachable_init) (simp add: mounted_def)
  ultimately have r: "reachable (mounted no_candles) ?render (Some (today_props 3 9), st)"
    by (rule reachable_step [rotated])
  obtain st' where st': "?use (Some (today_props 3 9)) (today_props 4 5) st = Some st'"
    using label c' st(2)
    by (simp add: useParticipantAmplitude_def participant_effects_def participant_patch_def dep_changed_def
        today_changed_def today_props_def Let_def)
  from participant_hook_shows [OF r st', of 4 "sample_kbar\<lparr>kb_high := 5\<rparr>"] obtain t day c where
    "dated (\<lambda>_. NaN) (patchRealtimeTodayCandle t (aggregateTodayKbar day [sample_kbar]) (sample_kbar\<lparr>kb_high := 5\<rparr>)) = Some c"
    "candle_at (pt_timeline st') = (candle_at (pt_timeline st))(ca_minuteTs c \<mapsto> c)"
    by (auto simp: today_props_def)
  then show ?thesis using st(1) st' patched_sample(1) by fastforce
qed

definition bar_ok :: "rat \<Rightarrow> rat \<Rightarrow> rat \<Rightarrow> rat \<Rightarrow> bool" where
  "bar_ok op high low cl \<longleftrightarrow> low \<le> op \<and> op \<le> high \<and> low \<le> cl \<and> cl \<le> high"

abbreviation kbar_ok :: "kbar_today \<Rightarrow> bool" where
  "kbar_ok k \<equiv> bar_ok (kb_open k) (kb_high k) (kb_low k) (kb_close k)"

abbreviation candle_ok :: "candle \<Rightarrow> bool" where
  "candle_ok c \<equiv> bar_ok (ca_open c) (ca_high c) (ca_low c) (ca_close c)"

lemma aggregate_ok:
  assumes "\<forall>k \<in> set kbars. kbar_ok k" and "aggregateTodayKbar today kbars = Some c"
  shows "candle_ok c" and "\<forall>k \<in> set kbars. ca_low c \<le> kb_low k \<and> kb_high k \<le> ca_high c"
proof -
  let ?asc = "sort_key kb_minute_ts kbars"
  have ne: "kbars \<noteq> []" using assms(2) by (auto simp: aggregateTodayKbar_def)
  have c: "ca_open c = kb_open (hd ?asc)" "ca_close c = kb_close (last ?asc)"
    "ca_high c = Max (kb_high ` set kbars)" "ca_low c = Min (kb_low ` set kbars)"
    using assms(2) ne by (auto simp: aggregateTodayKbar_def Let_def)
  show cover: "\<forall>k \<in> set kbars. ca_low c \<le> kb_low k \<and> kb_high k \<le> ca_high c"
    by (auto simp: c)
  have "?asc \<noteq> []" using ne by (metis set_empty set_sort)
  then have "hd ?asc \<in> set kbars" "last ?asc \<in> set kbars"
    using hd_in_set [of ?asc] last_in_set [of ?asc] by simp_all
  then show "candle_ok c"
    using assms(1) cover unfolding bar_ok_def c(1,2) by (meson order_trans)
qed

lemma patched_ok:
  assumes "kbar_ok k" and "\<forall>c. current = Some c \<longrightarrow> candle_ok c"
  shows "candle_ok (patchRealtimeTodayCandle today current k)"
    and "ca_low (patchRealtimeTodayCandle today current k) \<le> kb_low k"
    and "kb_high k \<le> ca_high (patchRealtimeTodayCandle today current k)"
  using assms by (auto simp: patchRealtimeTodayCandle_def bar_ok_def Let_def split: option.splits)

text \<open>
  A candle stays a candle: with k-bars whose open and close lie between their low and high,
  the aggregated candle of the day and every patched one have them between low and high too, and
  cover every k-bar that went in.
\<close>

theorem candles_well_formed:
  assumes "\<forall>k \<in> set kbars. kbar_ok k" and "kbar_ok k"
  shows "let c = patchRealtimeTodayCandle today (aggregateTodayKbar today kbars) k
    in candle_ok c \<and> (\<forall>k' \<in> set (k # kbars). ca_low c \<le> kb_low k' \<and> kb_high k' \<le> ca_high c)"
proof -
  let ?agg = "aggregateTodayKbar today kbars"
  have "\<forall>c. ?agg = Some c \<longrightarrow> candle_ok c" using aggregate_ok(1) [OF assms(1)] by blast
  note p = patched_ok [OF assms(2) this]
  have "ca_low (patchRealtimeTodayCandle today ?agg k) \<le> kb_low k' \<and> kb_high k' \<le> ca_high (patchRealtimeTodayCandle today ?agg k)"
    if k': "k' \<in> set kbars" for k'
  proof -
    obtain c where c: "?agg = Some c" using k' by (cases ?agg) (auto simp: aggregateTodayKbar_def Let_def split: if_splits)
    then show ?thesis using aggregate_ok(2) [OF assms(1) c] k'
      by (auto simp: patchRealtimeTodayCandle_def Let_def min_le_iff_disj le_max_iff_disj)
  qed
  then show ?thesis using p by (simp add: Let_def)
qed

theorem candles_well_formed_witness:
  "candle_ok (patchRealtimeTodayCandle ''05/04'' (aggregateTodayKbar ''05/04'' [sample_kbar]) (sample_kbar\<lparr>kb_high := 9\<rparr>))"
  using candles_well_formed [of "[sample_kbar]" "sample_kbar\<lparr>kb_high := 9\<rparr>" "''05/04''"]
  by (simp add: bar_ok_def Let_def)

end
