(* ===== verification/EstimatedVolume.thy ===== *)
theory EstimatedVolume
  imports TimelineHooks
begin

text \<open>
  The estimated turnover chart: \<open>features/dashboard/lib/estimated-volume-mapper.ts\<close> and the
  hook \<open>use-estimated-volume-timeline.ts\<close>. Rows are run-time values, because the code tests the
  type of every field it reads. Formatting a time outside the range of dates throws: None.
\<close>

section \<open>The mapper\<close>

record volume_point =
  ev_minuteTs :: rat
  ev_minuteOfDay :: nat
  ev_time :: string
  ev_yesterdayEstimated :: jsnum
  ev_todayEstimated :: rat
  ev_positiveDiff :: jsnum
  ev_negativeDiff :: jsnum

record volume_sample =
  vs_minuteTs :: rat
  vs_minuteOfDay :: nat
  vs_estimated :: rat
  vs_yesterdayEstimated :: jsval
  vs_estimatedDiff :: jsval

record volume_patch =
  vq_minuteTs :: rat
  vq_todayEstimated :: rat
  vq_yesterdayEstimated :: jsval
  vq_estimatedDiff :: jsval

definition minuteOfDayFromEpochMs :: "rat \<Rightarrow> nat option" where
  "minuteOfDayFromEpochMs ts =
     map_option (\<lambda>t. taipei_minute t div 60 * 60 + taipei_minute t mod 60) (time_clip ts)"

text \<open>\<open>toMinuteSample\<close>: None when it throws, \<open>Some None\<close> for null.\<close>

definition toMinuteSample :: "jsval \<Rightarrow> volume_sample option option" where
  "toMinuteSample point =
     (case (finite_num (js_get point ''minute_ts''), finite_num (js_get point ''estimated_turnover'')) of
        (Some ts, Some estimated) \<Rightarrow>
          (let minuteTs = minuteKeyFromEpochMs ts
           in map_option (\<lambda>minuteOfDay.
                Some \<lparr>vs_minuteTs = minuteTs, vs_minuteOfDay = minuteOfDay, vs_estimated = estimated,
                      vs_yesterdayEstimated = js_get point ''yesterday_estimated_turnover'',
                      vs_estimatedDiff = js_get point ''estimated_turnover_diff''\<rparr>)
                (minuteOfDayFromEpochMs minuteTs))
      | _ \<Rightarrow> Some None)"

definition withDiff :: "rat \<Rightarrow> nat \<Rightarrow> string \<Rightarrow> jsnum \<Rightarrow> rat \<Rightarrow> volume_point" where
  "withDiff minuteTs minuteOfDay time yesterdayEstimated todayEstimated =
     (let diff = num_sub (Fin todayEstimated) yesterdayEstimated
      in \<lparr>ev_minuteTs = minuteTs, ev_minuteOfDay = minuteOfDay, ev_time = time,
          ev_yesterdayEstimated = yesterdayEstimated, ev_todayEstimated = todayEstimated,
          ev_positiveDiff = (if num_lt (Fin 0) diff then diff else Fin 0),
          ev_negativeDiff = (if num_lt diff (Fin 0) then diff else Fin 0)\<rparr>)"

text \<open>A difference the server sends replaces the computed one.\<close>

definition server_diff :: "jsval \<Rightarrow> volume_point \<Rightarrow> volume_point" where
  "server_diff estimatedDiff point =
     (case estimatedDiff of
        Num d \<Rightarrow>
          if num_le (Fin 0) d then point\<lparr>ev_positiveDiff := d, ev_negativeDiff := Fin 0\<rparr>
          else point\<lparr>ev_positiveDiff := Fin 0, ev_negativeDiff := d\<rparr>
      | _ \<Rightarrow> point)"

definition server_yesterday :: "jsval \<Rightarrow> (nat, rat) dict \<Rightarrow> nat \<Rightarrow> jsnum" where
  "server_yesterday v yesterdayByMinuteOfDay minuteOfDay =
     (case v of Num y \<Rightarrow> y
      | _ \<Rightarrow> Fin (case dict_get yesterdayByMinuteOfDay minuteOfDay of Some y \<Rightarrow> y | None \<Rightarrow> 0))"

text \<open>A loop over rows whose body may throw.\<close>

definition each_sample :: "(volume_sample \<Rightarrow> 'd \<Rightarrow> 'd) \<Rightarrow> jsval list \<Rightarrow> 'd \<Rightarrow> 'd option" where
  "each_sample f rows d =
     fold (\<lambda>row acc. Option.bind acc (\<lambda>d.
       map_option (\<lambda>s. case s of None \<Rightarrow> d | Some sample \<Rightarrow> f sample d) (toMinuteSample row))) rows (Some d)"

definition yesterday_map :: "jsval list \<Rightarrow> (nat, rat) dict option" where
  "yesterday_map yesterday =
     each_sample (\<lambda>s d. dict_set d (vs_minuteOfDay s) (vs_estimated s)) yesterday []"

definition today_map :: "jsval list \<Rightarrow> (rat, volume_sample) dict option" where
  "today_map today = each_sample (\<lambda>s d. dict_set d (vs_minuteTs s) s) today []"

definition volume_row :: "(nat, rat) dict \<Rightarrow> volume_sample \<Rightarrow> volume_point option" where
  "volume_row yesterdayByMinuteOfDay s =
     map_option (\<lambda>time.
       server_diff (vs_estimatedDiff s)
         (withDiff (vs_minuteTs s) (vs_minuteOfDay s) time
            (server_yesterday (vs_yesterdayEstimated s) yesterdayByMinuteOfDay (vs_minuteOfDay s))
            (vs_estimated s)))
       (formatMinuteLabel (vs_minuteTs s))"

record volume_baseline =
  vb_series :: "volume_point list"
  vb_yesterdayByMinuteOfDay :: "(nat, rat) dict"

definition buildEstimatedVolumeBaseline :: "jsval list \<Rightarrow> jsval list \<Rightarrow> volume_baseline option" where
  "buildEstimatedVolumeBaseline today yesterday =
     Option.bind (yesterday_map yesterday) (\<lambda>y.
       Option.bind (today_map today) (\<lambda>t.
         map_option (\<lambda>series. \<lparr>vb_series = series, vb_yesterdayByMinuteOfDay = y\<rparr>)
           (those (map (volume_row y) (sort_key vs_minuteTs (map snd t))))))"

definition applyEstimatedVolumeRealtimePatch ::
  "volume_point list \<Rightarrow> volume_patch \<Rightarrow> (nat, rat) dict \<Rightarrow> volume_point list option" where
  "applyEstimatedVolumeRealtimePatch series patch yesterdayByMinuteOfDay =
     (let minuteTs = minuteKeyFromEpochMs (vq_minuteTs patch)
      in Option.bind (minuteOfDayFromEpochMs minuteTs) (\<lambda>minuteOfDay.
        Option.bind (formatMinuteLabel minuteTs) (\<lambda>time.
          let patched = server_diff (vq_estimatedDiff patch)
                (withDiff minuteTs minuteOfDay time
                   (server_yesterday (vq_yesterdayEstimated patch) yesterdayByMinuteOfDay minuteOfDay)
                   (vq_todayEstimated patch))
          in Some (case find_index (\<lambda>point. ev_minuteTs point = minuteTs) series of
               Some existingIndex \<Rightarrow> sort_key ev_minuteTs (series[existingIndex := patched])
             | None \<Rightarrow> sort_key ev_minuteTs (series @ [patched])))))"

section \<open>What the mapper computes\<close>

lemma server_diff_key [simp]: "ev_minuteTs (server_diff d p) = ev_minuteTs p"
  by (auto simp: server_diff_def split: jsval.splits)

lemma withDiff_key [simp]: "ev_minuteTs (withDiff m n t y e) = m"
  by (simp add: withDiff_def Let_def)

lemma each_sample_wf:
  "(\<And>s d. dict_wf d \<Longrightarrow> dict_wf (f s d)) \<Longrightarrow> dict_wf d \<Longrightarrow> each_sample f rows d = Some d' \<Longrightarrow> dict_wf d'"
proof -
  assume f: "\<And>s d. dict_wf d \<Longrightarrow> dict_wf (f s d)" and d: "dict_wf d" and e: "each_sample f rows d = Some d'"
  have "\<forall>d'. each_sample f rows d = Some d' \<longrightarrow> dict_wf d'"
    unfolding each_sample_def
    by (rule fold_invariant) (use f d in \<open>auto simp: bind_eq_Some_conv split: option.splits\<close>)
  with e show ?thesis by blast
qed

lemma each_sample_snoc:
  "each_sample f (rows @ [row]) d =
    Option.bind (each_sample f rows d) (\<lambda>d.
      map_option (\<lambda>s. case s of None \<Rightarrow> d | Some sample \<Rightarrow> f sample d) (toMinuteSample row))"
  by (simp add: each_sample_def)

lemma minute_labels_exist: "minuteOfDayFromEpochMs t = None \<longleftrightarrow> formatMinuteLabel t = None"
  by (simp add: minuteOfDayFromEpochMs_def formatMinuteLabel_def)

text \<open>Every sample the maps hold has a minute that can be formatted, and is filed under it.\<close>

definition samples_ok :: "(rat, volume_sample) dict \<Rightarrow> bool" where
  "samples_ok d \<longleftrightarrow> dict_wf d \<and>
     (\<forall>(t, s) \<in> set d. vs_minuteTs s = t \<and> formatMinuteLabel t \<noteq> None)"

lemma toMinuteSample_ok:
  assumes "toMinuteSample row = Some (Some s)"
  shows "formatMinuteLabel (vs_minuteTs s) \<noteq> None"
    and "minuteOfDayFromEpochMs (vs_minuteTs s) = Some (vs_minuteOfDay s)"
  using assms minute_labels_exist [of "vs_minuteTs s"]
  by (auto simp: toMinuteSample_def Let_def split: option.splits)

lemma today_map_ok: "today_map today = Some d \<Longrightarrow> samples_ok d"
proof -
  have "\<forall>d. today_map today = Some d \<longrightarrow> samples_ok d"
    unfolding today_map_def each_sample_def
    by (rule fold_invariant)
      (auto simp: samples_ok_def set_dict_set bind_eq_Some_conv dest: toMinuteSample_ok split: option.splits)
  then show "today_map today = Some d \<Longrightarrow> samples_ok d" by blast
qed

definition volume_point_of :: "(nat, rat) dict \<Rightarrow> volume_sample \<Rightarrow> volume_point" where
  "volume_point_of y s =
     server_diff (vs_estimatedDiff s)
       (withDiff (vs_minuteTs s) (vs_minuteOfDay s) (the (formatMinuteLabel (vs_minuteTs s)))
          (server_yesterday (vs_yesterdayEstimated s) y (vs_minuteOfDay s)) (vs_estimated s))"

lemma baseline_series:
  assumes "samples_ok d"
  shows "those (map (volume_row y) (sort_key vs_minuteTs (map snd d)))
    = Some (map (volume_point_of y) (map snd (sort_key fst d)))"
proof -
  have k: "sort_key vs_minuteTs (map snd d) = map snd (sort_key fst d)"
  proof -
    have "sort_key (vs_minuteTs \<circ> snd) d = sort_key fst d"
      using assms by (intro sort_key_cong) (auto simp: samples_ok_def)
    then show ?thesis by (simp add: sort_key_map)
  qed
  show ?thesis unfolding k
    using assms by (intro those_eq_Some) (auto simp: volume_row_def volume_point_of_def samples_ok_def)
qed

lemma patch_is_update:
  assumes "ascending ev_minuteTs series" and "minuteKeyFromEpochMs (vq_minuteTs patch) = vs_minuteTs s"
    and "minuteOfDayFromEpochMs (vs_minuteTs s) = Some (vs_minuteOfDay s)"
    and "vq_todayEstimated patch = vs_estimated s" "vq_yesterdayEstimated patch = vs_yesterdayEstimated s"
      "vq_estimatedDiff patch = vs_estimatedDiff s"
  shows "applyEstimatedVolumeRealtimePatch series patch y
    = Some (upd_series ev_minuteTs (volume_point_of y s) series)"
proof -
  obtain time where t: "formatMinuteLabel (vs_minuteTs s) = Some time"
    using assms(3) minute_labels_exist [of "vs_minuteTs s"] by auto
  have "ev_minuteTs (volume_point_of y s) = vs_minuteTs s" by (simp add: volume_point_of_def)
  moreover have vp: "server_diff (vs_estimatedDiff s) (withDiff (vs_minuteTs s) (vs_minuteOfDay s) time
      (server_yesterday (vs_yesterdayEstimated s) y (vs_minuteOfDay s)) (vs_estimated s)) = volume_point_of y s"
    by (simp add: volume_point_of_def t)
  ultimately show ?thesis
    using replace_or_push [OF assms(1), of "volume_point_of y s"]
    unfolding applyEstimatedVolumeRealtimePatch_def Let_def assms(2-6) t bind.bind_lunit vp
    by simp
qed

lemma baseline_ascending:
  assumes "buildEstimatedVolumeBaseline today yesterday = Some b"
  shows "ascending ev_minuteTs (vb_series b)"
proof -
  obtain y d where d: "today_map today = Some d"
    and b: "b = \<lparr>vb_series = map (volume_point_of y) (map snd (sort_key fst d)), vb_yesterdayByMinuteOfDay = y\<rparr>"
    using assms baseline_series [OF today_map_ok]
    by (auto simp: buildEstimatedVolumeBaseline_def bind_eq_Some_conv)
  have key: "\<forall>e \<in> set d. vs_minuteTs (snd e) = fst e" and wf: "dict_wf d"
    using today_map_ok [OF d] by (auto simp: samples_ok_def)
  have "map ev_minuteTs (vb_series b) = map fst (sort_key fst d)"
    using key by (auto simp: b volume_point_of_def)
  then show ?thesis using wf by (simp add: map_key_sort_key strict_sorted_iff)
qed

text \<open>
  C20. Incremental equals batch: patching the baseline of the rows seen so far with one more row
  gives exactly the series that the baseline of all the rows gives, with the server's difference
  and yesterday's value used or replaced in the same way.
\<close>

theorem volume_patch_is_rebuild:
  assumes "buildEstimatedVolumeBaseline today yesterday = Some b" and "toMinuteSample row = Some (Some s)"
  shows "map_option vb_series (buildEstimatedVolumeBaseline (today @ [row]) yesterday) =
    applyEstimatedVolumeRealtimePatch (vb_series b)
      \<lparr>vq_minuteTs = vs_minuteTs s, vq_todayEstimated = vs_estimated s,
       vq_yesterdayEstimated = vs_yesterdayEstimated s, vq_estimatedDiff = vs_estimatedDiff s\<rparr>
      (vb_yesterdayByMinuteOfDay b)"
proof -
  obtain y d where y: "yesterday_map yesterday = Some y" and d: "today_map today = Some d"
    and b: "b = \<lparr>vb_series = map (volume_point_of y) (map snd (sort_key fst d)), vb_yesterdayByMinuteOfDay = y\<rparr>"
    using assms(1) baseline_series [OF today_map_ok]
    by (auto simp: buildEstimatedVolumeBaseline_def bind_eq_Some_conv)
  let ?d = "dict_set d (vs_minuteTs s) s"
  note ok = today_map_ok [OF d] and s = toMinuteSample_ok [OF assms(2)]
  have d': "today_map (today @ [row]) = Some ?d"
    using d assms(2) by (simp add: today_map_def each_sample_snoc)
  have key: "minuteKeyFromEpochMs (vs_minuteTs s) = vs_minuteTs s"
    using assms(2) by (auto simp: toMinuteSample_def Let_def split: option.splits)
  have wf: "dict_wf d" and dk: "\<forall>e \<in> set d. vs_minuteTs (snd e) = fst e"
    using ok by (auto simp: samples_ok_def)
  let ?mk = "\<lambda>e. (volume_point_of y (snd e))\<lparr>ev_minuteTs := fst e\<rparr>"
  have mk: "map (volume_point_of y) (map snd (sort_key fst e)) = map ?mk (sort_key fst e)"
    if "\<forall>x \<in> set e. vs_minuteTs (snd x) = fst x" for e
    using that by (auto simp: volume_point_of_def server_diff_def withDiff_def Let_def split: jsval.splits)
  have "map_option vb_series (buildEstimatedVolumeBaseline (today @ [row]) yesterday)
      = Some (map (volume_point_of y) (map snd (sort_key fst ?d)))"
    using baseline_series [OF today_map_ok [OF d']]
    by (simp add: buildEstimatedVolumeBaseline_def y d' option.map_comp comp_def)
  also have "map (volume_point_of y) (map snd (sort_key fst ?d)) = map ?mk (sort_key fst ?d)"
    using dk by (intro mk) (auto simp: set_dict_set [OF wf])
  also have "\<dots> = upd_series ev_minuteTs (?mk (vs_minuteTs s, s)) (map ?mk (sort_key fst d))"
    by (rule sort_dict_set [OF wf]) simp
  also have "map ?mk (sort_key fst d) = vb_series b" using mk [OF dk] by (simp add: b)
  also have "?mk (vs_minuteTs s, s) = volume_point_of y s"
    by (simp add: volume_point_of_def server_diff_def withDiff_def Let_def split: jsval.splits)
  also have "Some (upd_series ev_minuteTs (volume_point_of y s) (vb_series b)) =
      applyEstimatedVolumeRealtimePatch (vb_series b)
        \<lparr>vq_minuteTs = vs_minuteTs s, vq_todayEstimated = vs_estimated s,
         vq_yesterdayEstimated = vs_yesterdayEstimated s, vq_estimatedDiff = vs_estimatedDiff s\<rparr> y"
    by (rule patch_is_update [symmetric])
      (simp_all add: baseline_ascending [OF assms(1)] key s)
  also have "y = vb_yesterdayByMinuteOfDay b" by (simp add: b)
  finally show ?thesis .
qed

definition summary_event :: jsval where
  "summary_event = Obj 7 [(''minute_ts'', Num (Fin 3600000)), (''estimated_turnover'', Num (Fin 9))]"

theorem volume_patch_is_rebuild_witness:
  "map_option vb_series (buildEstimatedVolumeBaseline [summary_event] []) =
    applyEstimatedVolumeRealtimePatch []
      \<lparr>vq_minuteTs = 3600000, vq_todayEstimated = 9, vq_yesterdayEstimated = Undef, vq_estimatedDiff = Undef\<rparr> []"
proof -
  have b: "buildEstimatedVolumeBaseline [] [] = Some \<lparr>vb_series = [], vb_yesterdayByMinuteOfDay = []\<rparr>"
    by (simp add: buildEstimatedVolumeBaseline_def yesterday_map_def today_map_def each_sample_def)
  have "toMinuteSample summary_event = Some (Some
      \<lparr>vs_minuteTs = 3600000, vs_minuteOfDay = the (minuteOfDayFromEpochMs 3600000), vs_estimated = 9,
       vs_yesterdayEstimated = Undef, vs_estimatedDiff = Undef\<rparr>)"
    by (simp add: toMinuteSample_def summary_event_def finite_num_def minuteKeyFromEpochMs_def Let_def
        minuteOfDayFromEpochMs_def time_clip_def)
  then show ?thesis using volume_patch_is_rebuild [OF b] by simp
qed

section \<open>The hook\<close>

definition same_volume :: "volume_point \<Rightarrow> volume_point \<Rightarrow> bool" where
  "same_volume a b \<longleftrightarrow>
     ev_minuteTs a = ev_minuteTs b \<and> ev_minuteOfDay a = ev_minuteOfDay b \<and> ev_time a = ev_time b
     \<and> num_seq (ev_yesterdayEstimated a) (ev_yesterdayEstimated b) \<and> ev_todayEstimated a = ev_todayEstimated b
     \<and> num_seq (ev_positiveDiff a) (ev_positiveDiff b) \<and> num_seq (ev_negativeDiff a) (ev_negativeDiff b)"

interpretation volume: timeline ev_minuteTs same_volume
  by unfold_locales (auto simp: same_volume_def intro!: volume_point.equality dest: num_seq_eq)

definition resolveRealtimeMinuteTs :: "jsval \<Rightarrow> rat option" where
  "resolveRealtimeMinuteTs payload =
     or_else (finite_num (js_get payload ''minute_ts'')) (finite_num (js_get payload ''event_ts''))"

definition resolveSessionBoundsMs :: "(string \<Rightarrow> jsnum) \<Rightarrow> rat \<Rightarrow> (jsnum \<times> jsnum) option" where
  "resolveSessionBoundsMs legacy tsMs =
     map_option (\<lambda>datePart.
       (date_parse legacy (datePart @ ''T09:00:00+08:00''), date_parse legacy (datePart @ ''T13:45:00+08:00'')))
       (resolveTaipeiDatePart tsMs)"

record volume_props =
  ep_data :: "nat \<times> jsval list \<times> jsval list"
  ep_latest :: "nat \<times> jsval"
  ep_now :: rat

text \<open>The point of a realtime summary: None when it throws, \<open>Some None\<close> when it is ignored.\<close>

definition realtime_point ::
  "(string \<Rightarrow> jsnum) \<Rightarrow> rat \<Rightarrow> (nat, rat) dict \<Rightarrow> jsval \<Rightarrow> volume_point option option" where
  "realtime_point legacy now y latest =
     (if \<not> truthy latest then Some None
      else case (finite_num (js_get latest ''estimated_turnover''), resolveRealtimeMinuteTs latest) of
        (Some estimated, Some minuteTs) \<Rightarrow>
          Option.bind (resolveSessionBoundsMs legacy now) (\<lambda>(sessionStartMs, sessionEndMs).
            if num_lt (Fin minuteTs) sessionStartMs \<or> num_lt sessionEndMs (Fin minuteTs) then Some None
            else map_option (\<lambda>points. Some (hd points))
              (applyEstimatedVolumeRealtimePatch []
                 \<lparr>vq_minuteTs = minuteTs, vq_todayEstimated = estimated,
                  vq_yesterdayEstimated = js_get latest ''yesterday_estimated_turnover'',
                  vq_estimatedDiff = js_get latest ''estimated_turnover_diff''\<rparr> y))
      | _ \<Rightarrow> Some None)"

definition useEstimatedVolumeTimeline ::
  "(string \<Rightarrow> jsnum) \<Rightarrow> volume_props option \<Rightarrow> volume_props \<Rightarrow> volume_point timeline_state
     \<Rightarrow> volume_point timeline_state option" where
  "useEstimatedVolumeTimeline legacy prev p st =
     Option.bind (buildEstimatedVolumeBaseline (fst (snd (ep_data p))) (snd (snd (ep_data p)))) (\<lambda>baseline.
       let st1 = (if dep_changed (\<lambda>p. fst (ep_data p)) prev p
                  then reset_timeline ev_minuteTs (vb_series baseline) else st)
       in if dep_changed (\<lambda>p. (fst (ep_latest p), fst (ep_data p))) prev p
          then map_option (\<lambda>v. case v of None \<Rightarrow> st1
                           | Some point \<Rightarrow> patch_timeline ev_minuteTs same_volume point st1)
                 (realtime_point legacy (ep_now p) (vb_yesterdayByMinuteOfDay baseline) (snd (ep_latest p)))
          else Some st1)"

text \<open>A render that does not throw.\<close>

definition volume_render ::
  "(string \<Rightarrow> jsnum) \<Rightarrow> volume_props option \<times> volume_point timeline_state
     \<Rightarrow> volume_props option \<times> volume_point timeline_state \<Rightarrow> bool" where
  "volume_render legacy x y \<longleftrightarrow>
     (\<exists>p st. useEstimatedVolumeTimeline legacy (fst x) p (snd x) = Some st \<and> y = (Some p, st))"

lemma volume_step:
  assumes "ascending ev_minuteTs (tl_series st)" and "useEstimatedVolumeTimeline legacy prev p st = Some st'"
  obtains b where "buildEstimatedVolumeBaseline (fst (snd (ep_data p))) (snd (snd (ep_data p))) = Some b"
    and "tl_series st' =
      (let base = (if dep_changed (\<lambda>p. fst (ep_data p)) prev p then vb_series b else tl_series st)
       in case realtime_point legacy (ep_now p) (vb_yesterdayByMinuteOfDay b) (snd (ep_latest p)) of
            Some (Some point) \<Rightarrow>
              if dep_changed (\<lambda>p. (fst (ep_latest p), fst (ep_data p))) prev p
              then upd_series ev_minuteTs point base else base
          | _ \<Rightarrow> base)"
    and "ascending ev_minuteTs (tl_series st')"
proof -
  obtain b where b: "buildEstimatedVolumeBaseline (fst (snd (ep_data p))) (snd (snd (ep_data p))) = Some b"
    using assms(2) by (auto simp: useEstimatedVolumeTimeline_def bind_eq_Some_conv)
  define st1 where "st1 = (if dep_changed (\<lambda>p. fst (ep_data p)) prev p
    then reset_timeline ev_minuteTs (vb_series b) else st)"
  have base: "tl_series st1 = (if dep_changed (\<lambda>p. fst (ep_data p)) prev p then vb_series b else tl_series st)"
    by (simp add: st1_def reset_timeline_def)
  have asc: "ascending ev_minuteTs (tl_series st1)"
    using assms(1) baseline_ascending [OF b] by (simp add: base)
  have st': "(if dep_changed (\<lambda>p. (fst (ep_latest p), fst (ep_data p))) prev p
          then map_option (\<lambda>v. case v of None \<Rightarrow> st1
                           | Some point \<Rightarrow> patch_timeline ev_minuteTs same_volume point st1)
                 (realtime_point legacy (ep_now p) (vb_yesterdayByMinuteOfDay b) (snd (ep_latest p)))
          else Some st1) = Some st'"
    using assms(2) unfolding useEstimatedVolumeTimeline_def b bind.bind_lunit Let_def st1_def .
  show thesis
  proof (rule that [OF b])
    show "tl_series st' =
      (let base = (if dep_changed (\<lambda>p. fst (ep_data p)) prev p then vb_series b else tl_series st)
       in case realtime_point legacy (ep_now p) (vb_yesterdayByMinuteOfDay b) (snd (ep_latest p)) of
            Some (Some point) \<Rightarrow>
              if dep_changed (\<lambda>p. (fst (ep_latest p), fst (ep_data p))) prev p
              then upd_series ev_minuteTs point base else base
          | _ \<Rightarrow> base)"
      unfolding base [symmetric] Let_def
    proof (cases "dep_changed (\<lambda>p. (fst (ep_latest p), fst (ep_data p))) prev p")
      case True
      with st' obtain v where v: "realtime_point legacy (ep_now p) (vb_yesterdayByMinuteOfDay b) (snd (ep_latest p)) = Some v"
        and e: "st' = (case v of None \<Rightarrow> st1 | Some point \<Rightarrow> patch_timeline ev_minuteTs same_volume point st1)"
        by auto
      show "tl_series st' = (case realtime_point legacy (ep_now p) (vb_yesterdayByMinuteOfDay b) (snd (ep_latest p)) of
            Some (Some point) \<Rightarrow>
              if dep_changed (\<lambda>p. (fst (ep_latest p), fst (ep_data p))) prev p
              then upd_series ev_minuteTs point (tl_series st1) else tl_series st1
          | _ \<Rightarrow> tl_series st1)"
        using True by (cases v) (simp_all add: v e volume.patch_ascending [OF asc])
    next
      case False
      then show "tl_series st' = (case realtime_point legacy (ep_now p) (vb_yesterdayByMinuteOfDay b) (snd (ep_latest p)) of
            Some (Some point) \<Rightarrow>
              if dep_changed (\<lambda>p. (fst (ep_latest p), fst (ep_data p))) prev p
              then upd_series ev_minuteTs point (tl_series st1) else tl_series st1
          | _ \<Rightarrow> tl_series st1)"
        using st' by (simp split: option.splits)
    qed
    then show "ascending ev_minuteTs (tl_series st')"
      using asc unfolding base [symmetric] Let_def
      by (auto intro: ascending_upd_series split: option.splits if_splits)
  qed
qed

interpretation volume_inv: invariant_of "mounted no_series" "volume_render legacy"
    "\<lambda>x. ascending ev_minuteTs (tl_series (snd x))" for legacy
proof unfold_locales
  fix x :: "volume_props option \<times> volume_point timeline_state"
  show "mounted no_series x \<Longrightarrow> ascending ev_minuteTs (tl_series (snd x))"
    by (simp add: mounted_def no_series_def)
next
  fix x y :: "volume_props option \<times> volume_point timeline_state"
  assume "ascending ev_minuteTs (tl_series (snd x))" "volume_render legacy x y"
  then show "ascending ev_minuteTs (tl_series (snd y))"
    unfolding volume_render_def by (auto elim: volume_step)
qed

text \<open>
  The chart of the estimated turnover is in ascending order after every render, and after a
  render with a new summary or a new baseline it is the baseline (or what was shown) with the
  realtime point put in: unlike the k-bar chart, a refetched baseline does not drop it.
\<close>

theorem volume_hook_shows:
  assumes "reachable (mounted no_series) (volume_render legacy) (prev, st)"
    and "useEstimatedVolumeTimeline legacy prev p st = Some st'"
  shows "ascending ev_minuteTs (tl_series st') \<and>
    (\<exists>b. buildEstimatedVolumeBaseline (fst (snd (ep_data p))) (snd (snd (ep_data p))) = Some b \<and>
      tl_series st' =
        (let base = (if dep_changed (\<lambda>p. fst (ep_data p)) prev p then vb_series b else tl_series st)
         in case realtime_point legacy (ep_now p) (vb_yesterdayByMinuteOfDay b) (snd (ep_latest p)) of
              Some (Some point) \<Rightarrow>
                if dep_changed (\<lambda>p. (fst (ep_latest p), fst (ep_data p))) prev p
                then upd_series ev_minuteTs point base else base
            | _ \<Rightarrow> base))"
proof -
  have "ascending ev_minuteTs (tl_series st)"
    using volume_inv.reachable_inv [OF assms(1)] by simp
  then show ?thesis using assms(2) by (rule volume_step) blast
qed

theorem volume_hook_shows_witness:
  "\<exists>st'. useEstimatedVolumeTimeline (\<lambda>_. NaN) None
      \<lparr>ep_data = (1, [], []), ep_latest = (0, Null), ep_now = 0\<rparr> no_series = Some st'
    \<and> ascending ev_minuteTs (tl_series st')"
proof -
  let ?p = "\<lparr>ep_data = (1, [], []), ep_latest = (0, Null), ep_now = 0\<rparr>"
  have r: "reachable (mounted no_series) (volume_render (\<lambda>_. NaN)) (None, no_series)"
    by (rule reachable_init) (simp add: mounted_def)
  obtain st' where "useEstimatedVolumeTimeline (\<lambda>_. NaN) None ?p no_series = Some st'"
    by (auto simp: useEstimatedVolumeTimeline_def buildEstimatedVolumeBaseline_def yesterday_map_def
        today_map_def each_sample_def realtime_point_def Let_def)
  then show ?thesis using volume_hook_shows [OF r] by blast
qed

lemma session_bounds_now:
  assumes "modern_ts now"
  shows "resolveSessionBoundsMs legacy now =
    Some (Fin (of_int (taipei_day \<lfloor>now\<rfloor> * day_ms - taipei_offset + session_open)),
          Fin (of_int (taipei_day \<lfloor>now\<rfloor> * day_ms - taipei_offset + session_close)))"
proof -
  let ?z = "taipei_day \<lfloor>now\<rfloor>"
  note day = modern_ts_day [OF assms(1)]
  have "bounds_of_date legacy (format_ymd ?z) =
      \<lparr>startMs = date_parse legacy (format_ymd ?z @ ''T09:00:00+08:00''),
       endMs = date_parse legacy (format_ymd ?z @ ''T13:45:00+08:00'')\<rparr>"
    by (simp add: bounds_of_date_def SESSION_START_HHMM_def SESSION_END_HHMM_def)
  then have "date_parse legacy (format_ymd ?z @ ''T09:00:00+08:00'')
      = Fin (of_int (?z * day_ms - taipei_offset + session_open))"
    "date_parse legacy (format_ymd ?z @ ''T13:45:00+08:00'')
      = Fin (of_int (?z * day_ms - taipei_offset + session_close))"
    unfolding bounds_of_modern_date [OF day(3)] by simp_all
  then show ?thesis
    by (simp add: resolveSessionBoundsMs_def resolveTaipeiDatePart_def day(1))
qed

text \<open>
  No summary from outside today's session reaches the chart: the instant of a realtime point
  lies between nine o'clock and a quarter to two in Taipei on the day of the clock, and the
  point is filed under its minute.
\<close>

theorem realtime_point_in_session:
  assumes "modern_ts now" and "realtime_point legacy now y latest = Some (Some point)"
  shows "\<exists>ts. resolveRealtimeMinuteTs latest = Some ts \<and> ev_minuteTs point = minuteKeyFromEpochMs ts
    \<and> of_int (taipei_day \<lfloor>now\<rfloor> * day_ms - taipei_offset + session_open) \<le> ts
    \<and> ts \<le> of_int (taipei_day \<lfloor>now\<rfloor> * day_ms - taipei_offset + session_close)"
proof -
  let ?z = "taipei_day \<lfloor>now\<rfloor>"
  note bounds = session_bounds_now [OF assms(1)]
  obtain e ts where r: "finite_num (js_get latest ''estimated_turnover'') = Some e"
      "resolveRealtimeMinuteTs latest = Some ts"
    using assms(2) by (auto simp: realtime_point_def split: if_splits option.splits)
  then have "\<not> ts < of_int (?z * day_ms - taipei_offset + session_open)"
      "\<not> of_int (?z * day_ms - taipei_offset + session_close) < ts"
    using assms(2) by (auto simp: realtime_point_def bounds split: if_splits)
  moreover have "ev_minuteTs point = minuteKeyFromEpochMs ts"
    using assms(2) r
    by (auto simp: realtime_point_def bounds applyEstimatedVolumeRealtimePatch_def Let_def bind_eq_Some_conv
        split: if_splits)
  ultimately show ?thesis using r(2) by (intro exI [of _ ts]) simp
qed

lemma summary_event_point:
  "\<exists>point. realtime_point (\<lambda>_. NaN) 0 [] summary_event = Some (Some point)"
proof -
  have "resolveSessionBoundsMs (\<lambda>_. NaN) 0 = Some (Fin 3600000, Fin 20700000)"
    by (subst session_bounds_now)
      (simp_all add: taipei_day_def day_ms_def taipei_offset_def session_open_def session_close_def)
  then show ?thesis
    by (simp add: realtime_point_def summary_event_def finite_num_def resolveRealtimeMinuteTs_def or_else_def
        applyEstimatedVolumeRealtimePatch_def minuteOfDayFromEpochMs_def formatMinuteLabel_def time_clip_def
        minuteKeyFromEpochMs_def Let_def)
qed

theorem realtime_point_in_session_witness:
  "\<exists>point. realtime_point (\<lambda>_. NaN) 0 [] summary_event = Some (Some point)
    \<and> (\<exists>ts. resolveRealtimeMinuteTs summary_event = Some ts \<and> ev_minuteTs point = minuteKeyFromEpochMs ts)"
proof -
  obtain point where p: "realtime_point (\<lambda>_. NaN) 0 [] summary_event = Some (Some point)"
    using summary_event_point by blast
  then show ?thesis using realtime_point_in_session [OF _ p] by auto
qed

end
