(* ===== verification/MarketIndex.thy ===== *)
theory MarketIndex
  imports TimelineHooks Session
begin

text \<open>
  Two index charts: the OTC index with its cancellable request
  (\<open>features/dashboard/hooks/use-otc-index-series.ts\<close>) and the trend index
  (\<open>lib/trend-index-mapper.ts\<close>).

  The label of an OTC point joins two formatters, one for the hour and one for the minute; what
  each prints when it stands alone is left to the implementation, so both are parameters.
\<close>

section \<open>The OTC series\<close>

record otc_point =
  oi_time :: string
  oi_value :: rat
  oi_change :: rat
  oi_upChange :: "rat option"
  oi_downChange :: "rat option"
  oi_minuteTs :: rat

definition formatTime :: "(int \<Rightarrow> string) \<Rightarrow> (int \<Rightarrow> string) \<Rightarrow> rat \<Rightarrow> string option" where
  "formatTime hh mm tsMs = map_option (\<lambda>t. hh t @ '':'' @ mm t) (time_clip tsMs)"

definition otc_minuteTs :: "jsval \<Rightarrow> rat option" where
  "otc_minuteTs point =
     or_else (finite_num (js_get point ''minute_ts'')) (finite_num (js_get point ''event_ts''))"

text \<open>A point against the first value of the day; None when its label throws.\<close>

definition otc_row ::
  "(int \<Rightarrow> string) \<Rightarrow> (int \<Rightarrow> string) \<Rightarrow> rat \<Rightarrow> rat \<Rightarrow> rat \<Rightarrow> otc_point option" where
  "otc_row hh mm base minuteTs v =
     (let change = to_fixed 2 (v - base)
      in map_option (\<lambda>time.
           \<lparr>oi_time = time, oi_value = v, oi_change = change,
            oi_upChange = (if 0 \<le> change then Some change else None),
            oi_downChange = (if change < 0 then Some change else None), oi_minuteTs = minuteTs\<rparr>)
           (formatTime hh mm minuteTs))"

definition otc_rows :: "jsval list \<Rightarrow> (rat \<times> rat) list" where
  "otc_rows points =
     sort_key fst (List.map_filter (\<lambda>point.
       case (otc_minuteTs point, finite_num (js_get point ''index_value'')) of
         (Some t, Some v) \<Rightarrow> Some (t, v) | _ \<Rightarrow> None) points)"

definition toSeries :: "(int \<Rightarrow> string) \<Rightarrow> (int \<Rightarrow> string) \<Rightarrow> jsval list \<Rightarrow> otc_point list option" where
  "toSeries hh mm points =
     (case otc_rows points of
        [] \<Rightarrow> Some []
      | (t0, base) # rest \<Rightarrow> those (map (\<lambda>(t, v). otc_row hh mm base t v) ((t0, base) # rest)))"

definition same_otc :: "otc_point \<Rightarrow> otc_point \<Rightarrow> bool" where
  "same_otc a b \<longleftrightarrow> a = b"

interpretation otc: timeline oi_minuteTs same_otc
  by unfold_locales (simp add: same_otc_def)

text \<open>
  The hook: the session part of its inputs, its series, the request in flight (requests are numbered)
  and the next number. A changed session cancels the request in flight; a cancelled request has no
  effect when it settles.
\<close>

record otc_hook =
  oh_auth :: "bool \<times> string option \<times> user_role"
  oh_timeline :: "otc_point timeline_state"
  oh_request :: "nat option"
  oh_next :: nat

definition otc_enabled :: "bool \<times> string option \<times> user_role \<Rightarrow> bool" where
  "otc_enabled auth =
     (case auth of (resolved, token, role) \<Rightarrow>
        resolved \<and> token \<noteq> None \<and> token \<noteq> Some [] \<and> role \<noteq> Visitor)"

definition otc_session :: "bool \<times> string option \<times> user_role \<Rightarrow> otc_hook \<Rightarrow> otc_hook" where
  "otc_session auth h =
     (if \<not> otc_enabled auth then h\<lparr>oh_auth := auth, oh_timeline := no_series, oh_request := None\<rparr>
      else h\<lparr>oh_auth := auth, oh_request := Some (oh_next h), oh_next := oh_next h + 1\<rparr>)"

definition otc_settle ::
  "(int \<Rightarrow> string) \<Rightarrow> (int \<Rightarrow> string) \<Rightarrow> nat \<Rightarrow> js_error + jsval list \<Rightarrow> otc_hook \<Rightarrow> otc_hook" where
  "otc_settle hh mm req result h =
     (if oh_request h \<noteq> Some req then h
      else case result of
        Inl e \<Rightarrow> h\<lparr>oh_timeline := no_series, oh_request := None\<rparr>
      | Inr rows \<Rightarrow>
          (case toSeries hh mm rows of
             Some built \<Rightarrow> h\<lparr>oh_timeline := reset_timeline oi_minuteTs built, oh_request := None\<rparr>
           | None \<Rightarrow> h\<lparr>oh_timeline := no_series, oh_request := None\<rparr>))"

definition otc_latest :: "(int \<Rightarrow> string) \<Rightarrow> (int \<Rightarrow> string) \<Rightarrow> jsval \<Rightarrow> otc_hook \<Rightarrow> otc_hook option" where
  "otc_latest hh mm otcLatest h =
     (case (truthy otcLatest, finite_num (js_get otcLatest ''index_value''), otc_minuteTs otcLatest) of
        (True, Some latestValue, Some minuteTs) \<Rightarrow>
          (case tl_series (oh_timeline h) of
             [] \<Rightarrow> Some h
           | p0 # _ \<Rightarrow>
               map_option (\<lambda>nextPoint. h\<lparr>oh_timeline := patch_timeline oi_minuteTs same_otc nextPoint (oh_timeline h)\<rparr>)
                 (otc_row hh mm (oi_value p0) minuteTs latestValue))
      | _ \<Rightarrow> Some h)"

inductive otc_step :: "(int \<Rightarrow> string) \<Rightarrow> (int \<Rightarrow> string) \<Rightarrow> otc_hook \<Rightarrow> otc_hook \<Rightarrow> bool" for hh mm where
  otc_s_session: "otc_step hh mm h (otc_session auth h)"
| otc_s_settle: "otc_step hh mm h (otc_settle hh mm req result h)"
| otc_s_latest: "otc_latest hh mm latest h = Some h' \<Longrightarrow> otc_step hh mm h h'"

definition otc_mounted :: "otc_hook \<Rightarrow> bool" where
  "otc_mounted h \<longleftrightarrow>
     h = \<lparr>oh_auth = (False, None, Visitor), oh_timeline = no_series, oh_request = None, oh_next = 0\<rparr>"

definition otc_inv :: "otc_hook \<Rightarrow> bool" where
  "otc_inv h \<longleftrightarrow>
     timeline_ok oi_minuteTs (oh_timeline h)
     \<and> (\<not> otc_enabled (oh_auth h) \<longrightarrow> tl_series (oh_timeline h) = [] \<and> oh_request h = None)"

lemma otc_row_key: "otc_row hh mm base t v = Some p \<Longrightarrow> oi_minuteTs p = t"
  by (auto simp: otc_row_def Let_def)

lemma those_map_keys:
  "those (map f xs) = Some ys \<Longrightarrow> (\<And>x y. x \<in> set xs \<Longrightarrow> f x = Some y \<Longrightarrow> k y = g x) \<Longrightarrow> map k ys = map g xs"
proof (induction xs arbitrary: ys)
  case Nil
  then show ?case by simp
next
  case (Cons x xs)
  then show ?case by (auto split: option.splits)
qed

lemma toSeries_sorted: "toSeries hh mm rows = Some built \<Longrightarrow> sorted (map oi_minuteTs built)"
proof -
  assume t: "toSeries hh mm rows = Some built"
  have "map oi_minuteTs built = map fst (otc_rows rows)"
  proof (cases "otc_rows rows")
    case Nil
    then show ?thesis using t by (simp add: toSeries_def)
  next
    case (Cons p ps)
    obtain t0 base where p: "p = (t0, base)" by (cases p)
    have "those (map (\<lambda>(t, v). otc_row hh mm base t v) (p # ps)) = Some built"
      using t Cons p by (simp add: toSeries_def)
    then have "map oi_minuteTs built = map fst (p # ps)"
      by (rule those_map_keys) (auto dest: otc_row_key)
    then show ?thesis using Cons by simp
  qed
  then show ?thesis by (simp add: otc_rows_def)
qed

lemma otc_inv_step: "otc_inv h \<Longrightarrow> otc_step hh mm h h' \<Longrightarrow> otc_inv h'"
proof (erule otc_step.cases, goal_cases)
  case (1 h1 auth)
  then show ?case by (auto simp: otc_inv_def otc_session_def no_series_def)
next
  case (2 h1 req result)
  then show ?case
    using toSeries_sorted
    by (auto simp: otc_inv_def otc_settle_def no_series_def reset_timeline_ok split: sum.splits option.splits)
next
  case (3 latest h1 h2)
  then show ?case
    by (auto simp: otc_inv_def otc_latest_def otc.patch_ok split: bool.splits option.splits list.splits)
qed

interpretation otc_hook: invariant_of otc_mounted "otc_step hh mm" otc_inv for hh mm
proof unfold_locales
  show "otc_mounted h \<Longrightarrow> otc_inv h" for h
    by (auto simp: otc_mounted_def otc_inv_def no_series_def)
  show "otc_inv h \<Longrightarrow> otc_step hh mm h h' \<Longrightarrow> otc_inv h'" for h h'
    by (rule otc_inv_step)
qed

text \<open>
  C27. No answer outlives its session: in every reachable state of the OTC hook the series is in
  ascending order, it is empty as long as the user is not logged in, realtime events included, and
  an answer to any request but the last one of the present session changes nothing.
\<close>

theorem otc_series_of_session:
  assumes "reachable otc_mounted (otc_step hh mm) h"
  shows "sorted (map oi_minuteTs (tl_series (oh_timeline h)))
    \<and> (\<not> otc_enabled (oh_auth h) \<longrightarrow>
         tl_series (oh_timeline h) = [] \<and> (\<forall>req result. otc_settle hh mm req result h = h)
         \<and> (\<forall>latest. otc_latest hh mm latest h = Some h))
    \<and> (\<forall>req result auth. req < oh_next h \<and> otc_enabled auth \<longrightarrow>
         otc_settle hh mm req result (otc_session auth h) = otc_session auth h)"
proof -
  have inv: "otc_inv h" by (rule otc_hook.reachable_inv [OF assms])
  have "otc_latest hh mm latest h = Some h" if "tl_series (oh_timeline h) = []" for latest
    using that by (auto simp: otc_latest_def split: bool.splits option.splits)
  then show ?thesis
    using inv by (auto simp: otc_inv_def timeline_ok_def otc_settle_def otc_session_def)
qed

theorem otc_series_of_session_witness:
  "tl_series (oh_timeline (otc_settle (\<lambda>_. ''09'') (\<lambda>_. ''00'') 0 (Inr []) (otc_session (True, None, Visitor)
      (otc_session (True, Some ''t'', Member)
        \<lparr>oh_auth = (False, None, Visitor), oh_timeline = no_series, oh_request = None, oh_next = 0\<rparr>)))) = []"
proof -
  let ?mounted = "\<lparr>oh_auth = (False, None, Visitor), oh_timeline = no_series, oh_request = None, oh_next = 0\<rparr>"
  let ?h = "otc_session (True, None, Visitor) (otc_session (True, Some ''t'', Member) ?mounted)"
  have "reachable otc_mounted (otc_step (\<lambda>_. ''09'') (\<lambda>_. ''00'')) ?mounted"
    by (rule reachable_init) (simp only: otc_mounted_def)
  note r1 = reachable_step [OF this otc_s_session [where auth = "(True, Some ''t'', Member)"]]
  note r = reachable_step [OF r1 otc_s_session [where auth = "(True, None, Visitor)"]]
  have "\<not> otc_enabled (oh_auth ?h)" by (simp add: otc_session_def otc_enabled_def)
  then show ?thesis using otc_series_of_session [OF r] by simp
qed

section \<open>The trend index\<close>

record trend_item =
  ti_ts :: rat
  ti_up_count :: jsval
  ti_down_count :: jsval
  ti_total_count :: rat
  ti_trend_index :: jsval

record trend_datum =
  td_ts :: rat
  td_timeLabel :: string
  td_trendDelta :: jsnum
  td_trendRatio :: jsnum

definition TREND_WINDOW_START_MINUTES :: nat where "TREND_WINDOW_START_MINUTES = 9 * 60"
definition TREND_WINDOW_END_MINUTES :: nat where "TREND_WINDOW_END_MINUTES = 13 * 60 + 30"

text \<open>\<open>x * 100\<close>, and \<open>Number(x.toFixed(1))\<close>, on every number.\<close>

fun num_percent :: "jsnum \<Rightarrow> jsnum" where
  "num_percent (Fin x) = Fin (x * 100)"
| "num_percent x = x"

fun num_fixed1 :: "jsnum \<Rightarrow> jsnum" where
  "num_fixed1 (Fin x) = Fin (to_fixed 1 x)"
| "num_fixed1 x = x"

fun num_over :: "jsnum \<Rightarrow> rat \<Rightarrow> jsnum" where
  "num_over (Fin x) y = Fin (x / y)"
| "num_over x y = x"

definition getTaipeiMinutes :: "rat \<Rightarrow> nat option" where
  "getTaipeiMinutes ts =
     map_option (\<lambda>t. taipei_minute t div 60 * 60 + taipei_minute t mod 60) (time_clip ts)"

definition getTrendDelta :: "jsnum \<Rightarrow> jsnum \<Rightarrow> jsnum" where
  "getTrendDelta up down = num_sub up down"

definition getTrendRatio :: "jsnum \<Rightarrow> jsnum \<Rightarrow> trend_item \<Rightarrow> jsnum" where
  "getTrendRatio up down item =
     (case ti_trend_index item of
        Num x \<Rightarrow> num_fixed1 (num_percent x)
      | _ \<Rightarrow> num_fixed1 (num_percent (num_over (getTrendDelta up down) (max (ti_total_count item) 1))))"

text \<open>An item in the window: None when it throws, \<open>Some None\<close> when it is filtered out.\<close>

definition trend_datum_of :: "trend_item \<Rightarrow> trend_datum option option" where
  "trend_datum_of item =
     (case (ti_up_count item, ti_down_count item) of
        (Num up, Num down) \<Rightarrow>
          Option.bind (getTaipeiMinutes (ti_ts item)) (\<lambda>minutes.
            if TREND_WINDOW_START_MINUTES \<le> minutes \<and> minutes \<le> TREND_WINDOW_END_MINUTES
            then map_option (\<lambda>label.
                   Some \<lparr>td_ts = ti_ts item, td_timeLabel = label, td_trendDelta = getTrendDelta up down,
                         td_trendRatio = getTrendRatio up down item\<rparr>)
                   (formatMinuteLabel (ti_ts item))
            else Some None)
      | _ \<Rightarrow> Some None)"

definition mapSpotMarketDistributionToTrendData ::
  "trend_item list option \<Rightarrow> trend_item option \<Rightarrow> trend_datum list option" where
  "mapSpotMarketDistributionToTrendData seriesItems latest =
     Option.bind (those (map trend_datum_of (case seriesItems of Some xs \<Rightarrow> xs | None \<Rightarrow> []))) (\<lambda>data.
       let mapped = sort_key td_ts (List.map_filter (\<lambda>d. d) data)
       in if mapped \<noteq> [] then Some mapped
          else case latest of
            None \<Rightarrow> Some []
          | Some item \<Rightarrow> map_option (\<lambda>d. case d of Some x \<Rightarrow> [x] | None \<Rightarrow> []) (trend_datum_of item))"

text \<open>The counts of an item: none negative, and up and down within the total.\<close>

definition counts_ok :: "trend_item \<Rightarrow> bool" where
  "counts_ok item \<longleftrightarrow>
     (\<exists>up down. ti_up_count item = Num (Fin up) \<and> ti_down_count item = Num (Fin down)
        \<and> 0 \<le> up \<and> 0 \<le> down \<and> up + down \<le> ti_total_count item)
     \<and> (\<forall>x. ti_trend_index item = Num x \<longrightarrow> (\<exists>r. x = Fin r \<and> -1 \<le> r \<and> r \<le> 1))"

lemma to_fixed1_bound: "\<bar>x\<bar> \<le> 100 \<Longrightarrow> \<bar>to_fixed 1 x\<bar> \<le> 100"
proof -
  assume x: "\<bar>x\<bar> \<le> 100"
  have "\<lfloor>\<bar>x\<bar> * 10 + 1 / 2\<rfloor> < 1001" unfolding floor_less_iff using x by simp
  then have u: "\<lfloor>\<bar>x\<bar> * 10 + 1 / 2\<rfloor> \<le> 1000" by simp
  have "0 \<le> \<lfloor>\<bar>x\<bar> * 10 + 1 / 2\<rfloor>" by simp
  then have "\<bar>of_int \<lfloor>\<bar>x\<bar> * 10 + 1 / 2\<rfloor> / 10 :: rat\<bar> \<le> 100"
    using u by simp
  moreover have "\<bar>sgn x * y\<bar> \<le> \<bar>y\<bar>" for y by (simp add: abs_mult abs_sgn_eq)
  ultimately have "\<bar>sgn x * (of_int \<lfloor>\<bar>x\<bar> * 10 + 1 / 2\<rfloor> / 10)\<bar> \<le> 100"
    using order_trans by blast
  then show ?thesis using x by (simp add: to_fixed_def)
qed

lemma trend_datum_bounds:
  assumes "trend_datum_of item = Some (Some d)" and "counts_ok item"
  shows "\<exists>r m. td_trendRatio d = Fin r \<and> \<bar>r\<bar> \<le> 100 \<and> td_ts d = ti_ts item
    \<and> getTaipeiMinutes (td_ts d) = Some m \<and> 540 \<le> m \<and> m \<le> 810"
proof -
  obtain up down where c: "ti_up_count item = Num (Fin up)" "ti_down_count item = Num (Fin down)"
      "0 \<le> up" "0 \<le> down" "up + down \<le> ti_total_count item"
    using assms(2) by (auto simp: counts_ok_def)
  have d: "td_trendRatio d = getTrendRatio (Fin up) (Fin down) item" "td_ts d = ti_ts item"
    and m: "\<exists>m. getTaipeiMinutes (ti_ts item) = Some m \<and> 540 \<le> m \<and> m \<le> 810"
    using assms(1) c
    by (auto simp: trend_datum_of_def bind_eq_Some_conv TREND_WINDOW_START_MINUTES_def
        TREND_WINDOW_END_MINUTES_def split: if_splits)
  have "\<exists>r. getTrendRatio (Fin up) (Fin down) item = Fin r \<and> \<bar>r\<bar> \<le> 100"
  proof (cases "\<exists>x. ti_trend_index item = Num x")
    case True
    then obtain r where r: "ti_trend_index item = Num (Fin r)" "-1 \<le> r" "r \<le> 1"
      using assms(2) by (auto simp: counts_ok_def)
    then have "\<bar>to_fixed 1 (r * 100)\<bar> \<le> 100" by (intro to_fixed1_bound) auto
    then show ?thesis using r by (simp add: getTrendRatio_def)
  next
    case False
    let ?t = "max (ti_total_count item) 1"
    have "\<bar>up - down\<bar> \<le> ?t" "0 < ?t" using c by auto
    then have "\<bar>(up - down) / ?t\<bar> \<le> 1" by simp
    moreover have "\<bar>q * 100\<bar> \<le> 100" if "\<bar>q\<bar> \<le> 1" for q :: rat using that by (simp add: abs_mult)
    ultimately have "\<bar>(up - down) / ?t * 100\<bar> \<le> 100" by blast
    then have "\<bar>to_fixed 1 ((up - down) / ?t * 100)\<bar> \<le> 100" by (rule to_fixed1_bound)
    then show ?thesis using False by (auto simp: getTrendRatio_def getTrendDelta_def split: jsval.splits)
  qed
  then show ?thesis using d m by auto
qed

lemma those_member: "those xs = Some ys \<Longrightarrow> y \<in> set ys \<Longrightarrow> Some y \<in> set xs"
  by (induction xs arbitrary: ys) (auto split: option.splits)

text \<open>
  The trend chart shows the session only, in ascending order, and percentages: whenever the
  counts make sense (none negative, up and down within the total, a given index within -1 and 1),
  every point lies between 9:00 and 13:30 in Taipei and its ratio between -100 and 100, whether it
  comes from the series or from the latest snapshot.
\<close>

theorem trend_data_sound:
  assumes "mapSpotMarketDistributionToTrendData items latest = Some data"
    and "\<forall>item \<in> set (case items of Some xs \<Rightarrow> xs | None \<Rightarrow> []) \<union> set_option latest. counts_ok item"
  shows "sorted (map td_ts data) \<and>
    (\<forall>d \<in> set data. \<exists>r m. td_trendRatio d = Fin r \<and> \<bar>r\<bar> \<le> 100
       \<and> getTaipeiMinutes (td_ts d) = Some m \<and> 540 \<le> m \<and> m \<le> 810)"
proof -
  let ?items = "case items of Some xs \<Rightarrow> xs | None \<Rightarrow> []"
  obtain ds where ds: "those (map trend_datum_of ?items) = Some ds"
    using assms(1) by (auto simp: mapSpotMarketDistributionToTrendData_def bind_eq_Some_conv)
  let ?mapped = "sort_key td_ts (List.map_filter (\<lambda>d. d) ds)"
  have src: "\<exists>item \<in> set ?items \<union> set_option latest. trend_datum_of item = Some (Some d)" if d: "d \<in> set data" for d
  proof (cases "?mapped = []")
    case False
    then have "data = ?mapped"
      using assms(1) unfolding mapSpotMarketDistributionToTrendData_def ds bind.bind_lunit Let_def by simp
    then have "Some d \<in> set ds" using d by (auto simp: List.map_filter_def)
    then have "Some (Some d) \<in> set (map trend_datum_of ?items)" by (rule those_member [OF ds])
    then show ?thesis by fastforce
  next
    case True
    then have "(case latest of None \<Rightarrow> Some []
        | Some item \<Rightarrow> map_option (\<lambda>d. case d of Some x \<Rightarrow> [x] | None \<Rightarrow> []) (trend_datum_of item)) = Some data"
      using assms(1) unfolding mapSpotMarketDistributionToTrendData_def ds bind.bind_lunit Let_def by simp
    then show ?thesis using d by (auto split: option.splits)
  qed
  have "sorted (map td_ts data)"
  proof (cases "?mapped = []")
    case False
    then have "data = ?mapped"
      using assms(1) unfolding mapSpotMarketDistributionToTrendData_def ds bind.bind_lunit Let_def by simp
    then show ?thesis by simp
  next
    case True
    then have "(case latest of None \<Rightarrow> Some []
        | Some item \<Rightarrow> map_option (\<lambda>d. case d of Some x \<Rightarrow> [x] | None \<Rightarrow> []) (trend_datum_of item)) = Some data"
      using assms(1) unfolding mapSpotMarketDistributionToTrendData_def ds bind.bind_lunit Let_def by simp
    then show ?thesis by (auto split: option.splits)
  qed
  then show ?thesis using src assms(2) trend_datum_bounds by metis
qed

theorem trend_data_sound_witness:
  "\<exists>data. mapSpotMarketDistributionToTrendData None (Some
      \<lparr>ti_ts = 3600000, ti_up_count = Num (Fin 30), ti_down_count = Num (Fin 10), ti_total_count = 50,
       ti_trend_index = Null\<rparr>) = Some data \<and> data \<noteq> [] \<and> sorted (map td_ts data)"
proof -
  let ?item = "\<lparr>ti_ts = 3600000, ti_up_count = Num (Fin 30), ti_down_count = Num (Fin 10), ti_total_count = 50,
    ti_trend_index = Null\<rparr>"
  obtain d where d: "mapSpotMarketDistributionToTrendData None (Some ?item) = Some [d]"
    by (simp add: mapSpotMarketDistributionToTrendData_def trend_datum_of_def getTaipeiMinutes_def time_clip_def
        taipei_minute_def day_ms_def taipei_offset_def TREND_WINDOW_START_MINUTES_def TREND_WINDOW_END_MINUTES_def
        formatMinuteLabel_def List.map_filter_def Let_def)
  have "counts_ok ?item" by (simp add: counts_ok_def)
  then show ?thesis using trend_data_sound [OF d] d by simp
qed

end
