(* ===== verification/PriceBoard.thy ===== *)
theory PriceBoard
  imports JsValue
begin

text \<open>
  What the boards compute from the latest spot prices: the six candles of
  \<open>GapKlinePanelChart\<close> in \<open>features/dashboard/components/DashboardMetricPanels.tsx\<close>, and the heat
  panels and sector strengths of \<open>features/dashboard/pages/MarketThermometerPage.tsx\<close> with
  \<open>features/dashboard/lib/market-thermometer-sectors.ts\<close>.

  Prices are rationals; the rounding of quotients is not modelled, and neither is the markup around
  the numbers.
\<close>

section \<open>Reading items\<close>

text \<open>\<open>typeof v === "number" && Number.isFinite(v)\<close>, with the number.\<close>

fun finite_of :: "jsval \<Rightarrow> rat option" where
  "finite_of (Num (Fin x)) = Some x"
| "finite_of _ = None"

definition first_of :: "'a option \<Rightarrow> 'a option \<Rightarrow> 'a option" where
  "first_of a b = (case a of Some x \<Rightarrow> Some x | None \<Rightarrow> b)"

definition or_num :: "rat option \<Rightarrow> rat \<Rightarrow> rat" where
  "or_num a d = (case a of Some x \<Rightarrow> x | None \<Rightarrow> d)"

definition spotBySymbol :: "jsval list \<Rightarrow> string \<Rightarrow> jsval" where
  "spotBySymbol items symbol =
     (case find (\<lambda>i. js_get i ''symbol'' = Str symbol) (rev items) of Some i \<Rightarrow> i | None \<Rightarrow> Undef)"

definition clamp_pct :: "rat \<Rightarrow> rat" where
  "clamp_pct x = max 0 (min 100 x)"

lemma clamp_pct_range: "0 \<le> clamp_pct x" "clamp_pct x \<le> 100"
  by (simp_all add: clamp_pct_def)

section \<open>The gap candles\<close>

definition GAP_K_SYMBOLS :: "string list" where
  "GAP_K_SYMBOLS = [''2330'', ''2317'', ''2454'', ''2308'', ''2881'', ''6505'']"

record gap_row =
  gk_symbol :: string
  gk_referencePrice :: rat
  gk_open :: rat
  gk_high :: rat
  gk_low :: rat
  gk_close :: rat
  gk_changePct :: rat

definition EMPTY_GAP_ROW :: gap_row where
  "EMPTY_GAP_ROW = \<lparr>gk_symbol = [], gk_referencePrice = 0, gk_open = 0, gk_high = 0, gk_low = 0, gk_close = 0, gk_changePct = 0\<rparr>"

text \<open>The first price seen of every symbol.\<close>

definition remember_open :: "jsval \<Rightarrow> (string \<rightharpoonup> rat) \<Rightarrow> (string \<rightharpoonup> rat)" where
  "remember_open item opens =
     (case (finite_of (js_get item ''last_price''), the_str (js_get item ''symbol'')) of
        (Some p, Some s) \<Rightarrow> if opens s = None then opens(s \<mapsto> p) else opens
      | _ \<Rightarrow> opens)"

definition sessionOpenBySymbol :: "jsval list \<Rightarrow> (string \<rightharpoonup> rat) \<Rightarrow> (string \<rightharpoonup> rat)" where
  "sessionOpenBySymbol incoming prev = fold remember_open incoming prev"

definition gap_row_of :: "(string \<rightharpoonup> rat) \<Rightarrow> jsval list \<Rightarrow> string \<Rightarrow> gap_row" where
  "gap_row_of opens items symbol =
     (let latest = spotBySymbol items symbol
      in case first_of (finite_of (js_get latest ''close'')) (finite_of (js_get latest ''last_price'')) of
           None \<Rightarrow> EMPTY_GAP_ROW\<lparr>gk_symbol := symbol\<rparr>
         | Some resolvedClose \<Rightarrow>
             (let open' = or_num (first_of (finite_of (js_get latest ''open'')) (opens symbol)) resolvedClose;
                  highBase = or_num (first_of (finite_of (js_get latest ''high'')) (finite_of (js_get latest ''session_high'')))
                    (max open' resolvedClose);
                  lowBase = or_num (first_of (finite_of (js_get latest ''low'')) (finite_of (js_get latest ''session_low'')))
                    (min open' resolvedClose);
                  high = max (max highBase open') resolvedClose;
                  low = min (min lowBase open') resolvedClose;
                  referencePrice = or_num (finite_of (js_get latest ''reference_price'')) open';
                  changePct = (if referencePrice = 0 then 0 else (resolvedClose - referencePrice) / referencePrice * 100)
              in \<lparr>gk_symbol = symbol, gk_referencePrice = referencePrice, gk_open = open', gk_high = high, gk_low = low,
                  gk_close = resolvedClose, gk_changePct = changePct\<rparr>))"

definition gapKlineData :: "(string \<rightharpoonup> rat) \<Rightarrow> jsval list \<Rightarrow> gap_row list" where
  "gapKlineData opens items = map (gap_row_of opens items) GAP_K_SYMBOLS"

definition plot_top :: rat where "plot_top = 16"
definition plot_left :: rat where "plot_left = 44"
definition plotWidth :: rat where "plotWidth = 620 - 44 - 10"
definition plotHeight :: rat where "plotHeight = 190 - 16 - 50"

definition basePrice :: "gap_row \<Rightarrow> rat" where
  "basePrice r = (if gk_referencePrice r > 0 then gk_referencePrice r else gk_open r)"

definition pct_of :: "gap_row \<Rightarrow> rat \<Rightarrow> rat" where
  "pct_of r x = (x - basePrice r) / basePrice r * 100"

definition drawn :: "gap_row \<Rightarrow> bool" where
  "drawn r \<longleftrightarrow> gk_high r > 0 \<and> gk_open r \<noteq> 0"

text \<open>The scale of the chart: the smallest and largest percentage with a margin.\<close>

record gap_scale =
  paddedMax :: rat
  paddedMin :: rat
  step_width :: rat
  body_width :: rat

definition gap_scale_of :: "gap_row list \<Rightarrow> gap_scale" where
  "gap_scale_of rows =
     (let valid = filter drawn rows;
          baseMin = (if valid = [] then -1
            else foldr min (concat (map (\<lambda>r. [pct_of r (gk_low r), pct_of r (gk_open r), pct_of r (gk_close r), 0]) valid)) 0);
          baseMax = (if valid = [] then 1
            else foldr max (concat (map (\<lambda>r. [pct_of r (gk_high r), pct_of r (gk_open r), pct_of r (gk_close r), 0]) valid)) 0);
          range = max (baseMax - baseMin) (4 / 5);
          step = plotWidth / of_nat (length rows)
      in \<lparr>paddedMax = baseMax + range * (12 / 100), paddedMin = baseMin - range * (12 / 100),
          step_width = step, body_width = min 34 (step * (56 / 100))\<rparr>)"

definition yScale :: "gap_scale \<Rightarrow> rat \<Rightarrow> rat" where
  "yScale s price = plot_top + (paddedMax s - price) / (paddedMax s - paddedMin s) * plotHeight"

record gap_shape =
  gs_centerX :: rat
  gs_highY :: rat
  gs_lowY :: rat
  gs_bodyX :: rat
  gs_bodyY :: rat
  gs_bodyWidth :: rat
  gs_bodyHeight :: rat
  gs_up :: bool

definition gap_shape_of :: "gap_scale \<Rightarrow> nat \<Rightarrow> gap_row \<Rightarrow> gap_shape" where
  "gap_shape_of s index r =
     (let centerX = plot_left + step_width s * of_nat index + step_width s / 2;
          openY = yScale s (pct_of r (gk_open r)); closeY = yScale s (pct_of r (gk_close r))
      in \<lparr>gs_centerX = centerX, gs_highY = yScale s (pct_of r (gk_high r)), gs_lowY = yScale s (pct_of r (gk_low r)),
          gs_bodyX = centerX - body_width s / 2, gs_bodyY = min openY closeY, gs_bodyWidth = body_width s,
          gs_bodyHeight = max 2 \<bar>closeY - openY\<bar>, gs_up = (pct_of r (gk_close r) \<ge> pct_of r (gk_open r))\<rparr>)"

text \<open>The first price stays.\<close>

lemma remember_open_keeps: "opens s = Some p \<Longrightarrow> remember_open item opens s = Some p"
  by (auto simp: remember_open_def split: option.splits)

lemma session_open_keeps: "opens s = Some p \<Longrightarrow> sessionOpenBySymbol items opens s = Some p"
  unfolding sessionOpenBySymbol_def
  by (induction items arbitrary: opens) (auto simp: remember_open_keeps)

text \<open>A row is a candle: its low and high enclose its open and close.\<close>

lemma gap_row_candle:
  "r = gap_row_of opens items symbol \<Longrightarrow>
    gk_low r \<le> gk_open r \<and> gk_low r \<le> gk_close r \<and> gk_open r \<le> gk_high r \<and> gk_close r \<le> gk_high r"
  by (auto simp: gap_row_of_def EMPTY_GAP_ROW_def Let_def split: option.splits)

lemma foldr_min_le: "x \<in> set xs \<Longrightarrow> foldr min xs a \<le> (x :: rat)"
  by (induction xs) (auto simp: min_le_iff_disj)

lemma foldr_max_ge: "x \<in> set xs \<Longrightarrow> (x :: rat) \<le> foldr max xs a"
  by (induction xs) (auto simp: le_max_iff_disj)

lemma pct_mono: "0 < basePrice r \<Longrightarrow> x \<le> y \<Longrightarrow> pct_of r x \<le> pct_of r y"
  by (auto simp: pct_of_def intro!: divide_right_mono mult_right_mono)

text \<open>The scale leaves twelve hundredths of its range free on both sides of every drawn candle.\<close>

lemma scale_encloses:
  assumes "r \<in> set rows" and "drawn r" and b: "0 < basePrice r" and lo: "gk_low r \<le> x" and hi: "x \<le> gk_high r"
  obtains range where "range \<ge> 4 / 5" "paddedMax (gap_scale_of rows) - paddedMin (gap_scale_of rows) \<le> range * (124 / 100)"
    "paddedMin (gap_scale_of rows) + range * (12 / 100) \<le> pct_of r x"
    "pct_of r x \<le> paddedMax (gap_scale_of rows) - range * (12 / 100)"
    "0 < paddedMax (gap_scale_of rows) - paddedMin (gap_scale_of rows)"
proof -
  let ?valid = "filter drawn rows"
  define bmin where "bmin = foldr min (concat (map (\<lambda>r. [pct_of r (gk_low r), pct_of r (gk_open r), pct_of r (gk_close r), 0]) ?valid)) 0"
  define bmax where "bmax = foldr max (concat (map (\<lambda>r. [pct_of r (gk_high r), pct_of r (gk_open r), pct_of r (gk_close r), 0]) ?valid)) 0"
  define range where "range = max (bmax - bmin) (4 / 5)"
  have valid: "r \<in> set ?valid" "?valid \<noteq> []" using assms(1,2) by (auto simp: filter_empty_conv)
  have "bmin \<le> pct_of r (gk_low r)" "pct_of r (gk_high r) \<le> bmax"
    unfolding bmin_def bmax_def using valid(1) by (auto intro!: foldr_min_le foldr_max_ge)
  moreover have "pct_of r (gk_low r) \<le> pct_of r x" "pct_of r x \<le> pct_of r (gk_high r)"
    using pct_mono [OF b] lo hi by simp_all
  moreover have s: "paddedMax (gap_scale_of rows) = bmax + range * (12 / 100)" "paddedMin (gap_scale_of rows) = bmin - range * (12 / 100)"
    using valid(2) by (simp_all add: gap_scale_of_def bmin_def bmax_def range_def Let_def)
  moreover have "bmax - bmin \<le> range" "range \<ge> 4 / 5" by (simp_all add: range_def)
  ultimately show ?thesis by (intro that [of range]; linarith)
qed

lemma margin_arith:
  fixes M m x g :: rat
  assumes "M - m \<le> g * (124 / 100)" and "m + g * (12 / 100) \<le> x" and "x \<le> M - g * (12 / 100)"
  shows "12 * (M - m) \<le> (M - x) * 124" and "(M - x) * 124 \<le> 112 * (M - m)"
  using assms by (simp_all add: field_simps)

lemma yScale_bounds:
  assumes "r \<in> set rows" and "drawn r" and "0 < basePrice r" and "gk_low r \<le> x" and "x \<le> gk_high r"
  shows "plot_top + 12 \<le> yScale (gap_scale_of rows) (pct_of r x)"
    and "yScale (gap_scale_of rows) (pct_of r x) \<le> plot_top + plotHeight - 12"
proof -
  let ?s = "gap_scale_of rows"
  obtain g where g: "g \<ge> 4 / 5" "paddedMax ?s - paddedMin ?s \<le> g * (124 / 100)" "paddedMin ?s + g * (12 / 100) \<le> pct_of r x"
    "pct_of r x \<le> paddedMax ?s - g * (12 / 100)" "0 < paddedMax ?s - paddedMin ?s"
    by (rule scale_encloses [OF assms])
  note margin_arith [OF g(2,3,4)]
  then have "12 \<le> (paddedMax ?s - pct_of r x) * 124 / (paddedMax ?s - paddedMin ?s)"
    "(paddedMax ?s - pct_of r x) * 124 / (paddedMax ?s - paddedMin ?s) \<le> 112"
    using g(5) by (simp_all add: pos_le_divide_eq pos_divide_le_eq)
  then show "plot_top + 12 \<le> yScale ?s (pct_of r x)" "yScale ?s (pct_of r x) \<le> plot_top + plotHeight - 12"
    by (simp_all add: yScale_def plotHeight_def)
qed

lemma yScale_anti:
  assumes "paddedMin s < paddedMax s" and "x \<le> y" shows "yScale s y \<le> yScale s x"
  using assms by (auto simp: yScale_def plotHeight_def intro!: divide_right_mono mult_right_mono)

text \<open>
  Every drawn candle lies inside the plot: for any prices and any first prices, a row with
  a positive high and a positive base price is drawn with its wick from high to low at least 12
  units inside the plot, its body on the wick up to the minimal height of two units and inside the
  plot, and its body's sides between the edges of the plot.
\<close>

theorem gap_candle_in_plot:
  fixes opens :: "string \<rightharpoonup> rat" and items :: "jsval list"
  assumes "i < length GAP_K_SYMBOLS"
  defines "rows \<equiv> gapKlineData opens items"
  defines "r \<equiv> rows ! i"
  defines "g \<equiv> gap_shape_of (gap_scale_of rows) i r"
  assumes "drawn r" and "0 < basePrice r"
  shows "gk_symbol r = GAP_K_SYMBOLS ! i
    \<and> plot_top + 12 \<le> gs_highY g \<and> gs_highY g \<le> gs_bodyY g \<and> gs_bodyY g \<le> gs_lowY g \<and> gs_lowY g \<le> plot_top + plotHeight - 12
    \<and> gs_bodyY g + gs_bodyHeight g \<le> max (gs_lowY g) (gs_bodyY g + 2)
    \<and> plot_left \<le> gs_bodyX g \<and> gs_bodyX g + gs_bodyWidth g \<le> plot_left + plotWidth"
proof -
  let ?s = "gap_scale_of rows"
  have len: "length rows = 6" by (simp add: rows_def gapKlineData_def GAP_K_SYMBOLS_def)
  have r: "r = gap_row_of opens items (GAP_K_SYMBOLS ! i)" and mem: "r \<in> set rows"
    using assms(1) len by (auto simp: r_def rows_def gapKlineData_def intro!: imageI)
  note c = gap_row_candle [OF r]
  note drawn = \<open>drawn r\<close> and base = \<open>0 < basePrice r\<close>
  note yb = yScale_bounds [OF mem drawn base]
  have pos: "paddedMin ?s < paddedMax ?s"
    by (rule scale_encloses [OF mem drawn base, of "gk_open r"]) (use c in simp_all)
  have anti: "x \<le> y \<Longrightarrow> yScale ?s (pct_of r y) \<le> yScale ?s (pct_of r x)" for x y
    using yScale_anti [OF pos] pct_mono [OF base] by blast
  have y: "gs_highY g = yScale ?s (pct_of r (gk_high r))" "gs_lowY g = yScale ?s (pct_of r (gk_low r))"
    "gs_bodyY g = min (yScale ?s (pct_of r (gk_open r))) (yScale ?s (pct_of r (gk_close r)))"
    "gs_bodyHeight g = max 2 \<bar>yScale ?s (pct_of r (gk_close r)) - yScale ?s (pct_of r (gk_open r))\<bar>"
    by (simp_all add: g_def gap_shape_of_def Let_def)
  have "yScale ?s (pct_of r (gk_high r)) \<le> yScale ?s (pct_of r (gk_open r))" "yScale ?s (pct_of r (gk_high r)) \<le> yScale ?s (pct_of r (gk_close r))"
    "yScale ?s (pct_of r (gk_open r)) \<le> yScale ?s (pct_of r (gk_low r))" "yScale ?s (pct_of r (gk_close r)) \<le> yScale ?s (pct_of r (gk_low r))"
    using anti c by blast+
  moreover have "plot_top + 12 \<le> gs_highY g" "gs_lowY g \<le> plot_top + plotHeight - 12"
    unfolding y using yb(1) [of "gk_high r"] yb(2) [of "gk_low r"] c by linarith+
  moreover have "plot_left \<le> gs_bodyX g \<and> gs_bodyX g + gs_bodyWidth g \<le> plot_left + plotWidth"
  proof -
    have "gs_bodyX g = plot_left + plotWidth / 6 * of_nat i + plotWidth / 12 - 17" "gs_bodyWidth g = 34"
      by (simp_all add: g_def gap_shape_of_def gap_scale_of_def Let_def len plotWidth_def)
    moreover have "of_nat i \<le> (5 :: rat)" "0 \<le> (of_nat i :: rat)" using assms(1) by (simp_all add: GAP_K_SYMBOLS_def)
    ultimately show ?thesis by (simp add: plotWidth_def)
  qed
  moreover have "gk_symbol r = GAP_K_SYMBOLS ! i"
    unfolding r by (simp add: gap_row_of_def EMPTY_GAP_ROW_def Let_def split: option.split)
  ultimately show ?thesis unfolding y by (simp add: min_def max_def abs_if; linarith)
qed

theorem gap_candle_in_plot_witness:
  "(let rows = gapKlineData Map.empty [Obj 1 [(''symbol'', Str ''2330''), (''last_price'', Num (Fin 100)), (''high'', Num (Fin 110))]];
        g = gap_shape_of (gap_scale_of rows) 0 (rows ! 0)
    in plot_top + 12 \<le> gs_highY g \<and> gs_lowY g \<le> plot_top + plotHeight - 12)"
proof -
  let ?items = "[Obj 1 [(''symbol'', Str ''2330''), (''last_price'', Num (Fin 100)), (''high'', Num (Fin 110))]]"
  have r: "gapKlineData Map.empty ?items ! 0 = gap_row_of Map.empty ?items ''2330''"
    by (simp add: gapKlineData_def GAP_K_SYMBOLS_def)
  have "drawn (gapKlineData Map.empty ?items ! 0)" "0 < basePrice (gapKlineData Map.empty ?items ! 0)"
    unfolding r by (simp_all add: gap_row_of_def spotBySymbol_def first_of_def or_num_def drawn_def basePrice_def Let_def)
  with gap_candle_in_plot [of 0 Map.empty ?items] show ?thesis by (simp add: GAP_K_SYMBOLS_def Let_def)
qed

section \<open>The thermometer\<close>

datatype sector = Weighted | Financial | Tech

definition MARKET_THERMOMETER_SECTOR_CONFIG :: "(string \<times> sector) list" where
  "MARKET_THERMOMETER_SECTOR_CONFIG =
     [(''2330'', Weighted), (''2317'', Weighted), (''2881'', Financial), (''6505'', Financial), (''2454'', Tech), (''2308'', Tech)]"

definition buildMarketThermometerSectorSymbolMap :: "sector \<Rightarrow> string list" where
  "buildMarketThermometerSectorSymbolMap sec =
     map fst (filter (\<lambda>item. snd item = sec) MARKET_THERMOMETER_SECTOR_CONFIG)"

definition sector_name :: "sector \<Rightarrow> string" where
  "sector_name sec = (case sec of Weighted \<Rightarrow> ''weighted'' | Financial \<Rightarrow> ''financial'' | Tech \<Rightarrow> ''tech'')"

record spot_panel =
  sp_symbol :: jsval
  sp_price :: rat
  sp_priceChg :: "rat option"
  sp_pctChg :: "rat option"
  sp_strengthPct :: "rat option"
  sp_isNewHigh :: bool
  sp_isNewLow :: bool

definition page_computePositionStrengthPct :: "rat option \<Rightarrow> rat option \<Rightarrow> rat \<Rightarrow> rat option" where
  "page_computePositionStrengthPct sessionLow sessionHigh price =
     (case (sessionLow, sessionHigh) of
        (Some low, Some high) \<Rightarrow>
          (let range = high - low
           in if range \<le> 0 then None else Some (clamp_pct ((price - low) / range * 100)))
      | _ \<Rightarrow> None)"

definition normalizeStrengthPct :: "rat option \<Rightarrow> rat option" where
  "normalizeStrengthPct v = map_option clamp_pct v"

definition panel_of :: "jsval \<Rightarrow> spot_panel option" where
  "panel_of item =
     (case first_of (finite_of (js_get item ''last_price'')) (finite_of (js_get item ''close'')) of
        None \<Rightarrow> None
      | Some price \<Rightarrow>
          Some \<lparr>sp_symbol = js_get item ''symbol'', sp_price = price,
            sp_priceChg = finite_of (js_get item ''price_chg''), sp_pctChg = finite_of (js_get item ''pct_chg''),
            sp_strengthPct = first_of (normalizeStrengthPct (finite_of (js_get item ''strength_pct'')))
              (page_computePositionStrengthPct (finite_of (js_get item ''session_low'')) (finite_of (js_get item ''session_high'')) price),
            sp_isNewHigh = (js_get item ''is_new_high'' = Bool True), sp_isNewLow = (js_get item ''is_new_low'' = Bool True)\<rparr>)"

definition panels_of :: "jsval list \<Rightarrow> spot_panel list" where
  "panels_of items = concat (map (\<lambda>i. case panel_of i of Some p \<Rightarrow> [p] | None \<Rightarrow> []) items)"

definition sectorStrength :: "jsval \<Rightarrow> spot_panel list \<Rightarrow> sector \<Rightarrow> rat option" where
  "sectorStrength backendSectorStrength panels sec =
     (case normalizeStrengthPct (finite_of (js_get backendSectorStrength (sector_name sec))) of
        Some backendValue \<Rightarrow> Some (backendValue / 100)
      | None \<Rightarrow>
          (let vs0 = concat (map (\<lambda>p. case sp_strengthPct p of Some v \<Rightarrow> [v] | None \<Rightarrow> [])
                 (filter (\<lambda>p. sp_symbol p \<in> Str ` set (buildMarketThermometerSectorSymbolMap sec)) panels))
           in if vs0 = [] then None
              else Some (clamp_pct (fold (\<lambda>v acc. acc + v) vs0 0 / of_nat (length vs0)) / 100)))"

datatype heat_state = New_high | Strong_up | Flat | Strong_down | New_low

definition resolveHeatStrengthState :: "rat option \<Rightarrow> bool \<Rightarrow> bool \<Rightarrow> heat_state" where
  "resolveHeatStrengthState strengthPct isNewHigh isNewLow =
     (if isNewHigh then New_high
      else if isNewLow then New_low
      else case strengthPct of
             None \<Rightarrow> Flat
           | Some x \<Rightarrow> if x \<ge> 80 then Strong_up else if x \<le> 20 then Strong_down else Flat)"

fun HEAT_STATE_SCORE :: "heat_state \<Rightarrow> int" where
  "HEAT_STATE_SCORE New_high = 2"
| "HEAT_STATE_SCORE Strong_up = 1"
| "HEAT_STATE_SCORE Flat = 0"
| "HEAT_STATE_SCORE Strong_down = -1"
| "HEAT_STATE_SCORE New_low = -2"

definition resolvePanelToneByStrengthState :: "heat_state \<Rightarrow> string" where
  "resolvePanelToneByStrengthState state =
     (let score = HEAT_STATE_SCORE state
      in if score = 2 then ''crimson'' else if score = -2 then ''green'' else if score = 1 then ''red''
         else if score = -1 then ''forestgreen'' else ''var(--card)'')"

definition resolvePanelToneByStrength :: "rat option \<Rightarrow> bool \<Rightarrow> bool \<Rightarrow> string" where
  "resolvePanelToneByStrength strengthPct isNewHigh isNewLow =
     resolvePanelToneByStrengthState (resolveHeatStrengthState strengthPct isNewHigh isNewLow)"

text \<open>The notice shown once outside trading hours, by the local clock.\<close>

definition closed_toast :: "nat \<Rightarrow> nat \<Rightarrow> bool \<Rightarrow> bool \<times> bool" where
  "closed_toast hours minutes shown =
     (let hhmm = hours * 100 + minutes; fire = ((hhmm < 845 \<or> hhmm > 1345) \<and> \<not> shown) in (fire, shown \<or> fire))"

text \<open>The gauge: its needle share of 100.\<close>

definition gauge_value :: "rat option \<Rightarrow> rat" where
  "gauge_value strength = (case strength of None \<Rightarrow> 0 | Some s \<Rightarrow> max 0 (min 100 (s * 100)))"

lemma panel_strength_range:
  "panel_of item = Some p \<Longrightarrow> sp_strengthPct p = Some x \<Longrightarrow> 0 \<le> x \<and> x \<le> 100"
  by (auto simp: panel_of_def first_of_def normalizeStrengthPct_def page_computePositionStrengthPct_def Let_def clamp_pct_range
      split: option.splits if_splits)

lemma clamp_unit: "0 \<le> clamp_pct x / 100" "clamp_pct x / 100 \<le> 1"
  using clamp_pct_range [of x] by simp_all

lemma sector_range: "\<forall>x. sectorStrength backend panels sec = Some x \<longrightarrow> 0 \<le> x \<and> x \<le> 1"
proof -
  have "case sectorStrength backend panels sec of None \<Rightarrow> True | Some x \<Rightarrow> 0 \<le> x \<and> x \<le> 1"
    using clamp_unit
    by (cases "finite_of (js_get backend (sector_name sec))")
       (simp_all add: sectorStrength_def normalizeStrengthPct_def Let_def)
  then show ?thesis by (auto split: option.splits)
qed

lemma sum_average:
  assumes "vs0 \<noteq> []" and "\<forall>v \<in> set vs0. a \<le> v \<and> v \<le> (b :: rat)"
  shows "a \<le> fold (\<lambda>v acc. acc + v) vs0 0 / of_nat (length vs0)"
    and "fold (\<lambda>v acc. acc + v) vs0 0 / of_nat (length vs0) \<le> b"
proof -
  have "fold (\<lambda>v acc. acc + v) vs0 c = c + sum_list vs0" for c :: rat and vs0
    by (induction vs0 arbitrary: c) (auto simp: add.assoc)
  moreover have "a * of_nat (length vs0) \<le> sum_list vs0 \<and> sum_list vs0 \<le> b * of_nat (length vs0)"
    using assms(2) by (induction vs0) (auto simp: algebra_simps)
  ultimately show "a \<le> fold (\<lambda>v acc. acc + v) vs0 0 / of_nat (length vs0)"
    "fold (\<lambda>v acc. acc + v) vs0 0 / of_nat (length vs0) \<le> b"
    using assms(1) by (simp_all add: pos_le_divide_eq pos_divide_le_eq)
qed

text \<open>
  The thermometer: every panel's strength lies between 0 and 100; a sector's strength lies
  between 0 and 1; without a backend value it is the mean of the strengths of the sector's panels,
  and absent exactly when none of them has one; and a panel is coloured as weak only if it is at
  a new low or in the lowest fifth, as strong only at a new high or in the highest fifth.
\<close>

theorem thermometer_sound:
  fixes items :: "jsval list"
  defines "panels \<equiv> panels_of items"
  shows "(\<forall>p \<in> set panels. \<forall>x. sp_strengthPct p = Some x \<longrightarrow> 0 \<le> x \<and> x \<le> 100)
    \<and> (\<forall>x. sectorStrength backend panels sec = Some x \<longrightarrow> 0 \<le> x \<and> x \<le> 1)
    \<and> (finite_of (js_get backend (sector_name sec)) = None \<longrightarrow>
        (let vs = [x. p \<leftarrow> panels, sp_symbol p \<in> Str ` set (buildMarketThermometerSectorSymbolMap sec), Some x \<leftarrow> [sp_strengthPct p]]
         in sectorStrength backend panels sec = (if vs = [] then None else Some (sum_list vs / of_nat (length vs) / 100))))
    \<and> (\<forall>p \<in> set panels. let tone = resolvePanelToneByStrength (sp_strengthPct p) (sp_isNewHigh p) (sp_isNewLow p) in
        (tone \<in> {''green'', ''forestgreen''} \<longrightarrow> sp_isNewLow p \<or> (\<exists>x. sp_strengthPct p = Some x \<and> x \<le> 20))
        \<and> (tone \<in> {''crimson'', ''red''} \<longrightarrow> sp_isNewHigh p \<or> (\<exists>x. sp_strengthPct p = Some x \<and> 80 \<le> x)))"
proof (intro conjI)
  let ?vs = "concat (map (\<lambda>p. case sp_strengthPct p of Some v \<Rightarrow> [v] | None \<Rightarrow> [])
      (filter (\<lambda>p. sp_symbol p \<in> Str ` set (buildMarketThermometerSectorSymbolMap sec)) panels))"
  show pan: "\<forall>p \<in> set panels. \<forall>x. sp_strengthPct p = Some x \<longrightarrow> 0 \<le> x \<and> x \<le> 100"
  proof (intro ballI allI impI)
    fix p x assume p: "p \<in> set panels" "sp_strengthPct p = Some x"
    then have "\<exists>item. panel_of item = Some p" by (auto simp: panels_def panels_of_def split: option.splits)
    then show "0 \<le> x \<and> x \<le> 100" using panel_strength_range p(2) by blast
  qed
  then have vals: "\<forall>v \<in> set ?vs. 0 \<le> v \<and> v \<le> 100" by (auto split: option.splits)
  show "\<forall>x. sectorStrength backend panels sec = Some x \<longrightarrow> 0 \<le> x \<and> x \<le> 1"
    by (rule sector_range)
  have eq: "[x. p \<leftarrow> panels, sp_symbol p \<in> Str ` set (buildMarketThermometerSectorSymbolMap sec), Some x \<leftarrow> [sp_strengthPct p]] = ?vs"
    by (induction panels) (auto split: option.split)
  have mean: "fold (\<lambda>v acc. acc + v) vs (c::rat) = c + sum_list vs" for vs c
    by (induction vs arbitrary: c) (auto simp: add.assoc)
  have "?vs \<noteq> [] \<Longrightarrow> clamp_pct (fold (\<lambda>v acc. acc + v) ?vs 0 / of_nat (length ?vs)) = sum_list ?vs / of_nat (length ?vs)"
    using sum_average [of ?vs, OF _ vals] mean [of ?vs 0] by (simp add: clamp_pct_def)
  then show "finite_of (js_get backend (sector_name sec)) = None \<longrightarrow>
        (let vs = [x. p \<leftarrow> panels, sp_symbol p \<in> Str ` set (buildMarketThermometerSectorSymbolMap sec), Some x \<leftarrow> [sp_strengthPct p]]
         in sectorStrength backend panels sec = (if vs = [] then None else Some (sum_list vs / of_nat (length vs) / 100)))"
    unfolding eq Let_def sectorStrength_def normalizeStrengthPct_def
    by (intro impI) (simp only: option.map option.case if_split, metis)
  show "\<forall>p \<in> set panels. let tone = resolvePanelToneByStrength (sp_strengthPct p) (sp_isNewHigh p) (sp_isNewLow p) in
        (tone \<in> {''green'', ''forestgreen''} \<longrightarrow> sp_isNewLow p \<or> (\<exists>x. sp_strengthPct p = Some x \<and> x \<le> 20))
        \<and> (tone \<in> {''crimson'', ''red''} \<longrightarrow> sp_isNewHigh p \<or> (\<exists>x. sp_strengthPct p = Some x \<and> 80 \<le> x))"
    by (auto simp: resolvePanelToneByStrength_def resolvePanelToneByStrengthState_def resolveHeatStrengthState_def Let_def
        split: option.splits if_splits)
qed

theorem thermometer_sound_witness:
  "sectorStrength Undef (panels_of [Obj 1 [(''symbol'', Str ''2330''), (''last_price'', Num (Fin 15)),
      (''session_low'', Num (Fin 10)), (''session_high'', Num (Fin 20))],
     Obj 2 [(''symbol'', Str ''2317''), (''last_price'', Num (Fin 12)), (''strength_pct'', Num (Fin 150))]]) Weighted = Some (3 / 4)"
proof -
  let ?items = "[Obj 1 [(''symbol'', Str ''2330''), (''last_price'', Num (Fin 15)),
      (''session_low'', Num (Fin 10)), (''session_high'', Num (Fin 20))],
     Obj 2 [(''symbol'', Str ''2317''), (''last_price'', Num (Fin 12)), (''strength_pct'', Num (Fin 150))]]"
  show ?thesis
    using thermometer_sound [of ?items Undef Weighted]
    by (simp add: panels_of_def panel_of_def first_of_def normalizeStrengthPct_def page_computePositionStrengthPct_def clamp_pct_def
        buildMarketThermometerSectorSymbolMap_def MARKET_THERMOMETER_SECTOR_CONFIG_def Let_def)
qed

end
