(* ===== verification/ChartData.thy ===== *)
theory ChartData
  imports "HOL-Library.Sublist" DistributionSeries MarketIndex PriceBoard ServingSchemas Figures
begin

text \<open>
  What the live charts draw: the three rolling series of
  \<open>features/dashboard/components/RealtimeSseChartsSection.tsx\<close> behind the throttled subscription of
  \<open>hooks/use-throttled-subscription.ts\<close>, the OTC line with its thinned points and its value axis, the
  sticky figures and the half gauges of \<open>DashboardMetricPanels.tsx\<close> and \<open>StrengthGaugePanelCard.tsx\<close>.

  The local clock (hours, minutes, seconds of an instant) is a parameter. Payloads in the store are
  typed: \<open>Number(kbar.minute_ts)\<close> is the number itself.
\<close>

section \<open>Rolling series\<close>

definition appendPointInPlace ::
  "('a \<Rightarrow> 'k) \<Rightarrow> ('a \<Rightarrow> 'a \<Rightarrow> bool) \<Rightarrow> nat \<Rightarrow> 'a list \<Rightarrow> 'a \<Rightarrow> bool \<times> 'a list" where
  "appendPointInPlace ts same cap list next_pt =
     (if list \<noteq> [] \<and> ts (last list) = ts next_pt
      then if same (last list) next_pt then (False, list) else (True, butlast list @ [next_pt])
      else let pushed = list @ [next_pt]
           in (True, if cap < length pushed then drop (length pushed - cap) pushed else pushed))"

definition append_some ::
  "('a \<Rightarrow> 'k) \<Rightarrow> ('a \<Rightarrow> 'a \<Rightarrow> bool) \<Rightarrow> 'a option \<Rightarrow> 'a list \<Rightarrow> 'a list" where
  "append_some ts same p list = (case p of None \<Rightarrow> list | Some x \<Rightarrow> snd (appendPointInPlace ts same 40 list x))"

text \<open>The abstract series: of every run of points of one instant, the last.\<close>

fun latest_per_ts :: "('a \<Rightarrow> 'k) \<Rightarrow> 'a list \<Rightarrow> 'a list" where
  "latest_per_ts ts [] = []"
| "latest_per_ts ts [x] = [x]"
| "latest_per_ts ts (x # y # zs) =
     (if ts x = ts y then latest_per_ts ts (y # zs) else x # latest_per_ts ts (y # zs))"

lemma latest_per_ts_Nil_iff [simp]: "latest_per_ts ts xs = [] \<longleftrightarrow> xs = []"
  by (induction ts xs rule: latest_per_ts.induct) auto

lemma last_latest_per_ts [simp]: "xs \<noteq> [] \<Longrightarrow> last (latest_per_ts ts xs) = last xs"
  by (induction ts xs rule: latest_per_ts.induct) auto

lemma set_latest_per_ts: "set (latest_per_ts ts xs) \<subseteq> set xs"
  by (induction ts xs rule: latest_per_ts.induct) auto

lemma latest_per_ts_snoc:
  "latest_per_ts ts (xs @ [x]) =
     (if xs \<noteq> [] \<and> ts (last xs) = ts x then butlast (latest_per_ts ts xs) @ [x] else latest_per_ts ts xs @ [x])"
  by (induction ts xs rule: latest_per_ts.induct) auto

text \<open>When the instants never fall, those that are left rise.\<close>

lemma latest_per_ts_rising:
  fixes ts :: "'a \<Rightarrow> 'k::linorder"
  shows "sorted (map ts xs) \<Longrightarrow> sorted_wrt (<) (map ts (latest_per_ts ts xs))"
proof (induction ts xs rule: latest_per_ts.induct)
  case (3 ts x y zs)
  have "ts x < ts z" if "ts x \<noteq> ts y" "z \<in> set (latest_per_ts ts (y # zs))" for z
  proof -
    have "ts x < ts y" using that(1) 3(3) by (simp add: order_less_le)
    also have "ts y \<le> ts z" using that(2) set_latest_per_ts [of ts "y # zs"] 3(3) by auto
    finally show ?thesis .
  qed
  then show ?case using 3 by auto
qed auto

lemma window_replace_last: "xs \<noteq> [] \<Longrightarrow> 0 < c \<Longrightarrow> window c (butlast xs @ [x]) = butlast (window c xs) @ [x]"
  by (simp add: window_def butlast_drop)

lemma snd_append:
  "snd (appendPointInPlace ts same cap l p) =
     (if l \<noteq> [] \<and> ts (last l) = ts p then if same (last l) p then l else butlast l @ [p] else window cap (l @ [p]))"
  by (simp add: appendPointInPlace_def window_def Let_def)

locale rolling =
  fixes ts :: "'a \<Rightarrow> 'k" and same :: "'a \<Rightarrow> 'a \<Rightarrow> bool" and typed :: "'a \<Rightarrow> bool"
  assumes same_eq: "typed a \<Longrightarrow> typed b \<Longrightarrow> same a b \<Longrightarrow> a = b"
begin

lemma append_refines_latest:
  assumes "0 < cap" and "\<forall>p \<in> set (ps @ [p]). typed p"
  shows "snd (appendPointInPlace ts same cap (window cap (latest_per_ts ts ps)) p) = window cap (latest_per_ts ts (ps @ [p]))"
proof -
  let ?l = "latest_per_ts ts ps"
  have last: "window cap ?l \<noteq> []" "last (window cap ?l) = last ps" if "ps \<noteq> []"
  proof -
    have "0 < length (window cap ?l)" using that assms(1) by simp
    then show "window cap ?l \<noteq> []" by (rule length_greater_0_conv [THEN iffD1])
    show "last (window cap ?l) = last ps" using that assms(1) by (simp add: last_window)
  qed
  have same: "last ps = p" if "ps \<noteq> []" "same (last ps) p"
    using that assms(2) by (intro same_eq) auto
  show ?thesis
  proof (cases "ps \<noteq> [] \<and> ts (last ps) = ts p")
    case True
    then have "butlast (window cap ?l) @ [last ps] = window cap ?l"
      using last by (metis append_butlast_last_id)
    then show ?thesis
      using True last same assms(1) window_replace_last [of ?l cap p]
      by (auto simp: snd_append latest_per_ts_snoc)
  next
    case False
    then have new: "\<not> (window cap ?l \<noteq> [] \<and> ts (last (window cap ?l)) = ts p)" using last by (cases "ps = []") auto
    show ?thesis by (simp only: snd_append latest_per_ts_snoc if_not_P [OF new] if_not_P [OF False] window_snoc)
  qed
qed

lemma appends_refine_latest:
  assumes "0 < cap" and "\<forall>p \<in> set ps. typed p"
  shows "fold (\<lambda>p l. snd (appendPointInPlace ts same cap l p)) ps [] = window cap (latest_per_ts ts ps)"
  using assms(2) by (induction ps rule: rev_induct) (simp_all add: append_refines_latest [OF assms(1)])

lemma append_somes_refine:
  assumes "\<forall>p \<in> set offers. \<forall>x. p = Some x \<longrightarrow> typed x"
  shows "fold (append_some ts same) offers [] = window 40 (latest_per_ts ts (List.map_filter id offers))"
proof -
  have "fold (append_some ts same) offers l = fold (\<lambda>p l. snd (appendPointInPlace ts same 40 l p)) (List.map_filter id offers) l" for l
    by (induction offers arbitrary: l) (auto simp: append_some_def map_filter_simps split: option.split)
  moreover have "\<forall>x \<in> set (List.map_filter id offers). typed x"
    using assms by (force simp: List.map_filter_def)
  ultimately show ?thesis by (simp add: appends_refine_latest)
qed

end

section \<open>The throttled charts\<close>

definition ACTIVE_CODE :: string where "ACTIVE_CODE = ''TXFE6''"

record series_point =
  pt_ts :: rat
  pt_label :: string
  pt_value :: jsval

record spread_point =
  sd_ts :: rat
  sd_label :: string
  sd_spread :: jsnum
  sd_mid :: jsnum

record depth_point =
  dp_ts :: rat
  dp_label :: string
  dp_bidSize :: jsnum
  dp_askSize :: jsnum

definition formatLabel :: "(int \<Rightarrow> nat \<times> nat \<times> nat) \<Rightarrow> rat \<Rightarrow> string" where
  "formatLabel local_clock ts =
     (case time_clip ts of
        None \<Rightarrow> ''NaN:NaN:NaN''
      | Some t \<Rightarrow> (case local_clock t of (h, m, s) \<Rightarrow> pad2 h @ '':'' @ pad2 m @ '':'' @ pad2 s))"

text \<open>The comparison of all keys of two points.\<close>

definition same_point :: "series_point \<Rightarrow> series_point \<Rightarrow> bool" where
  "same_point a b \<longleftrightarrow> pt_ts a = pt_ts b \<and> pt_label a = pt_label b \<and> js_seq (pt_value a) (pt_value b)"

definition same_spread :: "spread_point \<Rightarrow> spread_point \<Rightarrow> bool" where
  "same_spread a b \<longleftrightarrow> sd_ts a = sd_ts b \<and> sd_label a = sd_label b
     \<and> num_seq (sd_spread a) (sd_spread b) \<and> num_seq (sd_mid a) (sd_mid b)"

definition same_depth :: "depth_point \<Rightarrow> depth_point \<Rightarrow> bool" where
  "same_depth a b \<longleftrightarrow> dp_ts a = dp_ts b \<and> dp_label a = dp_label b
     \<and> num_seq (dp_bidSize a) (dp_bidSize b) \<and> num_seq (dp_askSize a) (dp_askSize b)"

definition number_point :: "series_point \<Rightarrow> bool" where
  "number_point p \<longleftrightarrow> (\<exists>x. pt_value p = Num x)"

interpretation close_series: rolling pt_ts same_point number_point
  by unfold_locales (auto simp: same_point_def number_point_def intro!: series_point.equality dest: num_seq_eq)

interpretation spread_series: rolling sd_ts same_spread "\<lambda>_. True"
  by unfold_locales (auto simp: same_spread_def intro!: spread_point.equality dest: num_seq_eq)

interpretation depth_series: rolling dp_ts same_depth "\<lambda>_. True"
  by unfold_locales (auto simp: same_depth_def intro!: depth_point.equality dest: num_seq_eq)

text \<open>The points an effect offers: none without a payload or without the numbers it needs.\<close>

definition close_point :: "(int \<Rightarrow> nat \<times> nat \<times> nat) \<Rightarrow> jsval \<Rightarrow> series_point option" where
  "close_point local_clock kbar =
     (if \<not> truthy kbar then None
      else case js_get kbar ''minute_ts'' of
             Num (Fin ts) \<Rightarrow> Some \<lparr>pt_ts = ts, pt_label = formatLabel local_clock ts, pt_value = js_get kbar ''close''\<rparr>
           | _ \<Rightarrow> None)"

definition base_ts :: "jsval \<Rightarrow> rat \<Rightarrow> rat" where
  "base_ts metric now = (case js_get metric ''ts'' of Num (Fin x) \<Rightarrow> x | _ \<Rightarrow> now)"

definition spread_point_of :: "(int \<Rightarrow> nat \<times> nat \<times> nat) \<Rightarrow> rat \<Rightarrow> jsval \<Rightarrow> spread_point option" where
  "spread_point_of local_clock now metric =
     (case (js_get metric ''spread'', js_get metric ''mid'') of
        (Num spread, Num mid) \<Rightarrow>
          (if truthy metric
           then Some \<lparr>sd_ts = base_ts metric now, sd_label = formatLabel local_clock (base_ts metric now), sd_spread = spread, sd_mid = mid\<rparr>
           else None)
      | _ \<Rightarrow> None)"

definition depth_point_of :: "(int \<Rightarrow> nat \<times> nat \<times> nat) \<Rightarrow> rat \<Rightarrow> jsval \<Rightarrow> depth_point option" where
  "depth_point_of local_clock now metric =
     (case (js_get metric ''bid_size'', js_get metric ''ask_size'') of
        (Num bid, Num ask) \<Rightarrow>
          (if truthy metric
           then Some \<lparr>dp_ts = base_ts metric now, dp_label = formatLabel local_clock (base_ts metric now), dp_bidSize = bid, dp_askSize = ask\<rparr>
           else None)
      | _ \<Rightarrow> None)"

text \<open>
  The section: what its two subscriptions hold, the payloads its effects last ran for (None before
  the first run), and its three series.
\<close>

record sse_section =
  ss_kbarLatest :: jsval
  ss_metricLatest :: jsval
  ss_kbar :: "jsval option"
  ss_metric :: "jsval option"
  ss_close :: "series_point list"
  ss_spread :: "spread_point list"
  ss_depth :: "depth_point list"

definition select_code :: "(string, jsval) dict \<Rightarrow> jsval" where
  "select_code d = js_coalesce (js_lookup d ACTIVE_CODE) Null"

text \<open>The subscription of the store: the value of the selector after every change.\<close>

definition store_changed :: "rt_state \<Rightarrow> sse_section \<Rightarrow> sse_section" where
  "store_changed st s =
     s\<lparr>ss_kbarLatest := select_code (kbarCurrentByCode st), ss_metricLatest := select_code (metricLatestByCode st)\<rparr>"

definition depends_changed :: "jsval option \<Rightarrow> jsval \<Rightarrow> bool" where
  "depends_changed before v \<longleftrightarrow> (case before of None \<Rightarrow> True | Some b \<Rightarrow> \<not> js_seq b v)"

definition kbar_effect :: "(int \<Rightarrow> nat \<times> nat \<times> nat) \<Rightarrow> sse_section \<Rightarrow> sse_section" where
  "kbar_effect local_clock s =
     (if depends_changed (ss_kbar s) (ss_kbarLatest s)
      then s\<lparr>ss_kbar := Some (ss_kbarLatest s),
             ss_close := append_some pt_ts same_point (close_point local_clock (ss_kbarLatest s)) (ss_close s)\<rparr>
      else s)"

definition metric_effect :: "(int \<Rightarrow> nat \<times> nat \<times> nat) \<Rightarrow> rat \<Rightarrow> sse_section \<Rightarrow> sse_section" where
  "metric_effect local_clock now s =
     (if depends_changed (ss_metric s) (ss_metricLatest s)
      then s\<lparr>ss_metric := Some (ss_metricLatest s),
             ss_spread := append_some sd_ts same_spread (spread_point_of local_clock now (ss_metricLatest s)) (ss_spread s),
             ss_depth := append_some dp_ts same_depth (depth_point_of local_clock now (ss_metricLatest s)) (ss_depth s)\<rparr>
      else s)"

text \<open>A render at instant \<open>now\<close>, from the tick of a subscription or from any other cause.\<close>

definition section_renders :: "(int \<Rightarrow> nat \<times> nat \<times> nat) \<Rightarrow> rat \<Rightarrow> sse_section \<Rightarrow> sse_section" where
  "section_renders local_clock now s = metric_effect local_clock now (kbar_effect local_clock s)"

definition section_mounts :: "(int \<Rightarrow> nat \<times> nat \<times> nat) \<Rightarrow> rat \<Rightarrow> rt_state \<Rightarrow> sse_section" where
  "section_mounts local_clock now st =
     section_renders local_clock now (store_changed st
       \<lparr>ss_kbarLatest = Null, ss_metricLatest = Null, ss_kbar = None, ss_metric = None, ss_close = [], ss_spread = [], ss_depth = []\<rparr>)"

datatype section_event = Store_changes rt_state | Renders rat

fun section_step :: "(int \<Rightarrow> nat \<times> nat \<times> nat) \<Rightarrow> section_event \<Rightarrow> sse_section \<Rightarrow> sse_section" where
  "section_step local_clock (Store_changes st) s = store_changed st s"
| "section_step local_clock (Renders now) s = section_renders local_clock now s"

definition statusBadgeVariant :: "SseConnectionStatus \<Rightarrow> string" where
  "statusBadgeVariant status =
     (case status of connected \<Rightarrow> ''success'' | retrying \<Rightarrow> ''warning'' | connecting \<Rightarrow> ''warning''
      | error \<Rightarrow> ''danger'' | idle \<Rightarrow> ''neutral'')"

text \<open>The payloads shown by the renders of a run, and those an effect runs for.\<close>

fun shown :: "rt_state \<Rightarrow> section_event list \<Rightarrow> (rt_state \<times> rat) list" where
  "shown st [] = []"
| "shown st (Store_changes st' # es) = shown st' es"
| "shown st (Renders now # es) = (st, now) # shown st es"

fun changed :: "('b \<Rightarrow> jsval) \<Rightarrow> jsval option \<Rightarrow> 'b list \<Rightarrow> 'b list" where
  "changed key before [] = []"
| "changed key before (x # xs) =
     (if depends_changed before (key x) then x # changed key (Some (key x)) xs else changed key before xs)"

definition shown_kbar :: "rt_state \<times> rat \<Rightarrow> jsval" where
  "shown_kbar r = select_code (kbarCurrentByCode (fst r))"

definition shown_metric :: "rt_state \<times> rat \<Rightarrow> jsval" where
  "shown_metric r = select_code (metricLatestByCode (fst r))"

lemma set_changed: "set (changed key before xs) \<subseteq> set xs"
  by (induction key before xs rule: changed.induct) auto

lemma section_run:
  assumes "ss_kbarLatest s = select_code (kbarCurrentByCode st)" and "ss_metricLatest s = select_code (metricLatestByCode st)"
  shows "ss_close (fold (section_step lc) es s)
      = fold (append_some pt_ts same_point) (map (\<lambda>r. close_point lc (shown_kbar r)) (changed shown_kbar (ss_kbar s) (shown st es))) (ss_close s)"
    and "ss_spread (fold (section_step lc) es s)
      = fold (append_some sd_ts same_spread)
          (map (\<lambda>r. spread_point_of lc (snd r) (shown_metric r)) (changed shown_metric (ss_metric s) (shown st es))) (ss_spread s)"
    and "ss_depth (fold (section_step lc) es s)
      = fold (append_some dp_ts same_depth)
          (map (\<lambda>r. depth_point_of lc (snd r) (shown_metric r)) (changed shown_metric (ss_metric s) (shown st es))) (ss_depth s)"
  using assms
proof (induction es arbitrary: s st)
  case (Cons e es)
  {
    case 1
    then show ?case
      using Cons.IH(1) by (cases e) (auto simp: store_changed_def section_renders_def kbar_effect_def metric_effect_def shown_kbar_def)
  next
    case 2
    then show ?case
      using Cons.IH(2) by (cases e) (auto simp: store_changed_def section_renders_def kbar_effect_def metric_effect_def shown_metric_def)
  next
    case 3
    then show ?case
      using Cons.IH(3) by (cases e) (auto simp: store_changed_def section_renders_def kbar_effect_def metric_effect_def shown_metric_def)
  }
qed simp_all

text \<open>The points offered by a run that starts at instant \<open>t0\<close> with the store \<open>st0\<close>.\<close>

definition close_offers :: "(int \<Rightarrow> nat \<times> nat \<times> nat) \<Rightarrow> rt_state \<Rightarrow> rat \<Rightarrow> section_event list \<Rightarrow> series_point list" where
  "close_offers lc st0 t0 es =
     List.map_filter (\<lambda>r. close_point lc (shown_kbar r)) (changed shown_kbar None ((st0, t0) # shown st0 es))"

definition spread_offers :: "(int \<Rightarrow> nat \<times> nat \<times> nat) \<Rightarrow> rt_state \<Rightarrow> rat \<Rightarrow> section_event list \<Rightarrow> spread_point list" where
  "spread_offers lc st0 t0 es =
     List.map_filter (\<lambda>r. spread_point_of lc (snd r) (shown_metric r)) (changed shown_metric None ((st0, t0) # shown st0 es))"

definition depth_offers :: "(int \<Rightarrow> nat \<times> nat \<times> nat) \<Rightarrow> rt_state \<Rightarrow> rat \<Rightarrow> section_event list \<Rightarrow> depth_point list" where
  "depth_offers lc st0 t0 es =
     List.map_filter (\<lambda>r. depth_point_of lc (snd r) (shown_metric r)) (changed shown_metric None ((st0, t0) # shown st0 es))"

lemma map_filter_id: "List.map_filter id (map f xs) = List.map_filter f xs"
  by (simp add: List.map_filter_def comp_def filter_map)

lemma close_point_typed:
  "kbar = Null \<or> conforms KbarCurrentSchema kbar \<Longrightarrow> close_point lc kbar = Some p \<Longrightarrow> number_point p"
proof -
  assume k: "kbar = Null \<or> conforms KbarCurrentSchema kbar" and p: "close_point lc kbar = Some p"
  then have "conforms KbarCurrentSchema kbar" by (auto simp: close_point_def)
  then have "conforms SNumber (js_get kbar ''close'')"
    unfolding KbarCurrentSchema_def by (rule conforms_field) simp
  then obtain x where "js_get kbar ''close'' = Num x" using conforms_number by blast
  then show ?thesis using p by (auto simp: close_point_def number_point_def split: if_splits jsval.splits jsnum.splits)
qed

text \<open>
  C13. The live charts: however store updates and renders interleave, each of the three series is the
  window of the last forty points, one per instant and the newest of each, of the points offered by
  the payloads the renders showed, every payload once; when the instants of the k-bars never fall,
  those on the chart rise strictly.
\<close>

theorem live_charts_are_windows:
  assumes "\<forall>r \<in> set ((st0, t0) # shown st0 es). shown_kbar r = Null \<or> conforms KbarCurrentSchema (shown_kbar r)"
  shows "ss_close (fold (section_step lc) es (section_mounts lc t0 st0)) = window 40 (latest_per_ts pt_ts (close_offers lc st0 t0 es))
    \<and> ss_spread (fold (section_step lc) es (section_mounts lc t0 st0)) = window 40 (latest_per_ts sd_ts (spread_offers lc st0 t0 es))
    \<and> ss_depth (fold (section_step lc) es (section_mounts lc t0 st0)) = window 40 (latest_per_ts dp_ts (depth_offers lc st0 t0 es))
    \<and> (sorted (map pt_ts (close_offers lc st0 t0 es)) \<longrightarrow>
        sorted_wrt (<) (map pt_ts (ss_close (fold (section_step lc) es (section_mounts lc t0 st0)))))"
proof -
  define blank where "blank = store_changed st0
    \<lparr>ss_kbarLatest = Null, ss_metricLatest = Null, ss_kbar = None, ss_metric = None, ss_close = [], ss_spread = [], ss_depth = []\<rparr>"
  have start: "ss_kbarLatest blank = select_code (kbarCurrentByCode st0)" "ss_metricLatest blank = select_code (metricLatestByCode st0)"
    "ss_kbar blank = None" "ss_metric blank = None" "ss_close blank = []" "ss_spread blank = []" "ss_depth blank = []"
    by (simp_all add: blank_def store_changed_def)
  have run: "fold (section_step lc) es (section_mounts lc t0 st0) = fold (section_step lc) (Renders t0 # es) blank"
    by (simp add: section_mounts_def blank_def)
  note fields = section_run [of blank st0 lc "Renders t0 # es", OF start(1,2), unfolded start, folded run]
  have typed: "\<forall>p \<in> set (map (\<lambda>r. close_point lc (shown_kbar r)) (changed shown_kbar None (shown st0 (Renders t0 # es)))).
      \<forall>x. p = Some x \<longrightarrow> number_point x"
  proof (intro ballI allI impI)
    fix p x
    assume "p \<in> set (map (\<lambda>r. close_point lc (shown_kbar r)) (changed shown_kbar None (shown st0 (Renders t0 # es))))"
    then obtain r where "p = close_point lc (shown_kbar r)" "r \<in> set (changed shown_kbar None (shown st0 (Renders t0 # es)))"
      unfolding set_map by blast
    then have "r \<in> set ((st0, t0) # shown st0 es)" "p = close_point lc (shown_kbar r)"
      using set_changed [of shown_kbar None "shown st0 (Renders t0 # es)"] by auto
    then show "p = Some x \<Longrightarrow> number_point x" using assms close_point_typed by metis
  qed
  have close: "ss_close (fold (section_step lc) es (section_mounts lc t0 st0)) = window 40 (latest_per_ts pt_ts (close_offers lc st0 t0 es))"
    using close_series.append_somes_refine [OF typed] fields(1) unfolding map_filter_id by (simp add: close_offers_def)
  have "ss_spread (fold (section_step lc) es (section_mounts lc t0 st0)) = window 40 (latest_per_ts sd_ts (spread_offers lc st0 t0 es))"
    using fields(2) spread_series.append_somes_refine
      [of "map (\<lambda>r. spread_point_of lc (snd r) (shown_metric r)) (changed shown_metric None (shown st0 (Renders t0 # es)))"]
    unfolding map_filter_id by (simp add: spread_offers_def)
  moreover have "ss_depth (fold (section_step lc) es (section_mounts lc t0 st0)) = window 40 (latest_per_ts dp_ts (depth_offers lc st0 t0 es))"
    using fields(3) depth_series.append_somes_refine
      [of "map (\<lambda>r. depth_point_of lc (snd r) (shown_metric r)) (changed shown_metric None (shown st0 (Renders t0 # es)))"]
    unfolding map_filter_id by (simp add: depth_offers_def)
  moreover have "sorted_wrt (<) (map pt_ts (window 40 (latest_per_ts pt_ts ps)))" if "sorted (map pt_ts ps)" for ps
    unfolding window_def drop_map [symmetric] by (rule sorted_wrt_drop, rule latest_per_ts_rising, rule that)
  ultimately show ?thesis using close by (simp only:) blast
qed

text \<open>A run: a k-bar, the same minute again, and the next minute, each rendered.\<close>

definition demo_kbar :: "nat \<Rightarrow> rat \<Rightarrow> rat \<Rightarrow> jsval" where
  "demo_kbar r ts close = Obj r [(''code'', Str ''TXFE6''), (''trade_date'', Str ''2026-04-01''), (''minute_ts'', Num (Fin ts)),
     (''open'', Num (Fin 1)), (''high'', Num (Fin 1)), (''low'', Num (Fin 1)), (''close'', Num (Fin close)), (''volume'', Num (Fin 1))]"

definition demo_store :: "jsval \<Rightarrow> rt_state" where
  "demo_store kbar = initialState\<lparr>kbarCurrentByCode := [(''TXFE6'', kbar)]\<rparr>"

lemma demo_kbar_conforms: "conforms KbarCurrentSchema (demo_kbar r ts close)"
  by (simp add: demo_kbar_def KbarCurrentSchema_def)

lemma demo_select: "select_code (kbarCurrentByCode (demo_store (demo_kbar r ts close))) = demo_kbar r ts close"
  by (simp add: select_code_def demo_store_def js_lookup_def ACTIVE_CODE_def js_coalesce_def nullish_def demo_kbar_def)

lemma demo_seq: "js_seq (demo_kbar r ts c) (demo_kbar r' ts' c') \<longleftrightarrow> r = r'"
  by (simp add: demo_kbar_def)

theorem live_charts_are_windows_witness:
  "let es = [Store_changes (demo_store (demo_kbar 2 0 11)), Renders 1, Store_changes (demo_store (demo_kbar 3 60000 12)), Renders 2]
   in map pt_value (ss_close (fold (section_step (\<lambda>_. (0, 0, 0))) es (section_mounts (\<lambda>_. (0, 0, 0)) 0 (demo_store (demo_kbar 1 0 10)))))
      = [Num (Fin 11), Num (Fin 12)]"
proof -
  let ?es = "[Store_changes (demo_store (demo_kbar 2 0 11)), Renders 1, Store_changes (demo_store (demo_kbar 3 60000 12)), Renders 2]"
  let ?lc = "\<lambda>_. (0, 0, 0)"
  have typed: "\<forall>r \<in> set ((demo_store (demo_kbar 1 0 10), 0) # shown (demo_store (demo_kbar 1 0 10)) ?es).
      shown_kbar r = Null \<or> conforms KbarCurrentSchema (shown_kbar r)"
    by (simp add: shown_kbar_def demo_select demo_kbar_conforms)
  have "close_point ?lc (demo_kbar r ts c) = Some \<lparr>pt_ts = ts, pt_label = formatLabel ?lc ts, pt_value = Num (Fin c)\<rparr>" for r ts c
    by (simp add: close_point_def demo_kbar_def)
  then have "map pt_value (window 40 (latest_per_ts pt_ts (close_offers ?lc (demo_store (demo_kbar 1 0 10)) 0 ?es))) = [Num (Fin 11), Num (Fin 12)]"
    by (simp add: close_offers_def shown_kbar_def demo_select depends_changed_def map_filter_simps window_def demo_seq)
  then show ?thesis using live_charts_are_windows [OF typed, of ?lc] by (simp add: Let_def)
qed

section \<open>The OTC line\<close>

definition MAX_POINTS :: nat where "MAX_POINTS = 120"

definition otc_yDomain :: "otc_point list \<Rightarrow> rat \<times> rat" where
  "otc_yDomain chartData =
     (let vs = map oi_value chartData;
          yMin = (if vs = [] then 0 else Min (set vs));
          yMax = (if vs = [] then 1 else Max (set vs));
          span = max (yMax - yMin) 0;
          padding = max (span * 3 / 100) (1 / 5)
      in (yMin - padding, yMax + padding))"

definition every_nth :: "nat \<Rightarrow> 'a list \<Rightarrow> 'a list" where
  "every_nth step xs = map snd (filter (\<lambda>p. fst p mod step = 0) (enumerate 0 xs))"

definition otc_displayData :: "otc_point list \<Rightarrow> otc_point list" where
  "otc_displayData chartData =
     (if length chartData \<le> MAX_POINTS then chartData
      else let step = (length chartData + MAX_POINTS - 1) div MAX_POINTS;
               kept = every_nth step chartData
           in if oi_minuteTs (last kept) \<noteq> oi_minuteTs (last chartData) then kept @ [last chartData] else kept)"

definition otc_xTicks :: "otc_point list \<Rightarrow> rat list" where
  "otc_xTicks chartData =
     (if chartData = [] then []
      else [oi_minuteTs (hd chartData)]
        @ List.map_filter (\<lambda>label. map_option oi_minuteTs (find (\<lambda>p. oi_time p = label) chartData))
            [''10:00'', ''11:00'', ''12:00'', ''13:00'']
        @ [oi_minuteTs (last chartData)])"

lemma every_nth_Nil [simp]: "every_nth step [] = []"
  by (simp add: every_nth_def)

lemma every_nth_single [simp]: "every_nth step [x] = [x]"
  by (simp add: every_nth_def)

lemma every_nth_snoc: "every_nth step (xs @ [x]) = every_nth step xs @ (if length xs mod step = 0 then [x] else [])"
  by (simp add: every_nth_def enumerate_append_eq)

lemma every_nth_subseq: "subseq (every_nth step xs) xs"
  by (induction xs rule: rev_induct) (auto simp: every_nth_snoc intro: list_emb_append_mono)

lemma every_nth_hd: "xs \<noteq> [] \<Longrightarrow> every_nth step xs \<noteq> [] \<and> hd (every_nth step xs) = hd xs"
proof (induction xs rule: rev_induct)
  case (snoc x xs)
  then show ?case by (cases "xs = []") (auto simp: every_nth_snoc)
qed simp

lemma every_nth_length: "0 < step \<Longrightarrow> length xs \<le> step * m \<Longrightarrow> length (every_nth step xs) \<le> m"
proof (induction xs arbitrary: m rule: rev_induct)
  case (snoc x xs)
  show ?case
  proof (cases "length xs mod step = 0")
    case True
    then have len: "length xs = step * (length xs div step)" using mult_div_mod_eq [of step "length xs"] by simp
    then have "step * (length xs div step) < step * m" using snoc.prems(2) by simp
    then have "length xs div step < m" by simp
    moreover have "length (every_nth step xs) \<le> length xs div step"
      using snoc.IH [of "length xs div step"] snoc.prems(1) len by simp
    ultimately show ?thesis by (simp add: every_nth_snoc True)
  next
    case False
    then show ?thesis using snoc.IH [of m] snoc.prems by (simp add: every_nth_snoc)
  qed
qed simp

lemma otc_display_props:
  assumes "c \<noteq> []"
  shows "length (otc_displayData c) \<le> 121 \<and> subseq (otc_displayData c) c
    \<and> hd (otc_displayData c) = hd c \<and> oi_minuteTs (last (otc_displayData c)) = oi_minuteTs (last c)"
proof (cases "length c \<le> MAX_POINTS")
  case True
  then show ?thesis by (simp add: otc_displayData_def MAX_POINTS_def)
next
  case False
  define step where "step = (length c + MAX_POINTS - 1) div MAX_POINTS"
  have step: "0 < step" "length c \<le> step * 120"
    using False by (simp_all add: step_def MAX_POINTS_def)
  note kept = every_nth_length [OF step] every_nth_subseq [of step c] every_nth_hd [OF assms, of step]
  have disp: "otc_displayData c = (if oi_minuteTs (last (every_nth step c)) \<noteq> oi_minuteTs (last c)
      then every_nth step c @ [last c] else every_nth step c)"
    using False by (simp add: otc_displayData_def step_def)
  have "subseq (every_nth step c @ [last c]) c" if "oi_minuteTs (last (every_nth step c)) \<noteq> oi_minuteTs (last c)"
  proof -
    obtain ys y where c: "c = ys @ [y]" using assms by (cases c rule: rev_cases) auto
    then have "every_nth step c = every_nth step ys" using that by (auto simp: every_nth_snoc split: if_splits)
    then show ?thesis using c every_nth_subseq [of step ys] by (simp add: list_emb_append_mono)
  qed
  then show ?thesis using kept unfolding disp by auto
qed

lemma find_mem: "find P xs = Some x \<Longrightarrow> x \<in> set xs"
  by (induction xs) (auto split: if_splits)

lemma map_filter_mem: "y \<in> set (List.map_filter f xs) \<Longrightarrow> \<exists>x \<in> set xs. f x = Some y"
  by (auto simp: List.map_filter_def)

lemma otc_tick_member:
  assumes "c \<noteq> []" and "t \<in> set (otc_xTicks c)"
  shows "\<exists>p \<in> set c. t = oi_minuteTs p"
proof -
  define labels where "labels = [''10:00'', ''11:00'', ''12:00'', ''13:00'']"
  consider "t = oi_minuteTs (hd c)" | "t = oi_minuteTs (last c)"
    | "t \<in> set (List.map_filter (\<lambda>label. map_option oi_minuteTs (find (\<lambda>p. oi_time p = label) c)) labels)"
    using assms by (auto simp only: otc_xTicks_def labels_def [symmetric] if_False set_append list.set Un_iff insert_iff empty_iff)
  then show ?thesis
  proof cases
    case 3
    then obtain label where "map_option oi_minuteTs (find (\<lambda>p. oi_time p = label) c) = Some t" using map_filter_mem by fastforce
    then show ?thesis using find_mem by (metis map_option_eq_Some)
  qed (use assms(1) in auto)
qed

text \<open>
  The OTC line: in every state of its hook that shows a line, at most 121 points are drawn, in
  their order, the first of the day and the newest among them; the value axis leaves at least 0.2
  free above and below every point of the whole series; and every tick lies between the first and
  the newest point.
\<close>

theorem otc_line_in_chart:
  assumes "reachable otc_mounted (otc_step hh mm) h" and "tl_series (oh_timeline h) \<noteq> []"
  defines "c \<equiv> tl_series (oh_timeline h)"
  shows "length (otc_displayData c) \<le> 121 \<and> subseq (otc_displayData c) c
    \<and> hd (otc_displayData c) = hd c \<and> oi_minuteTs (last (otc_displayData c)) = oi_minuteTs (last c)
    \<and> (\<forall>p \<in> set c. fst (otc_yDomain c) + 1 / 5 \<le> oi_value p \<and> oi_value p + 1 / 5 \<le> snd (otc_yDomain c))
    \<and> (\<forall>t \<in> set (otc_xTicks c). oi_minuteTs (hd c) \<le> t \<and> t \<le> oi_minuteTs (last c))"
proof (intro conjI ballI)
  have ne: "c \<noteq> []" using assms(2) by (simp add: c_def)
  have sorted: "sorted (map oi_minuteTs c)"
    using otc_hook.reachable_inv [OF assms(1)] by (simp add: otc_inv_def timeline_ok_def c_def)
  show "length (otc_displayData c) \<le> 121" "subseq (otc_displayData c) c" "hd (otc_displayData c) = hd c"
    "oi_minuteTs (last (otc_displayData c)) = oi_minuteTs (last c)"
    using otc_display_props [OF ne] by blast+
  show "fst (otc_yDomain c) + 1 / 5 \<le> oi_value p" "oi_value p + 1 / 5 \<le> snd (otc_yDomain c)" if "p \<in> set c" for p
  proof -
    have "Min (set (map oi_value c)) \<le> oi_value p" "oi_value p \<le> Max (set (map oi_value c))"
      using that by (auto intro!: Min_le Max_ge)
    then show "fst (otc_yDomain c) + 1 / 5 \<le> oi_value p" "oi_value p + 1 / 5 \<le> snd (otc_yDomain c)"
      using ne by (auto simp: otc_yDomain_def Let_def)
  qed
  have member: "oi_minuteTs (hd c) \<le> oi_minuteTs p \<and> oi_minuteTs p \<le> oi_minuteTs (last c)" if "p \<in> set c" for p
  proof -
    obtain i where i: "i < length c" "p = c ! i" using \<open>p \<in> set c\<close> by (auto simp: in_set_conv_nth)
    then show ?thesis
      using sorted_nth_mono [OF sorted, of 0 i] sorted_nth_mono [OF sorted, of i "length c - 1"] ne
      by (auto simp: hd_conv_nth last_conv_nth)
  qed
  show "oi_minuteTs (hd c) \<le> t" "t \<le> oi_minuteTs (last c)" if "t \<in> set (otc_xTicks c)" for t
  proof -
    have "\<exists>p \<in> set c. t = oi_minuteTs p"
      using \<open>t \<in> set (otc_xTicks c)\<close> ne by (rule otc_tick_member [rotated])
    then show "oi_minuteTs (hd c) \<le> t" "t \<le> oi_minuteTs (last c)" using member by auto
  qed
qed

text \<open>The state after a baseline of one point.\<close>

definition demo_otc :: otc_hook where
  "demo_otc = otc_settle (\<lambda>_. ''09'') (\<lambda>_. ''00'') 0 (Inr [Obj 0 [(''minute_ts'', Num (Fin 0)), (''index_value'', Num (Fin 280))]])
     (otc_session (True, Some ''t'', Member)
        \<lparr>oh_auth = (False, None, Visitor), oh_timeline = no_series, oh_request = None, oh_next = 0\<rparr>)"

theorem otc_line_in_chart_witness:
  "length (otc_displayData (tl_series (oh_timeline demo_otc))) = 1
    \<and> (\<forall>p \<in> set (tl_series (oh_timeline demo_otc)). fst (otc_yDomain (tl_series (oh_timeline demo_otc))) < oi_value p)"
proof -
  let ?mounted = "\<lparr>oh_auth = (False, None, Visitor), oh_timeline = no_series, oh_request = None, oh_next = 0\<rparr>"
  have "reachable otc_mounted (otc_step (\<lambda>_. ''09'') (\<lambda>_. ''00'')) ?mounted"
    by (rule reachable_init) (simp only: otc_mounted_def)
  note r1 = reachable_step [OF this otc_s_session [where auth = "(True, Some ''t'', Member)"]]
  have r: "reachable otc_mounted (otc_step (\<lambda>_. ''09'') (\<lambda>_. ''00'')) demo_otc"
    unfolding demo_otc_def by (rule reachable_step [OF r1 otc_s_settle])
  have rows: "otc_rows [Obj 0 [(''minute_ts'', Num (Fin 0)), (''index_value'', Num (Fin 280))]] = [(0, 280)]"
    by (simp add: otc_rows_def List.map_filter_def otc_minuteTs_def finite_num_def TimelineHooks.or_else_def)
  have "\<exists>p. tl_series (oh_timeline demo_otc) = [p]"
    by (simp add: demo_otc_def otc_settle_def otc_session_def otc_enabled_def toSeries_def rows otc_row_def formatTime_def
        time_clip_def reset_timeline_def Let_def)
  then obtain p where p: "tl_series (oh_timeline demo_otc) = [p]" by blast
  have d: "otc_displayData [p] = [p]" by (simp add: otc_displayData_def MAX_POINTS_def)
  have "fst (otc_yDomain [p]) + 1 / 5 \<le> oi_value p" using otc_line_in_chart [OF r] p by simp
  then show ?thesis using p d by simp
qed

section \<open>The sticky figures and the gauges\<close>

definition sticky :: "jsval \<Rightarrow> rat option \<Rightarrow> rat option" where
  "sticky v latest = (case finite_of v of Some x \<Rightarrow> Some x | None \<Rightarrow> latest)"

record live_metrics =
  lv_dayAmplitude :: "rat option"
  lv_estimatedTurnover :: "rat option"
  lv_spread :: "rat option"
  lv_mainForce :: "rat option"
  lv_mainChip :: "rat option"
  lv_longShort :: "rat option"

definition initial_live_metrics :: live_metrics where
  "initial_live_metrics =
     \<lparr>lv_dayAmplitude = None, lv_estimatedTurnover = None, lv_spread = None, lv_mainForce = None, lv_mainChip = None, lv_longShort = None\<rparr>"

text \<open>The effects of one render, for the latest k-bar, metric, market summary and quote.\<close>

definition metrics_render :: "jsval \<times> jsval \<times> jsval \<times> jsval \<Rightarrow> live_metrics \<Rightarrow> live_metrics" where
  "metrics_render inputs s =
     (case inputs of (kbar, metric, marketSummary, quote) \<Rightarrow>
        \<lparr>lv_dayAmplitude = sticky (js_get kbar ''day_amplitude'') (lv_dayAmplitude s),
         lv_estimatedTurnover = sticky (js_get marketSummary ''estimated_turnover'') (lv_estimatedTurnover s),
         lv_spread = sticky (js_get marketSummary ''spread'') (lv_spread s),
         lv_mainForce = sticky (js_get metric ''main_force_big_order_strength'') (lv_mainForce s),
         lv_mainChip = sticky (js_get quote ''main_chip_strength'') (lv_mainChip s),
         lv_longShort = sticky (js_get quote ''long_short_force_strength'') (lv_longShort s)\<rparr>)"

datatype needle_metric = Needle_mainForce | Needle_mainChip | Needle_longShortForce | Needle_retailSmallOrder | Needle_bigOrder

definition liveMetricStrengthByKey :: "live_metrics \<Rightarrow> needle_metric \<Rightarrow> rat option" where
  "liveMetricStrengthByKey s key =
     (case key of
        Needle_mainForce \<Rightarrow> lv_mainForce s
      | Needle_mainChip \<Rightarrow> lv_mainChip s
      | Needle_longShortForce \<Rightarrow> lv_longShort s
      | Needle_retailSmallOrder \<Rightarrow> None
      | Needle_bigOrder \<Rightarrow> None)"

definition coreMetrics :: "(rat \<Rightarrow> string) \<Rightarrow> string \<Rightarrow> live_metrics \<Rightarrow> string list" where
  "coreMetrics show yi s =
     [formatCoreMetricValue show yi Core_amplitude (lv_dayAmplitude s),
      formatCoreMetricValue show yi Core_projectedVolume (lv_estimatedTurnover s),
      formatCoreMetricValue show yi Core_spread (lv_spread s)]"

definition strength_text :: "(rat \<Rightarrow> string) \<Rightarrow> rat option \<Rightarrow> string" where
  "strength_text show v = (case v of None \<Rightarrow> ''--'' | Some x \<Rightarrow> formatPercentage show x)"

definition contributionMetrics :: "(rat \<Rightarrow> string) \<Rightarrow> live_metrics \<Rightarrow> string list" where
  "contributionMetrics show s = [strength_text show (lv_mainChip s), ''--'', strength_text show (lv_longShort s)]"

text \<open>The two segments of a half gauge: active and rest.\<close>

definition half_gauge :: "rat option \<Rightarrow> rat \<times> rat" where
  "half_gauge pct = (let v = (case pct of None \<Rightarrow> 0 | Some x \<Rightarrow> max 0 (min 100 x)) in (v, 100 - v))"

definition strength_gauge :: "rat option \<Rightarrow> rat \<times> rat" where
  "strength_gauge strength = half_gauge (map_option (\<lambda>x. x * 100) strength)"

definition last_number :: "jsval list \<Rightarrow> rat option" where
  "last_number vs = (case rev (List.map_filter finite_of vs) of [] \<Rightarrow> None | x # _ \<Rightarrow> Some x)"

lemma last_number_simps [simp]: "last_number [] = None" "last_number (vs @ [v]) = sticky v (last_number vs)"
  by (simp_all add: last_number_def sticky_def List.map_filter_def split: option.split)

text \<open>Every figure is the last number its field has had, whatever came after it.\<close>

lemma metrics_hold_last:
  "fold metrics_render inputs initial_live_metrics =
     \<lparr>lv_dayAmplitude = last_number (map (\<lambda>(k, m, s, q). js_get k ''day_amplitude'') inputs),
      lv_estimatedTurnover = last_number (map (\<lambda>(k, m, s, q). js_get s ''estimated_turnover'') inputs),
      lv_spread = last_number (map (\<lambda>(k, m, s, q). js_get s ''spread'') inputs),
      lv_mainForce = last_number (map (\<lambda>(k, m, s, q). js_get m ''main_force_big_order_strength'') inputs),
      lv_mainChip = last_number (map (\<lambda>(k, m, s, q). js_get q ''main_chip_strength'') inputs),
      lv_longShort = last_number (map (\<lambda>(k, m, s, q). js_get q ''long_short_force_strength'') inputs)\<rparr>"
  by (induction inputs rule: rev_induct) (auto simp: metrics_render_def initial_live_metrics_def split: prod.split)

lemma gauge_full: "fst (strength_gauge v) + snd (strength_gauge v) = 100 \<and> 0 \<le> fst (strength_gauge v) \<and> 0 \<le> snd (strength_gauge v)"
  by (auto simp: strength_gauge_def half_gauge_def Let_def split: option.split)

end
