(* ===== verification/DashboardCards.thy ===== *)
theory DashboardCards
  imports Figures Participant EstimatedVolume ChartData
begin

text \<open>
  What the cards of the dashboard draw: \<open>SpotMarketDistributionCard.tsx\<close>, \<open>TrendIndexCard.tsx\<close>,
  \<open>ParticipantSignalsCard.tsx\<close>, \<open>EstimatedVolumeCard.tsx\<close>, the hybrid chart of \<open>PanelCharts.tsx\<close>,
  the states of \<open>lib/card-data-state.ts\<close> and \<open>RealtimeDashboardOverview.tsx\<close>, the tiles of
  \<open>pages/TreemapDemoPage.tsx\<close>, and \<open>HistoricalDataAnalysisOverview.tsx\<close>. The chart library lays out
  what it is given; a rectangle it hands to a shape is an argument.
\<close>

section \<open>States of a card\<close>

datatype card_status = Card_loading | Card_error | Card_empty | Card_ready

definition resolveCardDataStatus :: "bool \<Rightarrow> string option \<Rightarrow> bool \<Rightarrow> card_status" where
  "resolveCardDataStatus loading err hasData =
     (if loading then Card_loading
      else if err \<noteq> None \<and> err \<noteq> Some [] then Card_error
      else if \<not> hasData then Card_empty else Card_ready)"

text \<open>The two overlay cards of the overview load with the ticks and the quotes.\<close>

definition overlay_status :: "bool \<times> string option \<Rightarrow> bool \<times> string option \<Rightarrow> 'a list \<Rightarrow> card_status" where
  "overlay_status tick quote chartData =
     resolveCardDataStatus (fst tick \<or> fst quote) (case snd tick of Some e \<Rightarrow> Some e | None \<Rightarrow> snd quote) (chartData \<noteq> [])"

section \<open>The distribution card\<close>

record bucket =
  bk_label :: string
  bk_count :: rat
  bk_lower :: rat
  bk_upper :: rat

definition bucket_of :: "jsval \<Rightarrow> bucket option" where
  "bucket_of v =
     (case (js_get v ''label'', finite_of (js_get v ''count''), finite_of (js_get v ''lower_pct''), finite_of (js_get v ''upper_pct'')) of
        (Str label, Some count, Some lower, Some upper) \<Rightarrow>
          Some \<lparr>bk_label = label, bk_count = count, bk_lower = lower, bk_upper = upper\<rparr>
      | _ \<Rightarrow> None)"

text \<open>The rows of the chart, of buckets that conform to their schema with finite numbers.\<close>

definition distribution_chartData :: "jsval \<Rightarrow> bucket list" where
  "distribution_chartData latest =
     (case js_get latest ''distribution_buckets'' of
        Arr _ buckets \<Rightarrow> sort_key bk_lower (List.map_filter bucket_of buckets)
      | _ \<Rightarrow> [])"

definition bucketFill :: "rat \<Rightarrow> rat \<Rightarrow> string" where
  "bucketFill lowerPct upperPct =
     (if upperPct \<le> 0 then ''#22c55e'' else if 0 \<le> lowerPct then ''#ef4444'' else ''#f59e0b'')"

definition distribution_state :: "bucket list \<Rightarrow> bool \<Rightarrow> string option \<Rightarrow> card_status" where
  "distribution_state chartData loading err =
     (if chartData \<noteq> [] then Card_ready else if loading then Card_loading
      else if err \<noteq> None \<and> err \<noteq> Some [] then Card_error else Card_empty)"

section \<open>Axes\<close>

definition resolveTrendRatioDomain :: "rat \<times> rat \<Rightarrow> int \<times> int" where
  "resolveTrendRatioDomain ends =
     (case ends of (dataMin, dataMax) \<Rightarrow>
        (let lowerBound = min dataMin 0; upperBound = max dataMax 0;
             padding = max 5 \<lceil>max \<bar>lowerBound\<bar> \<bar>upperBound\<bar> / 10\<rceil>
         in (\<lfloor>lowerBound - of_int padding\<rfloor>, \<lceil>upperBound + of_int padding\<rceil>)))"

definition price_margin :: "rat \<Rightarrow> rat" where
  "price_margin x = max 8 (of_int (math_round (\<bar>x\<bar> * 5 / 10000)))"

definition price_domain :: "rat \<times> rat \<Rightarrow> rat \<times> rat" where
  "price_domain ends = (case ends of (dataMin, dataMax) \<Rightarrow> (dataMin - price_margin dataMin, dataMax + price_margin dataMax))"

definition or_zero :: "rat option \<Rightarrow> rat" where
  "or_zero v = (case v of None \<Rightarrow> 0 | Some x \<Rightarrow> x)"

definition participantAmplitudeMax :: "signal_point list \<Rightarrow> int" where
  "participantAmplitudeMax chartData =
     (let maxValue = foldl (\<lambda>currentMax point.
            max (max currentMax (si_ampHigh point))
              (max (or_zero (si_ma3 point)) (max (or_zero (si_ma5 point)) (or_zero (si_ma10 point))))) 0 chartData
      in max 10 \<lceil>maxValue + 5\<rceil>)"

section \<open>The hybrid chart\<close>

record market_datum =
  md_time :: string
  md_indexPrice :: rat
  md_chipDelta :: jsnum
  md_buyVolume :: jsnum
  md_sellVolume :: jsnum

definition toOrderFlowMarketData :: "order_flow_point list \<Rightarrow> market_datum list" where
  "toOrderFlowMarketData points =
     map (\<lambda>point.
       \<lparr>md_time = of_time point, md_indexPrice = of_indexPrice point, md_chipDelta = of_chipDelta point,
        md_buyVolume = (if num_lt (Fin 0) (of_chipDelta point) then of_chipDelta point else Fin 0),
        md_sellVolume = (if num_lt (of_chipDelta point) (Fin 0) then of_chipDelta point else Fin 0)\<rparr>) points"

section \<open>The participant candles\<close>

record rect =
  rc_x :: rat
  rc_y :: rat
  rc_width :: rat
  rc_height :: rat

text \<open>The wick (its x and its two ends) and the body.\<close>

definition renderCandleShape :: "rect \<Rightarrow> signal_point \<Rightarrow> (rat \<times> rat \<times> rat) \<times> rect" where
  "renderCandleShape r p =
     (let span = max (si_ampHigh p - si_ampLow p) 1;
          bodyHigh = max (si_ampOpen p) (si_ampClose p);
          bodyLow = min (si_ampOpen p) (si_ampClose p);
          bodyTop = rc_y r + (si_ampHigh p - bodyHigh) / span * rc_height r;
          bodyBottom = rc_y r + (si_ampHigh p - bodyLow) / span * rc_height r;
          bodyHeight = max 2 (bodyBottom - bodyTop);
          centerX = rc_x r + rc_width r / 2;
          bodyWidth = max 25 (min 30 (rc_width r * 44 / 100))
      in ((centerX, rc_y r, rc_y r + rc_height r),
          \<lparr>rc_x = centerX - bodyWidth / 2, rc_y = bodyTop, rc_width = bodyWidth, rc_height = bodyHeight\<rparr>))"

section \<open>The volume card\<close>

definition volume_diff :: "volume_point option \<Rightarrow> jsnum" where
  "volume_diff latest =
     (case latest of None \<Rightarrow> Fin 0 | Some p \<Rightarrow> num_sub (Fin (ev_todayEstimated p)) (ev_yesterdayEstimated p))"

definition diff_is_red :: "volume_point option \<Rightarrow> bool" where
  "diff_is_red latest \<longleftrightarrow> num_le (Fin 0) (volume_diff latest)"

text \<open>The label of a minute on the axis of the comparison chart.\<close>

definition volume_tick_label :: "volume_point list \<Rightarrow> nat \<Rightarrow> string" where
  "volume_tick_label points v = (case find (\<lambda>p. ev_minuteOfDay p = v) points of Some p \<Rightarrow> ev_time p | None \<Rightarrow> [])"

section \<open>Values and axes\<close>

lemma trend_domain:
  assumes "lo \<le> v" and "v \<le> hi"
  defines "axis \<equiv> resolveTrendRatioDomain (lo, hi)"
  shows "of_int (fst axis) + 5 \<le> v" and "v + 5 \<le> of_int (snd axis)" and "of_int (fst axis) + 5 \<le> (0::rat)" "(0::rat) + 5 \<le> of_int (snd axis)"
    and "of_int (fst axis) + \<bar>v\<bar> / 10 \<le> v" and "v + \<bar>v\<bar> / 10 \<le> of_int (snd axis)"
proof -
  define l u where "l = min lo 0" and "u = max hi 0"
  define pad where "pad = max 5 \<lceil>max \<bar>l\<bar> \<bar>u\<bar> / 10\<rceil>"
  have axis: "fst axis = \<lfloor>l - of_int pad\<rfloor>" "snd axis = \<lceil>u + of_int pad\<rceil>"
    unfolding axis_def resolveTrendRatioDomain_def l_def u_def pad_def by (simp_all only: prod.case Let_def fst_conv snd_conv)
  have bounds: "l \<le> v" "v \<le> u" "l \<le> 0" "0 \<le> u" using assms(1,2) by (simp_all add: l_def u_def min_le_iff_disj le_max_iff_disj)
  have f: "of_int (fst axis) \<le> l - of_int pad" "u + of_int pad \<le> of_int (snd axis)" by (simp_all add: axis)
  have "5 \<le> pad" unfolding pad_def by (rule max.cobounded1)
  then have p5: "(5::rat) \<le> of_int pad" using of_int_le_iff [of 5 pad, where 'a = rat] by simp
  have "max \<bar>l\<bar> \<bar>u\<bar> / 10 \<le> of_int \<lceil>max \<bar>l\<bar> \<bar>u\<bar> / 10\<rceil>" by (rule le_of_int_ceiling)
  also have "\<dots> \<le> of_int pad" unfolding pad_def of_int_le_iff by (rule max.cobounded2)
  finally have p10: "max \<bar>l\<bar> \<bar>u\<bar> / 10 \<le> of_int pad" .
  have "\<bar>v\<bar> \<le> max \<bar>l\<bar> \<bar>u\<bar>" using bounds by auto
  then have pv: "\<bar>v\<bar> / 10 \<le> of_int pad" using p10 by linarith
  show "of_int (fst axis) + 5 \<le> v" "v + 5 \<le> of_int (snd axis)" "of_int (fst axis) + 5 \<le> (0::rat)" "(0::rat) + 5 \<le> of_int (snd axis)"
    "of_int (fst axis) + \<bar>v\<bar> / 10 \<le> v" "v + \<bar>v\<bar> / 10 \<le> of_int (snd axis)"
    using bounds f p5 pv by linarith+
qed

lemma amplitude_max_covers:
  assumes "p \<in> set ps" and "v \<in> {si_ampHigh p, or_zero (si_ma3 p), or_zero (si_ma5 p), or_zero (si_ma10 p)}"
  shows "v + 5 \<le> of_int (participantAmplitudeMax ps)"
proof -
  let ?step = "\<lambda>currentMax point. max (max currentMax (si_ampHigh point))
    (max (or_zero (si_ma3 point)) (max (or_zero (si_ma5 point)) (or_zero (si_ma10 point))))"
  have grows: "m \<le> foldl ?step m ps" for m and ps :: "signal_point list"
  proof (induction ps arbitrary: m)
    case (Cons p ps)
    have "m \<le> ?step m p" by simp
    also have "?step m p \<le> foldl ?step m (p # ps)" unfolding foldl.simps by (rule Cons.IH)
    finally show ?case .
  qed simp
  have "v \<le> foldl ?step m ps" for m
    using assms(1)
  proof (induction ps arbitrary: m)
    case (Cons q ps)
    show ?case
    proof (cases "q = p")
      case True
      have "v \<le> ?step m p" using assms(2) by auto
      also have "\<dots> \<le> foldl ?step (?step m p) ps" by (rule grows)
      finally show ?thesis using True by simp
    next
      case False
      then show ?thesis using Cons by simp
    qed
  qed simp
  then have "v + 5 \<le> foldl ?step 0 ps + 5" by (rule add_right_mono)
  also have "\<dots> \<le> of_int \<lceil>foldl ?step 0 ps + 5\<rceil>" by (rule le_of_int_ceiling)
  also have "\<dots> \<le> of_int (participantAmplitudeMax ps)"
    unfolding participantAmplitudeMax_def Let_def of_int_le_iff by (rule max.cobounded2)
  finally show ?thesis .
qed

lemma add_max_le: "a + x \<le> v \<Longrightarrow> a + y \<le> v \<Longrightarrow> a + max x y \<le> v" "v + x \<le> b \<Longrightarrow> v + y \<le> b \<Longrightarrow> v + max x y \<le> b"
  for a b v x y :: rat
  by (simp_all add: max_def)

lemma signal_fields:
  assumes "p \<in> set (withAmplitudeMovingAverages rows)"
  shows "si_ampOpen p = 0" "si_ampLow p = 0" "si_ampHigh p = \<bar>ca_amplitude p\<bar>" "si_ampClose p = \<bar>ca_close p - ca_open p\<bar>"
  using assms by (auto simp: withAmplitudeMovingAverages_def Let_def candle.defs)

text \<open>
  The axes of the cards enclose what is drawn: a ratio lies at least 5 and at least a tenth of its
  size inside the trend axis, which shows the zero line too, a price at least 8 inside the price axis,
  and every amplitude of a day and every moving average at least 5 below the end of the amplitude axis.
\<close>

theorem axes_enclose:
  assumes "lo \<le> v" and "v \<le> hi" and "p \<in> set (withAmplitudeMovingAverages rows)"
  shows "of_int (fst (resolveTrendRatioDomain (lo, hi))) + max 5 (\<bar>v\<bar> / 10) \<le> v
    \<and> v + max 5 (\<bar>v\<bar> / 10) \<le> of_int (snd (resolveTrendRatioDomain (lo, hi)))
    \<and> fst (resolveTrendRatioDomain (lo, hi)) < 0 \<and> 0 < snd (resolveTrendRatioDomain (lo, hi))
    \<and> fst (price_domain (lo, hi)) + 8 \<le> v \<and> v + 8 \<le> snd (price_domain (lo, hi))
    \<and> 0 \<le> si_ampHigh p \<and> si_ampHigh p + 5 \<le> of_int (participantAmplitudeMax (withAmplitudeMovingAverages rows))
    \<and> (\<forall>m \<in> {si_ma3 p, si_ma5 p, si_ma10 p}. or_zero m + 5 \<le> of_int (participantAmplitudeMax (withAmplitudeMovingAverages rows)))"
proof -
  note t = trend_domain [OF assms(1,2)]
  have "fst (resolveTrendRatioDomain (lo, hi)) < 0" "0 < snd (resolveTrendRatioDomain (lo, hi))"
  proof -
    have "of_int (fst (resolveTrendRatioDomain (lo, hi))) < (0::rat)" "(0::rat) < of_int (snd (resolveTrendRatioDomain (lo, hi)))"
      using t(3,4) by linarith+
    then show "fst (resolveTrendRatioDomain (lo, hi)) < 0" "0 < snd (resolveTrendRatioDomain (lo, hi))"
      unfolding of_int_less_0_iff of_int_0_less_iff .
  qed
  moreover have "fst (price_domain (lo, hi)) + 8 \<le> v" "v + 8 \<le> snd (price_domain (lo, hi))"
    using assms(1,2) by (auto simp: price_domain_def price_margin_def max_def)
  moreover have "of_int (fst (resolveTrendRatioDomain (lo, hi))) + max 5 (\<bar>v\<bar> / 10) \<le> v"
    "v + max 5 (\<bar>v\<bar> / 10) \<le> of_int (snd (resolveTrendRatioDomain (lo, hi)))"
    using add_max_le(1) [OF t(1) t(5)] add_max_le(2) [OF t(2) t(6)] by blast+
  moreover have "0 \<le> si_ampHigh p" by (simp add: signal_fields(3) [OF assms(3)])
  moreover have "or_zero m + 5 \<le> of_int (participantAmplitudeMax (withAmplitudeMovingAverages rows))"
    if "m \<in> {si_ma3 p, si_ma5 p, si_ma10 p}" for m
    using that by (intro amplitude_max_covers [OF assms(3)]) auto
  ultimately show ?thesis
    using amplitude_max_covers [OF assms(3), of "si_ampHigh p"] by simp
qed

definition demo_candle :: candle where
  "demo_candle = \<lparr>ca_day = ''05/04'', ca_tradeDate = ''2026-05-04'', ca_open = 100, ca_high = 130, ca_low = 90, ca_close = 120,
     ca_amplitude = 40, ca_isRealtime = False\<rparr>"

abbreviation demo_signal :: signal_point where
  "demo_signal \<equiv> hd (withAmplitudeMovingAverages [demo_candle])"

lemma demo_signal_in: "demo_signal \<in> set (withAmplitudeMovingAverages [demo_candle])"
  by (rule hd_in_set) (simp add: withAmplitudeMovingAverages_def Let_def)

theorem axes_enclose_witness:
  "of_int (fst (resolveTrendRatioDomain (- 20, 30))) + 5 \<le> (10 :: rat)
    \<and> si_ampHigh demo_signal + 5 \<le> of_int (participantAmplitudeMax (withAmplitudeMovingAverages [demo_candle]))"
  using axes_enclose [of "- 20" 10 30 demo_signal "[demo_candle]"] demo_signal_in by simp

text \<open>
  Candles are drawn to scale: for a day with an amplitude of at least one point that covers its
  opening and closing price, the wick spans the rectangle of the bar, the body stands on its foot,
  its height is the share of the day's move in the amplitude (two pixels at least), and it is 25 to
  30 wide and centred on the wick.
\<close>

theorem candle_to_scale:
  assumes "p \<in> set (withAmplitudeMovingAverages rows)" and "1 \<le> \<bar>ca_amplitude p\<bar>"
    and "\<bar>ca_close p - ca_open p\<bar> \<le> \<bar>ca_amplitude p\<bar>" and "0 \<le> rc_height r"
  defines "wick \<equiv> fst (renderCandleShape r p)" and "body \<equiv> snd (renderCandleShape r p)"
  shows "wick = (rc_x r + rc_width r / 2, rc_y r, rc_y r + rc_height r)
    \<and> rc_height body = max 2 (rc_height r * \<bar>ca_close p - ca_open p\<bar> / \<bar>ca_amplitude p\<bar>)
    \<and> rc_y r \<le> rc_y body
    \<and> (2 \<le> rc_height r * \<bar>ca_close p - ca_open p\<bar> / \<bar>ca_amplitude p\<bar> \<longrightarrow> rc_y body + rc_height body = rc_y r + rc_height r)
    \<and> rc_x body + rc_width body / 2 = fst wick \<and> 25 \<le> rc_width body \<and> rc_width body \<le> 30"
proof -
  define amp move where "amp = \<bar>ca_amplitude p\<bar>" and "move = \<bar>ca_close p - ca_open p\<bar>"
  note f = signal_fields [OF assms(1)]
  have le: "1 \<le> amp" "0 \<le> move" "move \<le> amp" using assms(2,3) by (simp_all add: amp_def move_def)
  then have span: "max amp 1 = amp" by simp
  have parts: "max (si_ampOpen p) (si_ampClose p) = move" "min (si_ampOpen p) (si_ampClose p) = 0" "si_ampHigh p = amp"
    using le by (simp_all add: f move_def amp_def)
  have top: "rc_y body = rc_y r + (amp - move) / amp * rc_height r"
    and height: "rc_height body = max 2 (rc_y r + (amp - 0) / amp * rc_height r - (rc_y r + (amp - move) / amp * rc_height r))"
    and rest: "wick = (rc_x r + rc_width r / 2, rc_y r, rc_y r + rc_height r)"
      "rc_width body = max 25 (min 30 (rc_width r * 44 / 100))" "rc_x body = rc_x r + rc_width r / 2 - rc_width body / 2"
    by (simp_all add: body_def wick_def renderCandleShape_def Let_def parts f(2) span)
  have scaled: "rc_y r + (amp - 0) / amp * rc_height r - (rc_y r + (amp - move) / amp * rc_height r) = rc_height r * move / amp"
    using le by (simp add: field_simps)
  have "rc_y r \<le> rc_y body" using le assms(4) by (simp add: top)
  moreover have "rc_y body + rc_height body = rc_y r + rc_height r" if "2 \<le> rc_height r * move / amp"
    using that le unfolding top height scaled by (simp add: max_def field_simps)
  ultimately show ?thesis
    unfolding rest(1) rest(3) height scaled amp_def [symmetric] move_def [symmetric] using rest(2) by auto
qed

theorem candle_to_scale_witness:
  "rc_height (snd (renderCandleShape \<lparr>rc_x = 0, rc_y = 10, rc_width = 60, rc_height = 80\<rparr> demo_signal)) = 40"
  using candle_to_scale [OF demo_signal_in, of "\<lparr>rc_x = 0, rc_y = 10, rc_width = 60, rc_height = 80\<rparr>"]
  by (simp add: withAmplitudeMovingAverages_def demo_candle_def candle.defs Let_def)

section \<open>The treemap\<close>

definition SECTOR_HEADER_HEIGHT :: rat where "SECTOR_HEADER_HEIGHT = 16"

text \<open>The node above a tile: its depth and its rectangle.\<close>

definition hasSectorRoot :: "nat \<Rightarrow> (nat \<times> rect) option \<Rightarrow> bool" where
  "hasSectorRoot depth parent \<longleftrightarrow>
     depth = 2 \<and> (case parent of None \<Rightarrow> False | Some (d, r) \<Rightarrow> d = 1 \<and> SECTOR_HEADER_HEIGHT < rc_height r)"

definition tile_rect :: "nat \<Rightarrow> (nat \<times> rect) option \<Rightarrow> rect \<Rightarrow> rect" where
  "tile_rect depth parent t =
     (case parent of
        Some (d, r) \<Rightarrow>
          if hasSectorRoot depth parent
          then let contentScaleY = (rc_height r - SECTOR_HEADER_HEIGHT) / rc_height r
               in t\<lparr>rc_y := rc_y r + SECTOR_HEADER_HEIGHT + (rc_y t - rc_y r) * contentScaleY,
                    rc_height := rc_height t * contentScaleY\<rparr>
          else t
      | None \<Rightarrow> t)"

record tile_view =
  tv_showSectorLabel :: bool
  tv_showSymbolLabel :: bool
  tv_showStockNameLabel :: bool
  tv_showContributionLabel :: bool
  tv_sectorFontSize :: int
  tv_symbolFontSize :: int
  tv_stockNameFontSize :: int
  tv_contributionFontSize :: int
  tv_symbolOffsetY :: int
  tv_stockNameOffsetY :: int
  tv_contributionOffsetY :: int
  tv_fillColor :: "string option"
  tv_text :: string

definition font_size :: "int \<Rightarrow> int \<Rightarrow> rat \<Rightarrow> rat \<Rightarrow> int" where
  "font_size lo hi a b = max lo (min hi \<lfloor>min a b\<rfloor>)"

text \<open>
  What a tile shows, from the rectangle it was given and the one it is drawn in. An infinite or
  missing contribution is not a figure of the feed; \<open>--\<close> stands for anything but a number.
\<close>

definition tile_content :: "(rat \<Rightarrow> string) \<Rightarrow> nat \<Rightarrow> (nat \<times> rect) option \<Rightarrow> rect \<Rightarrow> bool \<Rightarrow> rat option \<Rightarrow> tile_view" where
  "tile_content show depth parent t hasStockName contribution =
     (let r = tile_rect depth parent t;
          symbolLabel = (depth = 2 \<and> 34 < rc_width r \<and> 18 < rc_height r);
          stockNameLabel = (depth = 2 \<and> hasStockName \<and> 72 < rc_width r \<and> 42 < rc_height r);
          contributionLabel = (depth = 2 \<and> symbolLabel \<and> contribution \<noteq> None);
          stockNameFont = font_size 7 10 (rc_width r / 8) (rc_height r / (16 / 5));
          contributionFont = font_size 8 12 (rc_width r / 6) (rc_height r / (14 / 5))
      in \<lparr>tv_showSectorLabel = (depth = 1), tv_showSymbolLabel = symbolLabel, tv_showStockNameLabel = stockNameLabel,
          tv_showContributionLabel = contributionLabel,
          tv_sectorFontSize = font_size 8 10 (rc_width t / 10) (rc_height t / (12 / 5)),
          tv_symbolFontSize = font_size 9 13 (rc_width r / 5) (rc_height r / (11 / 5)),
          tv_stockNameFontSize = stockNameFont, tv_contributionFontSize = contributionFont,
          tv_symbolOffsetY =
            (if contributionLabel
             then if stockNameLabel then - (stockNameFont + 4) else - (max 6 (math_round (of_int contributionFont * 3 / 4)))
             else if stockNameLabel then - (max 3 (math_round (of_int stockNameFont * 2 / 5))) else 4),
          tv_stockNameOffsetY = (if contributionLabel then 0 else max 8 (math_round (of_int stockNameFont * 11 / 10))),
          tv_contributionOffsetY = (if stockNameLabel then max 12 (stockNameFont + 6) else max 10 contributionFont),
          tv_fillColor =
            (case contribution of
               None \<Rightarrow> None
             | Some c \<Rightarrow> if depth \<noteq> 2 then None
                 else Some (if 0 < c then ''#ef4444'' else if c < 0 then ''#22c55e'' else ''#94a3b8'')),
          tv_text = (case contribution of None \<Rightarrow> ''--'' | Some c \<Rightarrow> formatContribution show c)\<rparr>)"

text \<open>The ranking beside the map, and its data: the feed, or the built-in sample without one.\<close>

definition ranked :: "jsval list \<Rightarrow> jsval list \<Rightarrow> jsval list" where
  "ranked feed sample = (if take 5 feed \<noteq> [] then take 5 feed else sample)"

definition treemapData :: "jsval list option \<Rightarrow> jsval list \<Rightarrow> jsval list" where
  "treemapData sectors sample = (case sectors of Some (x # xs) \<Rightarrow> x # xs | _ \<Rightarrow> sample)"

text \<open>One rectangle inside another, and two that do not overlap.\<close>

definition inside :: "rect \<Rightarrow> rect \<Rightarrow> bool" where
  "inside t r \<longleftrightarrow> rc_x r \<le> rc_x t \<and> rc_x t + rc_width t \<le> rc_x r + rc_width r
     \<and> rc_y r \<le> rc_y t \<and> rc_y t + rc_height t \<le> rc_y r + rc_height r"

definition apart :: "rect \<Rightarrow> rect \<Rightarrow> bool" where
  "apart t u \<longleftrightarrow> rc_x t + rc_width t \<le> rc_x u \<or> rc_x u + rc_width u \<le> rc_x t
     \<or> rc_y t + rc_height t \<le> rc_y u \<or> rc_y u + rc_height u \<le> rc_y t"

definition area :: "rect \<Rightarrow> rat" where
  "area r = rc_width r * rc_height r"

lemma scaled_tile:
  assumes "16 < rc_height r"
  defines "k \<equiv> (rc_height r - 16) / rc_height r"
  shows "tile_rect 2 (Some (1, r)) t = t\<lparr>rc_y := rc_y r + 16 + (rc_y t - rc_y r) * k, rc_height := rc_height t * k\<rparr>"
    and "0 < k" and "rc_height r * k = rc_height r - 16"
  using assms by (simp_all add: tile_rect_def hasSectorRoot_def SECTOR_HEADER_HEIGHT_def k_def Let_def)

lemma tile_rect_inside:
  assumes "16 < rc_height r" and "inside t r"
  shows "inside (tile_rect 2 (Some (1, r)) t) (r\<lparr>rc_y := rc_y r + 16, rc_height := rc_height r - 16\<rparr>)"
proof -
  define k where "k = (rc_height r - 16) / rc_height r"
  note s = scaled_tile [OF assms(1), folded k_def]
  have "0 \<le> (rc_y t - rc_y r) * k" using assms(2) s(2) by (simp add: inside_def)
  moreover have "(rc_y t - rc_y r + rc_height t) * k \<le> rc_height r * k"
    using assms(2) s(2) by (intro mult_right_mono) (simp_all add: inside_def)
  ultimately show ?thesis
    using assms(2) s(3) unfolding s(1) by (simp add: inside_def algebra_simps)
qed

lemma tile_rect_apart:
  assumes "16 < rc_height r" and "apart t u"
  shows "apart (tile_rect 2 (Some (1, r)) t) (tile_rect 2 (Some (1, r)) u)"
proof -
  define k where "k = (rc_height r - 16) / rc_height r"
  note s = scaled_tile [OF assms(1), folded k_def]
  have "a + h \<le> b \<Longrightarrow> (a - rc_y r) * k + h * k \<le> (b - rc_y r) * k" for a h b
  proof -
    assume "a + h \<le> b"
    then have "(a - rc_y r + h) * k \<le> (b - rc_y r) * k" using s(2) by (intro mult_right_mono) simp_all
    then show ?thesis by (simp add: algebra_simps)
  qed
  from this [of "rc_y t" "rc_height t" "rc_y u"] this [of "rc_y u" "rc_height u" "rc_y t"] assms(2)
  show ?thesis unfolding apart_def s(1) by auto
qed

lemma font_size_bounds:
  "lo \<le> hi \<Longrightarrow> lo \<le> font_size lo hi a b \<and> font_size lo hi a b \<le> hi"
  "of_int (font_size lo hi a b) \<le> max (of_int lo) b"
proof -
  have "of_int (min hi \<lfloor>min a b\<rfloor>) \<le> b" by (rule order_trans [of _ "of_int \<lfloor>b\<rfloor>"]) (auto simp: min_le_iff_disj intro: floor_mono)
  then show "of_int (font_size lo hi a b) \<le> max (of_int lo) b" by (auto simp: font_size_def max_def)
qed (simp add: font_size_def)

lemma math_round_bounds: "0 \<le> x \<Longrightarrow> x \<le> of_int n \<Longrightarrow> 0 \<le> math_round x \<and> math_round x \<le> n"
  unfolding math_round_def by linarith

text \<open>
  C37. The tiles of a sector stay under its header: in a sector higher than its header of sixteen, a
  tile of the layout is drawn inside the sector below the header, tiles that do not overlap still do
  not, and all areas shrink by the same factor. The name of a stock is shown on tiles more than 34
  wide and 18 high, its second name more than 72 wide and 42 high, its contribution with the name. The
  base lines of the texts stand in their order, with fonts between 7 and 13; those of the names are
  within the tile, and that of the contribution exactly on tiles at least 20 high: on a lower one it is
  below the tile.
\<close>

theorem treemap_tiles_in_sector:
  fixes show_big :: "rat \<Rightarrow> string" and r t u :: rect and hasName :: bool and contribution :: "rat option"
  assumes "16 < rc_height r" and "inside t r" and "inside u r" and "apart t u"
  defines "placed \<equiv> tile_rect 2 (Some (1, r))" and "view \<equiv> tile_content show_big 2 (Some (1, r)) t hasName contribution"
  defines "half \<equiv> rc_height (placed t) / 2"
  shows "inside (placed t) (r\<lparr>rc_y := rc_y r + 16, rc_height := rc_height r - 16\<rparr>)
    \<and> apart (placed t) (placed u)
    \<and> area (placed t) * area u = area (placed u) * area t
    \<and> (tv_showSymbolLabel view \<longleftrightarrow> 34 < rc_width t \<and> 18 < rc_height (placed t))
    \<and> (tv_showStockNameLabel view \<longleftrightarrow> hasName \<and> 72 < rc_width t \<and> 42 < rc_height (placed t))
    \<and> (tv_showContributionLabel view \<longleftrightarrow> tv_showSymbolLabel view \<and> contribution \<noteq> None)
    \<and> (tv_showStockNameLabel view \<longrightarrow> tv_symbolOffsetY view < tv_stockNameOffsetY view)
    \<and> (tv_showContributionLabel view \<longrightarrow> tv_symbolOffsetY view < tv_contributionOffsetY view
        \<and> (tv_showStockNameLabel view \<longrightarrow> tv_stockNameOffsetY view < tv_contributionOffsetY view))
    \<and> {tv_symbolFontSize view, tv_stockNameFontSize view, tv_contributionFontSize view} \<subseteq> {7..13}
    \<and> (tv_showSymbolLabel view \<longrightarrow> \<bar>of_int (tv_symbolOffsetY view)\<bar> \<le> half)
    \<and> (tv_showStockNameLabel view \<longrightarrow> \<bar>of_int (tv_stockNameOffsetY view)\<bar> \<le> half)
    \<and> (tv_showContributionLabel view \<longrightarrow> (\<bar>of_int (tv_contributionOffsetY view)\<bar> \<le> half \<longleftrightarrow> 20 \<le> rc_height (placed t)))"
proof -
  note s = scaled_tile(1) [OF assms(1)]
  define h where "h = rc_height (placed t)"
  have sn: "7 \<le> tv_stockNameFontSize view" "tv_stockNameFontSize view \<le> 10"
    and cn: "8 \<le> tv_contributionFontSize view" "tv_contributionFontSize view \<le> 12"
    and sy: "9 \<le> tv_symbolFontSize view" "tv_symbolFontSize view \<le> 13"
    using font_size_bounds(1) [of 7 10] font_size_bounds(1) [of 8 12] font_size_bounds(1) [of 9 13]
    by (simp_all add: view_def tile_content_def Let_def)
  have ch: "of_int (tv_contributionFontSize view) \<le> max 8 (h / (14 / 5))"
    using font_size_bounds(2) [of 8 12 "rc_width (placed t) / 6" "h / (14 / 5)"]
    unfolding view_def tile_content_def Let_def tile_view.simps placed_def h_def of_int_numeral .
  have offsets: "tv_symbolOffsetY view = (if tv_showContributionLabel view
             then if tv_showStockNameLabel view then - (tv_stockNameFontSize view + 4)
               else - (max 6 (math_round (of_int (tv_contributionFontSize view) * 3 / 4)))
             else if tv_showStockNameLabel view then - (max 3 (math_round (of_int (tv_stockNameFontSize view) * 2 / 5))) else 4)"
    "tv_stockNameOffsetY view = (if tv_showContributionLabel view then 0 else max 8 (math_round (of_int (tv_stockNameFontSize view) * 11 / 10)))"
    "tv_contributionOffsetY view = (if tv_showStockNameLabel view then max 12 (tv_stockNameFontSize view + 6) else max 10 (tv_contributionFontSize view))"
    unfolding view_def tile_content_def Let_def tile_view.simps by (rule refl)+
  have shown: "tv_showSymbolLabel view \<longleftrightarrow> 34 < rc_width t \<and> 18 < h"
    "tv_showStockNameLabel view \<longleftrightarrow> hasName \<and> 72 < rc_width t \<and> 42 < h"
    "tv_showContributionLabel view \<longleftrightarrow> tv_showSymbolLabel view \<and> contribution \<noteq> None"
    unfolding view_def h_def placed_def tile_content_def Let_def tile_view.simps s by auto
  have lines: "(tv_showStockNameLabel view \<longrightarrow> tv_symbolOffsetY view < tv_stockNameOffsetY view)
      \<and> (tv_showContributionLabel view \<longrightarrow> tv_symbolOffsetY view < tv_contributionOffsetY view
        \<and> (tv_showStockNameLabel view \<longrightarrow> tv_stockNameOffsetY view < tv_contributionOffsetY view))"
    unfolding offsets using sn cn by (auto simp: max_def)
  have areas: "area (placed t) * area u = area (placed u) * area t"
    unfolding placed_def s by (simp add: area_def)
  have "\<bar>tv_symbolOffsetY view\<bar> \<le> (if tv_showStockNameLabel view then 14 else 9)"
    unfolding offsets using sn cn math_round_bounds [of "of_int (tv_contributionFontSize view) * 3 / 4" 9]
      math_round_bounds [of "of_int (tv_stockNameFontSize view) * 2 / 5" 9]
    by (auto simp: max_def)
  then have "\<bar>of_int (tv_symbolOffsetY view)\<bar> \<le> (if tv_showStockNameLabel view then 14 else 9 :: rat)"
    by (auto split: if_splits simp flip: of_int_abs)
  then have symbol: "tv_showSymbolLabel view \<longrightarrow> \<bar>of_int (tv_symbolOffsetY view)\<bar> \<le> h / 2"
    using shown(1,2) by (auto split: if_splits)
  have "\<bar>tv_stockNameOffsetY view\<bar> \<le> 11"
    unfolding offsets using sn math_round_bounds [of "of_int (tv_stockNameFontSize view) * 11 / 10" 11] by (auto simp: max_def)
  then have "\<bar>of_int (tv_stockNameOffsetY view)\<bar> \<le> (11 :: rat)" by (simp flip: of_int_abs)
  then have stock: "tv_showStockNameLabel view \<longrightarrow> \<bar>of_int (tv_stockNameOffsetY view)\<bar> \<le> h / 2"
    using shown(2) by auto
  have contribution: "\<bar>of_int (tv_contributionOffsetY view)\<bar> \<le> h / 2 \<longleftrightarrow> 20 \<le> h"
  proof (cases "tv_showStockNameLabel view")
    case True
    then have "\<bar>tv_contributionOffsetY view\<bar> \<le> 16" unfolding offsets using sn by auto
    then have "\<bar>of_int (tv_contributionOffsetY view)\<bar> \<le> (16 :: rat)" by (simp flip: of_int_abs)
    then show ?thesis using True shown(2) by auto
  next
    case False
    then have "of_int (tv_contributionOffsetY view) = max 10 (of_int (tv_contributionFontSize view) :: rat)"
      unfolding offsets by (simp add: of_int_max)
    then show ?thesis using ch by (auto simp: max_def split: if_splits)
  qed
  show ?thesis
    using tile_rect_inside [OF assms(1,2)] tile_rect_apart [OF assms(1,4)] lines areas shown sn cn sy symbol stock contribution
    unfolding half_def h_def placed_def by simp
qed

theorem treemap_tiles_in_sector_witness:
  "let r = \<lparr>rc_x = 0, rc_y = 0, rc_width = 200, rc_height = 160\<rparr>; t = r\<lparr>rc_width := 100\<rparr>;
       view = tile_content (\<lambda>_. []) 2 (Some (1, r)) t True (Some 1)
   in inside (tile_rect 2 (Some (1, r)) t) (r\<lparr>rc_y := 16, rc_height := 144\<rparr>)
     \<and> tv_showStockNameLabel view \<and> tv_symbolOffsetY view < tv_stockNameOffsetY view
     \<and> \<bar>of_int (tv_contributionOffsetY view)\<bar> \<le> (72 :: rat)"
proof -
  let ?r = "\<lparr>rc_x = 0, rc_y = 0, rc_width = 200, rc_height = 160\<rparr> :: rect"
  have in_out: "16 < rc_height ?r" "inside (?r\<lparr>rc_width := 100\<rparr>) ?r" "inside (?r\<lparr>rc_x := 100, rc_width := 100\<rparr>) ?r"
    "apart (?r\<lparr>rc_width := 100\<rparr>) (?r\<lparr>rc_x := 100, rc_width := 100\<rparr>)"
    by (simp_all add: inside_def apart_def)
  have "rc_height (tile_rect 2 (Some (1, ?r)) (?r\<lparr>rc_width := 100\<rparr>)) = 144"
    by (simp add: scaled_tile(1) del: One_nat_def)
  then show ?thesis
    using treemap_tiles_in_sector [OF in_out, of "\<lambda>_. []" True "Some 1"] by (simp add: Let_def del: One_nat_def)
qed

text \<open>A tile of 40 by 19 shows its contribution half a pixel below itself.\<close>

lemma contribution_below_tile:
  "let view = tile_content (\<lambda>_. []) 2 None \<lparr>rc_x = 0, rc_y = 0, rc_width = 40, rc_height = 19\<rparr> False (Some 1)
   in tv_showContributionLabel view \<and> (19 :: rat) / 2 + of_int (tv_contributionOffsetY view) = 39 / 2"
  by (simp add: tile_content_def tile_rect_def hasSectorRoot_def font_size_def Let_def min_def floor_eq_iff)

section \<open>The historical overview\<close>

text \<open>The event shown after the effect, for the ids of the registry.\<close>

definition event_after :: "string \<Rightarrow> string list \<Rightarrow> string" where
  "event_after eventId options =
     (if eventId = ''all'' \<or> options = [] then eventId else if eventId \<in> set options then eventId else hd options)"

definition select_values :: "string list \<Rightarrow> string list" where
  "select_values options = (if options = [] then [''__none__''] else ''all'' # options)"

definition select_value :: "string \<Rightarrow> string list \<Rightarrow> string" where
  "select_value eventId options = (if options \<noteq> [] then eventId else ''__none__'')"

definition apiStatus :: "js_error option \<Rightarrow> js_error option \<Rightarrow> int option" where
  "apiStatus statsError eventsError =
     (case (case statsError of Some e \<Rightarrow> Some e | None \<Rightarrow> eventsError) of
        Some (ApiError _ status) \<Rightarrow> Some status
      | _ \<Rightarrow> None)"

definition api_alert :: "js_error option \<Rightarrow> js_error option \<Rightarrow> bool" where
  "api_alert statsError eventsError \<longleftrightarrow> (case apiStatus statsError eventsError of Some status \<Rightarrow> 400 \<le> status | None \<Rightarrow> False)"

definition eventProbabilityData :: "rat \<Rightarrow> rat \<Rightarrow> rat \<Rightarrow> (string \<times> rat \<times> string) list" where
  "eventProbabilityData up flat down =
     [(''analytics.event.up'', to_fixed 1 (up * 100), ''#ef4444''),
      (''analytics.event.flat'', to_fixed 1 (flat * 100), ''#9ca3af''),
      (''analytics.event.down'', to_fixed 1 (down * 100), ''#22c55e'')]"

text \<open>The select always shows one of its values.\<close>

lemma event_shown: "select_value (event_after eventId options) options \<in> set (select_values options)"
  by (auto simp: select_value_def event_after_def select_values_def)

text \<open>The three shares of an event differ from a whole by their rounding only.\<close>

lemma shares_near_whole:
  assumes "up + flat + down = 1"
  shows "\<bar>sum_list (map (fst \<circ> snd) (eventProbabilityData up flat down)) - 100\<bar> \<le> 3 / 20"
proof -
  have near: "p * 100 - 1 / 20 \<le> to_fixed 1 (p * 100)" "to_fixed 1 (p * 100) \<le> p * 100 + 1 / 20" for p
    using to_fixed_error [of 1 "p * 100"] unfolding abs_le_iff power_one_right by linarith+
  have "\<bar>a + (b + c) - 100\<bar> \<le> 3 / 20"
    if "up * 100 - 1 / 20 \<le> a" "a \<le> up * 100 + 1 / 20" "flat * 100 - 1 / 20 \<le> b" "b \<le> flat * 100 + 1 / 20"
      "down * 100 - 1 / 20 \<le> c" "c \<le> down * 100 + 1 / 20" for a b c :: rat
    using that assms unfolding abs_le_iff by linarith
  from this [OF near(1) near(2) near(1) near(2) near(1) near(2)] show ?thesis
    by (simp only: eventProbabilityData_def list.map comp_def fst_conv snd_conv sum_list.Cons sum_list.Nil add_0_right)
qed

text \<open>
  A failure that is not an answer of the server is not reported: the page shows its empty panel.
\<close>

lemma network_failure_silent: "\<not> api_alert (Some (OtherError m)) eventsError"
  by (simp add: api_alert_def apiStatus_def)

end
