(* ===== verification/SessionGate.thy ===== *)
theory SessionGate
  imports TaipeiClock
begin

text \<open>
  The session gate of the realtime stream: \<open>toEpochMs\<close> and \<open>shouldApplyDashboardSseEvent\<close>
  of \<open>features/realtime/services/realtime-manager.ts\<close>. An event with a timestamp is let
  through when the timestamp lies between nine o'clock and a quarter to two of its own Taipei
  day. The gate threads the one-entry cache of the session bounds; the facts below are that
  the cache is unobservable and that on dates of the present era the gate is the arithmetic
  test \<open>in_session\<close>. A timestamp no \<open>Date\<close> can hold makes the gate throw (None).
\<close>

section \<open>The gate\<close>

definition toEpochMs :: "(string \<Rightarrow> jsnum) \<Rightarrow> jsval \<Rightarrow> rat option" where
  "toEpochMs legacy raw =
     (case raw of
        Num x \<Rightarrow> (case x of Fin r \<Rightarrow> Some r | _ \<Rightarrow> None)
      | Str s \<Rightarrow>
          if trim s \<noteq> [] then (case date_parse legacy s of Fin r \<Rightarrow> Some r | _ \<Rightarrow> None) else None
      | _ \<Rightarrow> None)"

text \<open>\<open>a ?? b\<close> on values that may be \<open>null\<close>.\<close>

definition or_else :: "'a option \<Rightarrow> 'a option \<Rightarrow> 'a option" where
  "or_else a b = (case a of None \<Rightarrow> b | Some x \<Rightarrow> Some x)"

lemma or_else_simps [simp]: "or_else None b = b" "or_else (Some x) b = Some x"
  by (simp_all add: or_else_def)

text \<open>\<open>items[items.length - 1]\<close> with \<open>items = Array.isArray(v) ? v : []\<close>\<close>

definition last_item :: "jsval \<Rightarrow> jsval" where
  "last_item v = (case v of Arr _ xs \<Rightarrow> if xs = [] then Undef else last xs | _ \<Rightarrow> Undef)"

text \<open>The chain of \<open>if\<close>s that picks the timestamp of an event.\<close>

definition event_time :: "(string \<Rightarrow> jsnum) \<Rightarrow> string \<Rightarrow> jsval \<Rightarrow> rat option" where
  "event_time legacy eventName payload =
     (if eventName = ''kbar_current'' then toEpochMs legacy (js_get payload ''minute_ts'')
      else if eventName = ''metric_latest'' then
        or_else (toEpochMs legacy (js_get payload ''ts'')) (toEpochMs legacy (js_get payload ''event_ts''))
      else if eventName = ''market_summary_latest'' then
        or_else (toEpochMs legacy (js_get payload ''minute_ts'')) (toEpochMs legacy (js_get payload ''event_ts''))
      else if eventName = ''otc_summary_latest'' then
        or_else (toEpochMs legacy (js_get payload ''minute_ts'')) (toEpochMs legacy (js_get payload ''event_ts''))
      else if eventName = ''index_contrib_ranking'' then toEpochMs legacy (js_get payload ''ts'')
      else if eventName = ''index_contrib_sector'' then toEpochMs legacy (js_get payload ''ts'')
      else if eventName = ''spot_latest_list'' then toEpochMs legacy (js_get payload ''ts'')
      else if eventName = ''spot_market_distribution_latest'' then toEpochMs legacy (js_get payload ''ts'')
      else if eventName = ''spot_market_distribution_series'' then
        toEpochMs legacy (js_get (last_item (js_get payload ''items'')) ''ts'')
      else if eventName = ''quote_latest'' then
        or_else (toEpochMs legacy (js_get payload ''event_ts'')) (toEpochMs legacy (js_get payload ''ts''))
      else None)"

definition within_bounds :: "session_bounds \<Rightarrow> rat \<Rightarrow> bool" where
  "within_bounds b tsMs \<longleftrightarrow> num_le (startMs b) (Fin tsMs) \<and> num_le (Fin tsMs) (endMs b)"

text \<open>\<open>shouldApplyDashboardSseEvent\<close>: the answer and the cache, or None when it throws.\<close>

definition shouldApplyDashboardSseEvent ::
  "(string \<Rightarrow> jsnum) \<Rightarrow> session_cache \<Rightarrow> string \<Rightarrow> jsval \<Rightarrow> (bool \<times> session_cache) option" where
  "shouldApplyDashboardSseEvent legacy cache eventName data =
     (if eventName = ''heartbeat'' then Some (True, cache)
      else if eventName = ''index_contrib_ranking'' \<or> eventName = ''index_contrib_sector''
        then Some (True, cache)
      else if \<not> is_object data then Some (False, cache)
      else (case event_time legacy eventName data of
          None \<Rightarrow> Some (False, cache)
        | Some tsMs \<Rightarrow>
            (case resolveSessionBoundsForTs legacy cache tsMs of
               None \<Rightarrow> None
             | Some (b, cache') \<Rightarrow> Some (within_bounds b tsMs, cache'))))"

section \<open>The cache cannot be observed\<close>

definition ungated :: "string \<Rightarrow> bool" where
  "ungated ev \<longleftrightarrow> ev \<in> {''heartbeat'', ''index_contrib_ranking'', ''index_contrib_sector''}"

text \<open>The gate without a cache: the bounds are computed afresh for every event.\<close>

definition gate :: "(string \<Rightarrow> jsnum) \<Rightarrow> string \<Rightarrow> jsval \<Rightarrow> bool option" where
  "gate legacy ev data =
     (if ungated ev then Some True
      else if \<not> is_object data then Some False
      else (case event_time legacy ev data of
          None \<Rightarrow> Some False
        | Some tsMs \<Rightarrow> map_option (\<lambda>b. within_bounds b tsMs) (fresh_bounds legacy tsMs)))"

lemma gate_cached:
  assumes "cache_ok legacy cache"
  shows "map_option fst (shouldApplyDashboardSseEvent legacy cache ev data) = gate legacy ev data"
proof (cases "event_time legacy ev data")
  case None
  then show ?thesis
    by (auto simp: shouldApplyDashboardSseEvent_def gate_def ungated_def)
next
  case (Some tsMs)
  note b = session_bounds_cached (1) [OF assms, of tsMs]
  show ?thesis
  proof (cases "resolveSessionBoundsForTs legacy cache tsMs")
    case None
    then show ?thesis
      using Some b by (auto simp: shouldApplyDashboardSseEvent_def gate_def ungated_def)
  next
    case (Some bc)
    then have "fresh_bounds legacy tsMs = Some (fst bc)" using b by simp
    then show ?thesis
      using Some \<open>event_time legacy ev data = Some tsMs\<close>
      by (cases bc) (auto simp: shouldApplyDashboardSseEvent_def gate_def ungated_def)
  qed
qed

lemma gate_cache_ok [inv_intros]:
  assumes "cache_ok legacy cache"
    and "shouldApplyDashboardSseEvent legacy cache ev data = Some (ok, cache')"
  shows "cache_ok legacy cache'"
proof (cases "event_time legacy ev data")
  case None
  then show ?thesis
    using assms by (simp add: shouldApplyDashboardSseEvent_def split: if_splits)
next
  case (Some tsMs)
  then show ?thesis
    using assms session_bounds_cached (2) [OF assms(1), of tsMs]
    by (auto simp: shouldApplyDashboardSseEvent_def split: if_splits option.splits)
qed

text \<open>
  The gate in front of a sequence of events. A throw leaves the cache as it was and the next
  event (of the next stream) meets it there.
\<close>

fun gate_sequence ::
  "(string \<Rightarrow> jsnum) \<Rightarrow> session_cache \<Rightarrow> (string \<times> jsval) list \<Rightarrow> bool option list" where
  "gate_sequence legacy cache [] = []"
| "gate_sequence legacy cache ((ev, d) # es) =
     (case shouldApplyDashboardSseEvent legacy cache ev d of
        None \<Rightarrow> None # gate_sequence legacy cache es
      | Some (ok, cache') \<Rightarrow> Some ok # gate_sequence legacy cache' es)"

lemma gate_sequence_cached:
  assumes "cache_ok legacy cache"
  shows "gate_sequence legacy cache es = map (\<lambda>(ev, d). gate legacy ev d) es"
  using assms
proof (induction es arbitrary: cache)
  case Nil
  then show ?case by simp
next
  case (Cons e es)
  obtain ev d where e: "e = (ev, d)" by (cases e)
  note g = gate_cached [OF Cons.prems, of ev d] and k = gate_cache_ok [OF Cons.prems, of ev d]
  show ?case
    using Cons.IH [OF Cons.prems] Cons.IH [OF k] g e
    by (auto split: option.splits)
qed

section \<open>The gate is the session test\<close>

lemma gate_in_session:
  assumes "\<not> ungated ev" and "is_object d" and "event_time legacy ev d = Some ts" and "modern_ts ts"
  shows "gate legacy ev d = Some (in_session ts)"
proof -
  obtain a b where "fresh_bounds legacy ts = Some \<lparr>startMs = Fin a, endMs = Fin b\<rparr>"
    and "a \<le> ts \<and> ts \<le> b \<longleftrightarrow> in_session ts"
    by (rule fresh_bounds_modern [OF assms(4), of legacy])
  then show ?thesis
    using assms(1-3) by (simp add: gate_def within_bounds_def)
qed

lemma gate_throws_iff:
  "gate legacy ev d = None \<longleftrightarrow>
     \<not> ungated ev \<and> is_object d \<and> (\<exists>ts. event_time legacy ev d = Some ts \<and> \<bar>ts\<bar> > 8640000000000000)"
  by (auto simp: gate_def fresh_bounds_def resolveTaipeiDatePart_def time_clip_def split: option.splits)

section \<open>Properties\<close>

text \<open>
  No history in the gate: starting from an empty cache, the answers of
  \<open>shouldApplyDashboardSseEvent\<close> over any sequence of events (throws included) are, event by
  event, those of a gate that computes the session bounds afresh each time.
\<close>

theorem gate_history_free:
  "gate_sequence legacy empty_session_cache es = map (\<lambda>(ev, d). gate legacy ev d) es"
  by (rule gate_sequence_cached) simp

text \<open>
  C14. The gate is the trading session: whatever the cache holds, an event of a gated kind
  whose timestamp is a present-era instant passes exactly when the Taipei wall clock at that
  instant shows between 09:00:00.000 and 13:45:00.000.
\<close>

theorem gate_is_session:
  assumes "cache_ok legacy cache"
    and "\<not> ungated ev" and "is_object d" and "event_time legacy ev d = Some ts" and "modern_ts ts"
  shows "map_option fst (shouldApplyDashboardSseEvent legacy cache ev d) = Some (in_session ts)"
  using gate_cached [OF assms(1)] gate_in_session [OF assms(2-5)] by simp

theorem gate_is_session_witness:
  "map_option fst (shouldApplyDashboardSseEvent (\<lambda>_. NaN) empty_session_cache ''kbar_current''
      (Obj 0 [(''code'', Str ''TXFE6''), (''minute_ts'', Num (Fin 1714525200000))]))
    = Some True"
proof -
  have "in_session 1714525200000"
    by (simp add: in_session_def taipei_time_of_day_def taipei_offset_def day_ms_def
        session_open_def session_close_def floor_divide_of_int_eq [of 1714554000000 86400000, simplified])
  then show ?thesis
    using gate_is_session [of "\<lambda>_. NaN" empty_session_cache "''kbar_current''"
        "Obj 0 [(''code'', Str ''TXFE6''), (''minute_ts'', Num (Fin 1714525200000))]" 1714525200000]
    by (simp add: ungated_def event_time_def toEpochMs_def)
qed

text \<open>
  When the gate throws: exactly for a gated event whose timestamp lies further than
  \<open>8.64e15\<close> milliseconds from the epoch, where \<open>Intl.DateTimeFormat.format\<close> raises a
  \<open>RangeError\<close>; nothing catches it inside the gate.
\<close>

theorem gate_throws:
  "gate_sequence legacy empty_session_cache [(ev, d)] = [None] \<longleftrightarrow>
     \<not> ungated ev \<and> is_object d \<and> (\<exists>ts. event_time legacy ev d = Some ts \<and> \<bar>ts\<bar> > 8640000000000000)"
  unfolding gate_throws_iff [symmetric] by (simp add: gate_sequence_cached del: gate_sequence.simps)

end
