(* ===== verification/SseBatch.thy ===== *)
theory SseBatch
  imports SseFraming SessionGate ServingSchemas RealtimeStore
begin

text \<open>
  From frames to batches: \<open>collectServingSseEvent\<close>, the loop of \<open>stream\<close> over the frames of
  one chunk, and the pending batch of \<open>RealtimeManager\<close> (\<open>mergeIntoPendingBatch\<close>,
  \<open>flushPendingBatch\<close>), of \<open>features/realtime/services/realtime-manager.ts\<close>.

  What the code calls and does not define is bundled in a record: \<open>JSON.parse\<close> (whose first
  argument stands for the moment of the call, so that two calls may return different
  objects), \<open>safeParse\<close>, \<open>Date.parse\<close> on strings out of the standard format, and \<open>String\<close> on
  numbers and objects.
\<close>

record js_env =
  json_parse :: "nat \<Rightarrow> string \<Rightarrow> jsval option"
  zod :: "schema \<Rightarrow> jsval \<Rightarrow> jsval option"
  legacy_date :: "string \<Rightarrow> jsnum"
  show_value :: "jsval \<Rightarrow> string"

section \<open>Collecting an event\<close>

definition DEFAULT_STREAM_CODE :: string where "DEFAULT_STREAM_CODE = ''TXFE6''"
definition DEFAULT_OTC_CODE :: string where "DEFAULT_OTC_CODE = ''OTC001''"

text \<open>The loop that looks for the code of the most recent k-bar in the store.\<close>

definition kbar_time :: "jsval \<Rightarrow> jsval" where
  "kbar_time v = js_coalesce (js_coalesce (js_get v ''ts'') (js_get v ''minute_ts'')) (Num (Fin 0))"

definition newest_step :: "string \<times> jsval \<Rightarrow> jsnum \<times> string \<Rightarrow> jsnum \<times> string" where
  "newest_step kv acc =
     (case kv of (k, v) \<Rightarrow> case acc of (latestTs, code) \<Rightarrow>
        (case kbar_time v of
           Num ts \<Rightarrow> if num_lt latestTs ts then (ts, k) else (latestTs, code)
         | _ \<Rightarrow> (latestTs, code)))"

definition latest_kbar_code :: "(string, jsval) dict \<Rightarrow> string \<Rightarrow> string" where
  "latest_kbar_code kbarMap fallback = snd (fold newest_step (object_entries kbarMap) (NInf, fallback))"

definition map_put ::
  "(string, jsval) dict option \<Rightarrow> string \<Rightarrow> jsval \<Rightarrow> (string, jsval) dict option" where
  "map_put m code v = Some (dict_set (case m of None \<Rightarrow> [] | Some d \<Rightarrow> d) code v)"

text \<open>The branches of \<open>collectServingSseEvent\<close> for events filed under a code.\<close>

definition collect_metric :: "js_env \<Rightarrow> (string, jsval) dict \<Rightarrow> jsval \<Rightarrow> sse_batch \<Rightarrow> sse_batch" where
  "collect_metric env kbarMap dat b =
     (case zod env MetricLatestSchema dat of
        None \<Rightarrow> b
      | Some v \<Rightarrow>
          (let fallbackCode = latest_kbar_code kbarMap DEFAULT_STREAM_CODE;
               payloadCode = (case js_get dat ''code'' of
                 Str c \<Rightarrow> if c \<noteq> [] then c else fallbackCode | _ \<Rightarrow> fallbackCode)
           in b\<lparr>b_metricLatestMap := map_put (b_metricLatestMap b) payloadCode v\<rparr>))"

definition collect_market :: "js_env \<Rightarrow> (string, jsval) dict \<Rightarrow> jsval \<Rightarrow> sse_batch \<Rightarrow> sse_batch" where
  "collect_market env kbarMap dat b =
     (case zod env MarketSummaryLatestSchema dat of
        None \<Rightarrow> b
      | Some v \<Rightarrow>
          (let fallbackCode = latest_kbar_code kbarMap DEFAULT_STREAM_CODE;
               payloadCode =
                 (if truthy (js_get v ''code'') then to_key (show_value env) (js_get v ''code'')
                  else if truthy (js_get v ''market_code'')
                  then to_key (show_value env) (js_get v ''market_code'')
                  else fallbackCode)
           in b\<lparr>b_marketSummaryMap := map_put (b_marketSummaryMap b) payloadCode v\<rparr>))"

definition collect_otc :: "js_env \<Rightarrow> (string, jsval) dict \<Rightarrow> jsval \<Rightarrow> sse_batch \<Rightarrow> sse_batch" where
  "collect_otc env kbarMap dat b =
     (case zod env OtcSummaryLatestSchema dat of
        None \<Rightarrow> b
      | Some v \<Rightarrow>
          (let payloadCode = (case nonblank_str (js_get v ''code'') of
                 Some c \<Rightarrow> c | None \<Rightarrow> latest_kbar_code kbarMap DEFAULT_OTC_CODE)
           in b\<lparr>b_otcSummaryMap := map_put (b_otcSummaryMap b) payloadCode v\<rparr>))"

definition collect_quote :: "js_env \<Rightarrow> (string, jsval) dict \<Rightarrow> jsval \<Rightarrow> sse_batch \<Rightarrow> sse_batch" where
  "collect_quote env kbarMap dat b =
     (case zod env QuoteLatestSchema dat of
        None \<Rightarrow> b
      | Some v \<Rightarrow>
          (let fallbackCode = latest_kbar_code kbarMap DEFAULT_STREAM_CODE;
               payloadCode = (if truthy (js_get v ''code'') then to_key (show_value env) (js_get v ''code'')
                              else fallbackCode)
           in b\<lparr>b_quoteLatestMap := map_put (b_quoteLatestMap b) payloadCode v\<rparr>))"

definition collect_with ::
  "js_env \<Rightarrow> schema \<Rightarrow> (jsval \<Rightarrow> sse_batch \<Rightarrow> sse_batch) \<Rightarrow> jsval \<Rightarrow> sse_batch \<Rightarrow> sse_batch" where
  "collect_with env s put dat b = (case zod env s dat of None \<Rightarrow> b | Some v \<Rightarrow> put v b)"

definition collectServingSseEvent ::
  "js_env \<Rightarrow> (string, jsval) dict \<Rightarrow> string \<Rightarrow> jsval \<Rightarrow> sse_batch \<Rightarrow> sse_batch" where
  "collectServingSseEvent env kbarMap eventName dat b =
     (if eventName = ''kbar_current'' then
        collect_with env KbarCurrentSchema (\<lambda>v. b_kbarCurrent_update (\<lambda>_. v)) dat b
      else if eventName = ''metric_latest'' then collect_metric env kbarMap dat b
      else if eventName = ''market_summary_latest'' then collect_market env kbarMap dat b
      else if eventName = ''heartbeat'' then
        collect_with env HeartbeatSchema (\<lambda>v. b_heartbeatTs_update (\<lambda>_. js_get v ''ts'')) dat b
      else if eventName = ''index_contrib_ranking'' then
        collect_with env IndexContributionRankingSchema (\<lambda>v. b_indexContribRanking_update (\<lambda>_. v)) dat b
      else if eventName = ''index_contrib_sector'' then
        collect_with env IndexContributionSectorSchema
          (\<lambda>v b. b\<lparr>b_indexContribSector := v, b_heartbeatTs := js_get v ''ts''\<rparr>) dat b
      else if eventName = ''spot_latest_list'' then
        collect_with env SpotLatestListSchema (\<lambda>v. b_spotLatestList_update (\<lambda>_. v)) dat b
      else if eventName = ''spot_market_distribution_latest'' then
        collect_with env SpotMarketDistributionLatestSchema
          (\<lambda>v. b_spotMarketDistributionLatest_update (\<lambda>_. v)) dat b
      else if eventName = ''spot_market_distribution_series'' then
        collect_with env SpotMarketDistributionSeriesSchema
          (\<lambda>v. b_spotMarketDistributionSeries_update (\<lambda>_. v)) dat b
      else if eventName = ''otc_summary_latest'' then collect_otc env kbarMap dat b
      else if eventName = ''quote_latest'' then collect_quote env kbarMap dat b
      else b)"

text \<open>\<open>applyServingSseEvent\<close>: one event straight to the store. None when it throws.\<close>

definition applyServingSseEvent ::
  "js_env \<Rightarrow> session_cache \<Rightarrow> string \<Rightarrow> jsval \<Rightarrow> rt_state \<Rightarrow> (session_cache \<times> rt_state) option" where
  "applyServingSseEvent env cache eventName dat st =
     (case shouldApplyDashboardSseEvent (legacy_date env) cache eventName dat of
        None \<Rightarrow> None
      | Some (ok, cache') \<Rightarrow>
          if \<not> ok then Some (cache', st)
          else map_option (\<lambda>(st', _). (cache', st'))
            (applySseBatch (show_value env)
              (collectServingSseEvent env (kbarCurrentByCode st) eventName dat empty_batch) st))"

section \<open>The frames of a chunk\<close>

text \<open>
  The loop over the frames of one chunk: the cache of the gate, the number of \<open>JSON.parse\<close>
  calls made so far, the batch, and whether a frame was collected (\<open>processedAny\<close>). The flag
  of the result is False when the gate throws; the batch of the chunk is lost then.
\<close>

record frame_loop =
  fl_cache :: session_cache
  fl_tick :: nat
  fl_batch :: sse_batch
  fl_processed :: bool

definition frame_step ::
  "js_env \<Rightarrow> (string, jsval) dict \<Rightarrow> string \<Rightarrow> frame_loop \<Rightarrow> frame_loop option" where
  "frame_step env kbarMap frame s =
     (case parseSseFrame frame of parsed \<Rightarrow>
        (case (event parsed, data parsed) of
           (Some ev, Some d) \<Rightarrow>
             if ev = [] \<or> d = [] then Some s
             else
               (case json_parse env (fl_tick s) d of
                  None \<Rightarrow> Some (s\<lparr>fl_tick := fl_tick s + 1\<rparr>)
                | Some payload \<Rightarrow>
                    (case shouldApplyDashboardSseEvent (legacy_date env) (fl_cache s) ev payload of
                       None \<Rightarrow> None
                     | Some (ok, cache') \<Rightarrow>
                         if \<not> ok then Some (s\<lparr>fl_tick := fl_tick s + 1, fl_cache := cache'\<rparr>)
                         else Some (s\<lparr>fl_tick := fl_tick s + 1, fl_cache := cache',
                           fl_batch := collectServingSseEvent env kbarMap ev payload (fl_batch s),
                           fl_processed := True\<rparr>)))
         | _ \<Rightarrow> Some s))"

fun frames_loop ::
  "js_env \<Rightarrow> (string, jsval) dict \<Rightarrow> string list \<Rightarrow> frame_loop \<Rightarrow> frame_loop \<times> bool" where
  "frames_loop env kbarMap [] s = (s, True)"
| "frames_loop env kbarMap (f # fs) s =
     (case frame_step env kbarMap f s of
        None \<Rightarrow> (s\<lparr>fl_tick := fl_tick s + 1\<rparr>, False)
      | Some s' \<Rightarrow> frames_loop env kbarMap fs s')"

section \<open>The pending batch\<close>

definition hasMapEntries :: "(string, jsval) dict option \<Rightarrow> bool" where
  "hasMapEntries m = (case m of None \<Rightarrow> False | Some d \<Rightarrow> d \<noteq> [])"

definition is_num :: "jsval \<Rightarrow> bool" where
  "is_num v = (case v of Num _ \<Rightarrow> True | _ \<Rightarrow> False)"

definition batch_is_empty :: "sse_batch \<Rightarrow> bool" where
  "batch_is_empty b \<longleftrightarrow>
     \<not> truthy (b_kbarCurrent b) \<and> \<not> hasMapEntries (b_metricLatestMap b)
     \<and> \<not> hasMapEntries (b_marketSummaryMap b) \<and> \<not> hasMapEntries (b_otcSummaryMap b)
     \<and> \<not> hasMapEntries (b_quoteLatestMap b) \<and> \<not> truthy (b_spotLatestList b)
     \<and> \<not> truthy (b_spotMarketDistributionLatest b) \<and> \<not> truthy (b_spotMarketDistributionSeries b)
     \<and> b_indexContribRanking b = Undef \<and> b_indexContribSector b = Undef \<and> \<not> is_num (b_heartbeatTs b)"

definition merge_map ::
  "(string, jsval) dict option \<Rightarrow> (string, jsval) dict option \<Rightarrow> (string, jsval) dict option" where
  "merge_map target incoming =
     (case incoming of None \<Rightarrow> target
      | Some m \<Rightarrow> (case target of None \<Rightarrow> Some m | Some t \<Rightarrow> Some (dict_assign t m)))"

definition merge_batch :: "sse_batch \<Rightarrow> sse_batch \<Rightarrow> sse_batch" where
  "merge_batch target incoming =
     target\<lparr>b_kbarCurrent := if truthy (b_kbarCurrent incoming) then b_kbarCurrent incoming else b_kbarCurrent target,
       b_heartbeatTs := if is_num (b_heartbeatTs incoming) then b_heartbeatTs incoming else b_heartbeatTs target,
       b_spotLatestList := if truthy (b_spotLatestList incoming) then b_spotLatestList incoming
         else b_spotLatestList target,
       b_spotMarketDistributionLatest := if truthy (b_spotMarketDistributionLatest incoming)
         then b_spotMarketDistributionLatest incoming else b_spotMarketDistributionLatest target,
       b_spotMarketDistributionSeries := if truthy (b_spotMarketDistributionSeries incoming)
         then b_spotMarketDistributionSeries incoming else b_spotMarketDistributionSeries target,
       b_indexContribRanking := if b_indexContribRanking incoming \<noteq> Undef then b_indexContribRanking incoming
         else b_indexContribRanking target,
       b_indexContribSector := if b_indexContribSector incoming \<noteq> Undef then b_indexContribSector incoming
         else b_indexContribSector target,
       b_metricLatestMap := merge_map (b_metricLatestMap target) (b_metricLatestMap incoming),
       b_marketSummaryMap := merge_map (b_marketSummaryMap target) (b_marketSummaryMap incoming),
       b_otcSummaryMap := merge_map (b_otcSummaryMap target) (b_otcSummaryMap incoming),
       b_quoteLatestMap := merge_map (b_quoteLatestMap target) (b_quoteLatestMap incoming)\<rparr>"

text \<open>
  \<open>mergeIntoPendingBatch\<close> on the pending batch and the flag that its timer is armed, and
  \<open>flushPendingBatch\<close>, whose second result is the batch to apply, if any.
\<close>

record pending =
  pendingBatch :: "sse_batch option"
  pendingBatchTimer :: bool

definition mergeIntoPendingBatch :: "sse_batch \<Rightarrow> pending \<Rightarrow> pending" where
  "mergeIntoPendingBatch incoming p =
     (if batch_is_empty incoming then p
      else (case pendingBatch p of
          None \<Rightarrow> \<lparr>pendingBatch = Some incoming, pendingBatchTimer = True\<rparr>
        | Some target \<Rightarrow> \<lparr>pendingBatch = Some (merge_batch target incoming), pendingBatchTimer = True\<rparr>))"

definition flushPendingBatch :: "pending \<Rightarrow> pending \<times> sse_batch option" where
  "flushPendingBatch p =
     (\<lparr>pendingBatch = None, pendingBatchTimer = False\<rparr>,
      case pendingBatch p of None \<Rightarrow> None
      | Some b \<Rightarrow> if \<not> batch_is_empty b then Some b else None)"

definition no_pending :: pending where
  "no_pending = \<lparr>pendingBatch = None, pendingBatchTimer = False\<rparr>"

end
