(* ===== verification/BatchLaws.thy ===== *)
theory BatchLaws
  imports SseBatch
begin

text \<open>
  What a batch window preserves. \<open>coalescing\<close> is the contract of a merge whose later argument
  wins, field by field; the batches of the stream satisfy it for each keyed map and for each
  single-valued field, so that after any number of merges a flush hands over, for every field
  and key, the last value that was merged. Also here: what the collector does with an event,
  and the search for the code of the newest k-bar.
\<close>

section \<open>Coalescing\<close>

text \<open>The last value a sequence has for a key.\<close>

fun latest_of :: "('b \<Rightarrow> 'k \<Rightarrow> 'v option) \<Rightarrow> 'b list \<Rightarrow> 'k \<Rightarrow> 'v option" where
  "latest_of look [] k = None"
| "latest_of look (b # bs) k =
     (case latest_of look bs k of Some v \<Rightarrow> Some v | None \<Rightarrow> look b k)"

lemma latest_of_filter:
  "(\<And>b. b \<in> set bs \<Longrightarrow> \<not> P b \<Longrightarrow> look b k = None) \<Longrightarrow> latest_of look (filter P bs) k = latest_of look bs k"
  by (induction bs) (auto split: option.splits)

lemma latest_of_append:
  "latest_of look (bs @ cs) k = or_else (latest_of look cs k) (latest_of look bs k)"
  by (induction bs) (auto simp: or_else_def split: option.splits)

locale coalescing =
  fixes look :: "'b \<Rightarrow> 'k \<Rightarrow> 'v option"
    and merge :: "'b \<Rightarrow> 'b \<Rightarrow> 'b"
    and ok :: "'b \<Rightarrow> bool"
  assumes look_merge: "ok b \<Longrightarrow> look (merge a b) k = or_else (look b k) (look a k)"
begin

lemma look_foldl:
  "\<forall>b \<in> set bs. ok b \<Longrightarrow> look (foldl merge a bs) k = or_else (latest_of look bs k) (look a k)"
proof (induction bs arbitrary: a)
  case Nil
  then show ?case by simp
next
  case (Cons b bs)
  then show ?case
    using look_merge [of b a k] by (auto simp: or_else_def split: option.splits)
qed

lemma look_foldl_Cons:
  "\<forall>b \<in> set bs. ok b \<Longrightarrow> look (foldl merge b bs) k = latest_of look (b # bs) k"
  using look_foldl [of bs b k] by (simp add: or_else_def split: option.splits)

end

section \<open>The fields of a batch\<close>

datatype map_field = Metric | Market | Otc | Quote

fun keyed :: "map_field \<Rightarrow> sse_batch \<Rightarrow> (string, jsval) dict option" where
  "keyed Metric b = b_metricLatestMap b"
| "keyed Market b = b_marketSummaryMap b"
| "keyed Otc b = b_otcSummaryMap b"
| "keyed Quote b = b_quoteLatestMap b"

definition map_entry :: "map_field \<Rightarrow> sse_batch \<Rightarrow> string \<Rightarrow> jsval option" where
  "map_entry f b k = (case keyed f b of None \<Rightarrow> None | Some d \<Rightarrow> dict_get d k)"

datatype value_field = F_kbar | F_beat | F_list | F_latest | F_series | F_ranking | F_sector

definition present_if :: "bool \<Rightarrow> jsval \<Rightarrow> jsval option" where
  "present_if c v = (if c then Some v else None)"

fun field_value :: "value_field \<Rightarrow> sse_batch \<Rightarrow> unit \<Rightarrow> jsval option" where
  "field_value F_kbar b _ = present_if (truthy (b_kbarCurrent b)) (b_kbarCurrent b)"
| "field_value F_beat b _ = present_if (is_num (b_heartbeatTs b)) (b_heartbeatTs b)"
| "field_value F_list b _ = present_if (truthy (b_spotLatestList b)) (b_spotLatestList b)"
| "field_value F_latest b _ =
     present_if (truthy (b_spotMarketDistributionLatest b)) (b_spotMarketDistributionLatest b)"
| "field_value F_series b _ =
     present_if (truthy (b_spotMarketDistributionSeries b)) (b_spotMarketDistributionSeries b)"
| "field_value F_ranking b _ = present_if (b_indexContribRanking b \<noteq> Undef) (b_indexContribRanking b)"
| "field_value F_sector b _ = present_if (b_indexContribSector b \<noteq> Undef) (b_indexContribSector b)"

definition maps_wf :: "sse_batch \<Rightarrow> bool" where
  "maps_wf b \<longleftrightarrow> (\<forall>f \<in> {Metric, Market, Otc, Quote}. case keyed f b of None \<Rightarrow> True | Some d \<Rightarrow> dict_wf d)"

lemma maps_wf_keyed: "maps_wf b \<Longrightarrow> keyed f b = Some d \<Longrightarrow> dict_wf d"
  by (cases f) (auto simp: maps_wf_def split: option.splits)

lemma keyed_merge [simp]: "keyed f (merge_batch a b) = merge_map (keyed f a) (keyed f b)"
  by (cases f) (simp_all add: merge_batch_def)

lemma map_entry_merge:
  assumes "maps_wf b"
  shows "map_entry f (merge_batch a b) k = or_else (map_entry f b k) (map_entry f a k)"
proof (cases "keyed f b")
  case None
  then show ?thesis by (simp add: map_entry_def merge_map_def)
next
  case (Some d)
  then have "dict_wf d" using assms by (rule maps_wf_keyed [rotated])
  then show ?thesis
    using Some by (auto simp: map_entry_def merge_map_def dict_get_assign map_add_def or_else_def
        split: option.splits)
qed

lemma field_value_merge:
  "field_value f (merge_batch a b) u = or_else (field_value f b u) (field_value f a u)"
  by (cases f) (simp_all add: merge_batch_def present_if_def)

interpretation maps: coalescing "map_entry f" merge_batch maps_wf for f
  by unfold_locales (rule map_entry_merge)

interpretation fields: coalescing "field_value f" merge_batch "\<lambda>_. True" for f
  by unfold_locales (rule field_value_merge)

lemma empty_batch_has_nothing:
  assumes "batch_is_empty b"
  shows "map_entry f b k = None" and "field_value g b u = None"
proof -
  have "\<not> hasMapEntries (keyed f b)" using assms by (cases f) (auto simp: batch_is_empty_def)
  then show "map_entry f b k = None" by (auto simp: map_entry_def hasMapEntries_def split: option.splits)
  show "field_value g b u = None"
    using assms by (cases g) (auto simp: batch_is_empty_def present_if_def)
qed

section \<open>The window\<close>

definition merge_all :: "sse_batch list \<Rightarrow> pending \<Rightarrow> pending" where
  "merge_all bs p = foldl (\<lambda>p b. mergeIntoPendingBatch b p) p bs"

lemma merge_all_pending:
  "pendingBatch (merge_all bs p) =
     (case pendingBatch p of
        Some t \<Rightarrow> Some (foldl merge_batch t (filter (\<lambda>b. \<not> batch_is_empty b) bs))
      | None \<Rightarrow> (case filter (\<lambda>b. \<not> batch_is_empty b) bs of [] \<Rightarrow> None
          | b # bs' \<Rightarrow> Some (foldl merge_batch b bs')))"
proof (induction bs arbitrary: p)
  case Nil
  then show ?case by (simp add: merge_all_def split: option.splits)
next
  case (Cons b bs)
  have "merge_all (b # bs) p = merge_all bs (mergeIntoPendingBatch b p)" by (simp add: merge_all_def)
  then show ?case
    using Cons.IH by (auto simp: mergeIntoPendingBatch_def split: option.splits)
qed

lemma merge_not_empty: "\<not> batch_is_empty a \<Longrightarrow> \<not> batch_is_empty (merge_batch a b)"
proof -
  have "hasMapEntries m \<Longrightarrow> hasMapEntries (merge_map m m')" for m m'
  proof -
    have "dict_assign d s \<noteq> []" if "d \<noteq> []" for d s :: "(string, jsval) dict"
      using that
    proof (induction s arbitrary: d)
      case (Cons kv s)
      then show ?case by (cases kv) simp
    qed simp
    then show "hasMapEntries m \<Longrightarrow> hasMapEntries (merge_map m m')"
      by (auto simp: hasMapEntries_def merge_map_def split: option.splits)
  qed
  then show "\<not> batch_is_empty a \<Longrightarrow> \<not> batch_is_empty (merge_batch a b)"
    by (auto simp: batch_is_empty_def merge_batch_def)
qed

lemma foldl_merge_not_empty: "\<not> batch_is_empty a \<Longrightarrow> \<not> batch_is_empty (foldl merge_batch a bs)"
  by (induction bs arbitrary: a) (simp_all add: merge_not_empty)

lemma window_flush:
  assumes wf: "\<forall>b \<in> set bs. maps_wf b"
  shows "case snd (flushPendingBatch (merge_all bs no_pending)) of
      None \<Rightarrow> (\<forall>f k. latest_of (map_entry f) bs k = None) \<and> (\<forall>g u. latest_of (field_value g) bs u = None)
    | Some m \<Rightarrow> (\<forall>f k. map_entry f m k = latest_of (map_entry f) bs k)
        \<and> (\<forall>g u. field_value g m u = latest_of (field_value g) bs u)"
proof -
  let ?P = "\<lambda>b. \<not> batch_is_empty b"
  have drop: "latest_of (map_entry f) bs k = latest_of (map_entry f) (filter ?P bs) k"
    "latest_of (field_value g) bs u = latest_of (field_value g) (filter ?P bs) u" for f k g u
    by (rule latest_of_filter [symmetric]; simp add: empty_batch_has_nothing)+
  note pend = merge_all_pending [of bs no_pending]
  show ?thesis
  proof (cases "filter ?P bs")
    case Nil
    then show ?thesis using pend drop by (simp add: flushPendingBatch_def no_pending_def)
  next
    case (Cons b bs')
    then have "\<not> batch_is_empty b" and ok: "\<forall>c \<in> set bs'. maps_wf c"
      using wf by (auto dest: filter_eq_ConsD)
    then have "snd (flushPendingBatch (merge_all bs no_pending)) = Some (foldl merge_batch b bs')"
      using pend Cons foldl_merge_not_empty by (simp add: flushPendingBatch_def no_pending_def)
    then show ?thesis
      using drop Cons maps.look_foldl_Cons [OF ok] fields.look_foldl_Cons [of bs'] by simp
  qed
qed

text \<open>The timer is armed exactly while something is pending.\<close>

definition pending_ok :: "pending \<Rightarrow> bool" where
  "pending_ok p \<longleftrightarrow> (pendingBatchTimer p \<longleftrightarrow> pendingBatch p \<noteq> None)
     \<and> (\<forall>b. pendingBatch p = Some b \<longrightarrow> \<not> batch_is_empty b)"

lemma pending_ok_intros [inv_intros]:
  "pending_ok no_pending"
  "pending_ok p \<Longrightarrow> pending_ok (mergeIntoPendingBatch b p)"
  "pending_ok (fst (flushPendingBatch p))"
  by (auto simp: pending_ok_def no_pending_def mergeIntoPendingBatch_def flushPendingBatch_def
      merge_not_empty split: option.splits)

section \<open>The newest k-bar\<close>

definition finite_times :: "(string \<times> jsval) list \<Rightarrow> bool" where
  "finite_times es \<longleftrightarrow> (\<forall>(k, v) \<in> set es. \<exists>t. kbar_time v = Num (Fin t))"

fun the_fin :: "jsval \<Rightarrow> rat" where
  "the_fin (Num (Fin t)) = t"
| "the_fin _ = 0"

lemma newest_fold:
  assumes "finite_times es"
  shows "fold newest_step es (Fin m, c) =
    (if \<exists>(k, v) \<in> set es. m < the_fin (kbar_time v)
     then (Fin (Max (the_fin ` kbar_time ` snd ` set es)),
           fst (the (find (\<lambda>(k, v). the_fin (kbar_time v) = Max (the_fin ` kbar_time ` snd ` set es)) es)))
     else (Fin m, c))"
  using assms
proof (induction es arbitrary: m c)
  case Nil
  then show ?case by simp
next
  case (Cons e es)
  obtain k v where e: "e = (k, v)" by (cases e)
  from Cons.prems obtain t where t: "kbar_time v = Num (Fin t)" and fin: "finite_times es"
    by (auto simp: finite_times_def e)
  let ?M = "Max (the_fin ` kbar_time ` snd ` set es)"
  have M: "es \<noteq> [] \<Longrightarrow> (\<exists>(k, v) \<in> set es. x < the_fin (kbar_time v)) \<longleftrightarrow> x < ?M" for x
    by (subst Max_gr_iff) (auto, force)
  show ?case
  proof (cases "es = []")
    case True
    then show ?thesis by (simp add: e newest_step_def t)
  next
    case False
    have ins: "Max (the_fin ` kbar_time ` snd ` set (e # es)) = max t ?M"
      using False by (simp add: e t)
    show ?thesis
      using Cons.IH [OF fin] False M
      by (auto simp: e newest_step_def t ins max_def)
  qed
qed

text \<open>The first of the k-bars with the greatest time.\<close>

definition newest_entry :: "(string \<times> jsval) list \<Rightarrow> string" where
  "newest_entry es =
     fst (the (find (\<lambda>(k, v). the_fin (kbar_time v) = Max (the_fin ` kbar_time ` snd ` set es)) es))"

lemma latest_kbar_code_newest:
  assumes "kbars \<noteq> []" and "finite_times kbars"
  shows "latest_kbar_code kbars fallback = newest_entry (object_entries kbars)"
proof -
  have fin: "finite_times (object_entries kbars)" using assms(2) by (simp add: finite_times_def)
  have "object_entries kbars \<noteq> []" using assms(1) length_object_entries [of kbars] by force
  then obtain k v es where es: "object_entries kbars = (k, v) # es" by (metis list.exhaust surj_pair)
  from fin obtain t where t: "kbar_time v = Num (Fin t)" and fin': "finite_times es"
    by (auto simp: finite_times_def es)
  have "es \<noteq> [] \<Longrightarrow> Max (the_fin ` kbar_time ` snd ` set ((k, v) # es))
      = max t (Max (the_fin ` kbar_time ` snd ` set es))"
    by (simp add: t)
  moreover have "es \<noteq> [] \<Longrightarrow> (\<exists>(k, v) \<in> set es. t < the_fin (kbar_time v))
      \<longleftrightarrow> t < Max (the_fin ` kbar_time ` snd ` set es)"
    by (subst Max_gr_iff) (auto, force)
  ultimately show ?thesis
    by (cases "es = []")
      (auto simp: latest_kbar_code_def newest_entry_def es newest_step_def t newest_fold [OF fin'] max_def)
qed

lemma latest_kbar_code_empty [simp]: "latest_kbar_code [] fallback = fallback"
  by (simp add: latest_kbar_code_def)

section \<open>What the collector files where\<close>

lemma map_entry_put:
  "map_entry Metric (b\<lparr>b_metricLatestMap := map_put (b_metricLatestMap b) c v\<rparr>) k =
     (if k = c then Some v else map_entry Metric b k)"
  "map_entry Market (b\<lparr>b_marketSummaryMap := map_put (b_marketSummaryMap b) c v\<rparr>) k =
     (if k = c then Some v else map_entry Market b k)"
  "map_entry Otc (b\<lparr>b_otcSummaryMap := map_put (b_otcSummaryMap b) c v\<rparr>) k =
     (if k = c then Some v else map_entry Otc b k)"
  "map_entry Quote (b\<lparr>b_quoteLatestMap := map_put (b_quoteLatestMap b) c v\<rparr>) k =
     (if k = c then Some v else map_entry Quote b k)"
  by (auto simp: map_entry_def map_put_def split: option.splits)

text \<open>An event changes at most one entry of each map.\<close>

definition put_at_most :: "map_field \<Rightarrow> sse_batch \<Rightarrow> sse_batch \<Rightarrow> bool" where
  "put_at_most f b b' \<longleftrightarrow> keyed f b' = keyed f b \<or> (\<exists>c v. keyed f b' = map_put (keyed f b) c v)"

lemma put_at_most_refl [simp]: "put_at_most f b b"
  by (simp add: put_at_most_def)

lemma put_at_most_filed:
  "put_at_most f b (collect_metric env kbarMap d b)"
  "put_at_most f b (collect_market env kbarMap d b)"
  "put_at_most f b (collect_otc env kbarMap d b)"
  "put_at_most f b (collect_quote env kbarMap d b)"
  by (cases f; auto simp: put_at_most_def collect_metric_def collect_market_def collect_otc_def
      collect_quote_def Let_def split: option.split)+

lemma put_at_most_with:
  "(\<And>v. put_at_most f b (put v b)) \<Longrightarrow> put_at_most f b (collect_with env s put d b)"
  by (simp add: collect_with_def split: option.split)

lemma put_at_most_collect: "put_at_most f b (collectServingSseEvent env kbarMap ev d b)"
proof -
  have other: "put_at_most f b (b_kbarCurrent_update h b)" "put_at_most f b (b_heartbeatTs_update h b)"
    "put_at_most f b (b_indexContribRanking_update h b)"
    "put_at_most f b (b_heartbeatTs_update h (b_indexContribSector_update h' b))"
    "put_at_most f b (b_spotLatestList_update h b)"
    "put_at_most f b (b_spotMarketDistributionLatest_update h b)"
    "put_at_most f b (b_spotMarketDistributionSeries_update h b)" for h h'
    by (cases f; simp add: put_at_most_def)+
  have cases: "put_at_most f b x \<Longrightarrow> put_at_most f b y \<Longrightarrow> put_at_most f b (if c then x else y)" for c x y
    by simp
  show ?thesis
    unfolding collectServingSseEvent_def
    by (intro cases put_at_most_filed put_at_most_with other put_at_most_refl)
qed

lemma maps_wf_collect [inv_intros]:
  assumes "maps_wf b"
  shows "maps_wf (collectServingSseEvent env kbarMap ev d b)"
proof -
  have "case keyed f (collectServingSseEvent env kbarMap ev d b) of None \<Rightarrow> True | Some m \<Rightarrow> dict_wf m" for f
    using put_at_most_collect [of f b env kbarMap ev d] maps_wf_keyed [OF assms, of f]
    by (auto simp: put_at_most_def map_put_def split: option.splits)
  then show ?thesis by (simp add: maps_wf_def)
qed

lemma maps_wf_frame_step [inv_intros]:
  "maps_wf (fl_batch s) \<Longrightarrow> frame_step env kbarMap f s = Some s' \<Longrightarrow> maps_wf (fl_batch s')"
  by (auto simp: frame_step_def maps_wf_collect split: option.splits if_splits prod.splits)

lemma maps_wf_frames_loop [inv_intros]:
  "maps_wf (fl_batch s) \<Longrightarrow> maps_wf (fl_batch (fst (frames_loop env kbarMap fs s)))"
proof (induction fs arbitrary: s)
  case Nil
  then show ?case by simp
next
  case (Cons f fs)
  then show ?case by (auto simp: maps_wf_frame_step split: option.splits)
qed

lemma maps_wf_empty [simp, inv_intros]: "maps_wf empty_batch"
  by (simp add: maps_wf_def empty_batch_def)

lemma collect_uncoded:
  assumes fin: "kbars \<noteq> []" "finite_times kbars"
  shows "zod env MetricLatestSchema d = Some v \<Longrightarrow> nonempty_str (js_get d ''code'') = None \<Longrightarrow>
      map_entry Metric (collectServingSseEvent env kbars ''metric_latest'' d b) (newest_entry (object_entries kbars)) = Some v"
    and "zod env QuoteLatestSchema d = Some v \<Longrightarrow> \<not> truthy (js_get v ''code'') \<Longrightarrow>
      map_entry Quote (collectServingSseEvent env kbars ''quote_latest'' d b) (newest_entry (object_entries kbars)) = Some v"
    and "zod env OtcSummaryLatestSchema d = Some v \<Longrightarrow> nonblank_str (js_get v ''code'') = None \<Longrightarrow>
      map_entry Otc (collectServingSseEvent env kbars ''otc_summary_latest'' d b) (newest_entry (object_entries kbars)) = Some v"
proof -
  note new = latest_kbar_code_newest [OF fin]
  show "zod env MetricLatestSchema d = Some v \<Longrightarrow> nonempty_str (js_get d ''code'') = None \<Longrightarrow>
      map_entry Metric (collectServingSseEvent env kbars ''metric_latest'' d b) (newest_entry (object_entries kbars)) = Some v"
    by (cases "js_get d ''code''")
      (auto simp: collectServingSseEvent_def collect_metric_def map_entry_put new nonempty_str_def split: if_splits)
  show "zod env QuoteLatestSchema d = Some v \<Longrightarrow> \<not> truthy (js_get v ''code'') \<Longrightarrow>
      map_entry Quote (collectServingSseEvent env kbars ''quote_latest'' d b) (newest_entry (object_entries kbars)) = Some v"
    by (simp add: collectServingSseEvent_def collect_quote_def map_entry_put new)
  show "zod env OtcSummaryLatestSchema d = Some v \<Longrightarrow> nonblank_str (js_get v ''code'') = None \<Longrightarrow>
      map_entry Otc (collectServingSseEvent env kbars ''otc_summary_latest'' d b) (newest_entry (object_entries kbars)) = Some v"
    by (simp add: collectServingSseEvent_def collect_otc_def map_entry_put new)
qed

section \<open>Properties\<close>

text \<open>
  C9. Coalescing keeps the latest: merge any batches into an empty pending batch and flush.
  If nothing is handed over then no batch had a value for anything; otherwise the batch handed
  over has, for every keyed map and key and for every single-valued field, the last value any
  of the batches had for it.
\<close>

theorem window_keeps_latest:
  assumes "\<forall>b \<in> set bs. maps_wf b"
  shows "case snd (flushPendingBatch (merge_all bs no_pending)) of
      None \<Rightarrow> (\<forall>f k. latest_of (map_entry f) bs k = None) \<and> (\<forall>g u. latest_of (field_value g) bs u = None)
    | Some m \<Rightarrow> (\<forall>f k. map_entry f m k = latest_of (map_entry f) bs k)
        \<and> (\<forall>g u. field_value g m u = latest_of (field_value g) bs u)"
  using assms by (rule window_flush)

theorem window_keeps_latest_witness:
  "let bs = [empty_batch\<lparr>b_heartbeatTs := Num (Fin 1), b_quoteLatestMap := Some [(''a'', Obj 0 [])]\<rparr>,
             empty_batch\<lparr>b_heartbeatTs := Num (Fin 2), b_quoteLatestMap := Some [(''b'', Obj 1 [])]\<rparr>];
       m = the (snd (flushPendingBatch (merge_all bs no_pending)))
   in map_entry Quote m ''a'' = Some (Obj 0 []) \<and> field_value F_beat m () = Some (Num (Fin 2))"
proof -
  let ?bs = "[empty_batch\<lparr>b_heartbeatTs := Num (Fin 1), b_quoteLatestMap := Some [(''a'', Obj 0 [])]\<rparr>,
             empty_batch\<lparr>b_heartbeatTs := Num (Fin 2), b_quoteLatestMap := Some [(''b'', Obj 1 [])]\<rparr>]"
  have wf: "\<forall>b \<in> set ?bs. maps_wf b" by (simp add: maps_wf_def empty_batch_def)
  have "snd (flushPendingBatch (merge_all ?bs no_pending)) \<noteq> None"
    by (simp add: merge_all_def mergeIntoPendingBatch_def flushPendingBatch_def no_pending_def
        batch_is_empty_def empty_batch_def is_num_def hasMapEntries_def merge_batch_def)
  then obtain m where m: "snd (flushPendingBatch (merge_all ?bs no_pending)) = Some m" by auto
  have "map_entry Quote m ''a'' = latest_of (map_entry Quote) ?bs ''a''"
    and "field_value F_beat m () = latest_of (field_value F_beat) ?bs ()"
    using window_keeps_latest [OF wf] unfolding m by (simp_all only: option.case)
  moreover have "latest_of (map_entry Quote) ?bs ''a'' = Some (Obj 0 [])"
    "latest_of (field_value F_beat) ?bs () = Some (Num (Fin 2))"
    by (simp_all add: map_entry_def present_if_def is_num_def)
  ultimately show ?thesis using m by (simp only: Let_def option.sel simp_thms)
qed

text \<open>
  Where an event without a code goes: with k-bars in the store, a metric, quote or OTC
  event that names no code is filed under the code of the newest k-bar (the first with the
  greatest time, in the order of \<open>Object.entries\<close>); the defaults \<open>TXFE6\<close> and \<open>OTC001\<close> are used
  only while the store has none.
\<close>

theorem uncoded_follows_newest_kbar:
  assumes "kbars \<noteq> []" and "finite_times kbars"
    and "zod env MetricLatestSchema d = Some v" and "nonempty_str (js_get d ''code'') = None"
    and "zod env QuoteLatestSchema d = Some q" and "\<not> truthy (js_get q ''code'')"
    and "zod env OtcSummaryLatestSchema d = Some w" and "nonblank_str (js_get w ''code'') = None"
  shows "map_entry Metric (collectServingSseEvent env kbars ''metric_latest'' d b)
      (newest_entry (object_entries kbars)) = Some v
    \<and> map_entry Quote (collectServingSseEvent env kbars ''quote_latest'' d b)
      (newest_entry (object_entries kbars)) = Some q
    \<and> map_entry Otc (collectServingSseEvent env kbars ''otc_summary_latest'' d b)
      (newest_entry (object_entries kbars)) = Some w
    \<and> map_entry Otc (collectServingSseEvent env [] ''otc_summary_latest'' d empty_batch) DEFAULT_OTC_CODE = Some w"
proof -
  have "map_entry Otc (collectServingSseEvent env [] ''otc_summary_latest'' d empty_batch) DEFAULT_OTC_CODE = Some w"
    using assms(7,8) by (simp add: collectServingSseEvent_def collect_otc_def map_entry_put)
  then show ?thesis using collect_uncoded [OF assms(1,2)] assms(3-) by blast
qed

definition strict_env :: js_env where
  "strict_env = \<lparr>json_parse = (\<lambda>t s. Some (Obj t [(''ts'', Num (Fin 7))])), zod = strict_parse,
     legacy_date = (\<lambda>_. NaN), show_value = (\<lambda>_. [])\<rparr>"

theorem uncoded_follows_newest_kbar_witness:
  "map_entry Otc (collectServingSseEvent strict_env
      [(''TXFD6'', Obj 0 [(''minute_ts'', Num (Fin 1))]), (''TXFE6'', Obj 1 [(''minute_ts'', Num (Fin 2))])]
      ''otc_summary_latest'' (Obj 2 []) empty_batch) ''TXFE6'' = Some (Obj 2 [])"
  (is "map_entry Otc (collectServingSseEvent strict_env ?kbars _ ?d _) _ = _")
proof -
  have c: "zod strict_env s ?d = Some ?d"
    if "s \<in> {MetricLatestSchema, QuoteLatestSchema, OtcSummaryLatestSchema}" for s
    using that
    by (auto simp: strict_env_def strict_parse_def serving_schemas)
  have "object_entries ?kbars = ?kbars"
    by (simp add: object_entries_def array_index_def char_digit_def)
  moreover have "newest_entry ?kbars = ''TXFE6''"
    by (simp add: newest_entry_def kbar_time_def js_coalesce_def nullish_def)
  moreover have "finite_times ?kbars"
    by (simp add: finite_times_def kbar_time_def js_coalesce_def nullish_def)
  ultimately show ?thesis
    using uncoded_follows_newest_kbar [of ?kbars strict_env ?d ?d ?d ?d empty_batch] c
    by (simp add: nonempty_str_def nonblank_str_def)
qed

end
