(* ===== verification/SseWorker.thy ===== *)
theory SseWorker
  imports BatchLaws "HOL-Library.While_Combinator"
begin

text \<open>
  The worker copy of the stream reader, \<open>features/realtime/sse-worker.ts\<close>: its own gate and
  framing, \<open>collectEvent\<close> (which, unlike the manager's collector, does not validate), and the
  \<open>onmessage\<close> handler as a step function on the module state. A batch that is posted appears
  in the output; that structured cloning gives it fresh addresses is not modelled.

  Facts: the copies of the gate and of the framing agree with the manager's; on payloads that
  validation would let through unchanged and that carry a code the two collectors agree; data
  collected is always awaiting a flush unless the gate has thrown; and \<open>flush\<close> leaves the
  unfinished rest of a stream in the buffer, where the next stream's first chunk meets it.
\<close>

section \<open>Copies of the gate and of the framing\<close>

text \<open>
  The worker has its own text of these functions, translated here once more from it and from the
  language's own operations only: nothing of the manager's gate or framing is used.
\<close>

definition worker_SESSION_START_HHMM :: string where "worker_SESSION_START_HHMM = ''09:00:00''"
definition worker_SESSION_END_HHMM :: string where "worker_SESSION_END_HHMM = ''13:45:00''"

text \<open>None where \<open>Intl.DateTimeFormat.format\<close> throws.\<close>

definition worker_resolveTaipeiDatePart :: "rat \<Rightarrow> string option" where
  "worker_resolveTaipeiDatePart tsMs =
     (case time_clip tsMs of None \<Rightarrow> None | Some t \<Rightarrow> Some (format_ymd (taipei_day t)))"

definition worker_resolveSessionBoundsForTs ::
  "(string \<Rightarrow> jsnum) \<Rightarrow> session_cache \<Rightarrow> rat \<Rightarrow> (session_bounds \<times> session_cache) option" where
  "worker_resolveSessionBoundsForTs legacy cache tsMs =
     (case worker_resolveTaipeiDatePart tsMs of
        None \<Rightarrow> None
      | Some datePart \<Rightarrow>
          (if cachedSessionDatePart cache = Some datePart \<and> cachedSessionBounds cache \<noteq> None
           then Some (the (cachedSessionBounds cache), cache)
           else (let bounds = \<lparr>startMs = date_parse legacy (datePart @ ''T'' @ worker_SESSION_START_HHMM @ ''+08:00''),
                               endMs = date_parse legacy (datePart @ ''T'' @ worker_SESSION_END_HHMM @ ''+08:00'')\<rparr>
                 in Some (bounds, \<lparr>cachedSessionDatePart = Some datePart, cachedSessionBounds = Some bounds\<rparr>))))"

definition worker_toEpochMs :: "(string \<Rightarrow> jsnum) \<Rightarrow> jsval \<Rightarrow> rat option" where
  "worker_toEpochMs legacy raw =
     (let finite = (\<lambda>n. case n of Fin r \<Rightarrow> Some r | _ \<Rightarrow> None)
      in (case raw of
            Num n \<Rightarrow> finite n
          | Str text \<Rightarrow> (if trim text = [] then None else finite (date_parse legacy text))
          | _ \<Rightarrow> None))"

definition worker_event_time :: "(string \<Rightarrow> jsnum) \<Rightarrow> string \<Rightarrow> jsval \<Rightarrow> rat option" where
  "worker_event_time legacy eventName payload =
     (let epoch = (\<lambda>field. worker_toEpochMs legacy (js_get payload field));
          either = (\<lambda>f g. case epoch f of Some t \<Rightarrow> Some t | None \<Rightarrow> epoch g)
      in if eventName = ''kbar_current'' then epoch ''minute_ts''
         else if eventName = ''metric_latest'' then either ''ts'' ''event_ts''
         else if eventName = ''market_summary_latest'' then either ''minute_ts'' ''event_ts''
         else if eventName = ''otc_summary_latest'' then either ''minute_ts'' ''event_ts''
         else if eventName = ''spot_latest_list'' then epoch ''ts''
         else if eventName = ''spot_market_distribution_latest'' then epoch ''ts''
         else if eventName = ''spot_market_distribution_series'' then
           (case js_get payload ''items'' of
              Arr _ items \<Rightarrow> (if items = [] then None
                              else worker_toEpochMs legacy (js_get (items ! (length items - 1)) ''ts''))
            | _ \<Rightarrow> None)
         else if eventName = ''quote_latest'' then either ''event_ts'' ''ts''
         else None)"

definition worker_shouldApplyDashboardSseEvent ::
  "(string \<Rightarrow> jsnum) \<Rightarrow> session_cache \<Rightarrow> string \<Rightarrow> jsval \<Rightarrow> (bool \<times> session_cache) option" where
  "worker_shouldApplyDashboardSseEvent legacy cache eventName payload =
     (if eventName = ''heartbeat'' then Some (True, cache)
      else if eventName = ''index_contrib_ranking'' \<or> eventName = ''index_contrib_sector''
        then Some (True, cache)
      else if \<not> truthy payload \<or> \<not> is_object payload then Some (False, cache)
      else (case worker_event_time legacy eventName payload of
          None \<Rightarrow> Some (False, cache)
        | Some tsMs \<Rightarrow>
            (case worker_resolveSessionBoundsForTs legacy cache tsMs of
               None \<Rightarrow> None
             | Some (b, cache') \<Rightarrow>
                 Some (num_le (startMs b) (Fin tsMs) \<and> num_le (Fin tsMs) (endMs b), cache'))))"

text \<open>\<open>buf.replace(/\r\n/g, "\n")\<close>, and the \<open>while (true)\<close> loop as a loop: its state is the cursor
  and the frames so far, and it goes on while there is a boundary.\<close>

fun worker_replace_crlf :: "string \<Rightarrow> string" where
  "worker_replace_crlf [] = []"
| "worker_replace_crlf (c # cs) =
     (if c = CR \<and> take 1 cs = [LF] then LF # worker_replace_crlf (tl cs) else c # worker_replace_crlf cs)"

definition worker_boundary :: "string \<Rightarrow> nat \<Rightarrow> nat option" where
  "worker_boundary normalized cursor = index_of_from [LF, LF] normalized cursor"

definition worker_split_round :: "string \<Rightarrow> nat \<times> string list \<Rightarrow> nat \<times> string list" where
  "worker_split_round normalized st =
     (case st of (cursor, frames) \<Rightarrow>
        (case worker_boundary normalized cursor of
           None \<Rightarrow> (cursor, frames)
         | Some boundary \<Rightarrow>
             (let frame = trim (drop cursor (take boundary normalized))
              in (boundary + 2, if frame = [] then frames else frames @ [frame]))))"

definition worker_split_loop :: "string \<Rightarrow> nat \<times> string list \<Rightarrow> (nat \<times> string list) option" where
  "worker_split_loop normalized =
     while_option (\<lambda>(cursor, frames). worker_boundary normalized cursor \<noteq> None) (worker_split_round normalized)"

definition worker_splitSseBuffer :: "string \<Rightarrow> string list \<times> string" where
  "worker_splitSseBuffer buf =
     (let normalized = worker_replace_crlf buf
      in (case worker_split_loop normalized (0, []) of
            Some (cursor, frames) \<Rightarrow> (frames, drop cursor normalized)
          | None \<Rightarrow> ([], [])))"

text \<open>The loop over the lines of a frame, with the event and the data collected so far.\<close>

fun worker_lines :: "string list \<Rightarrow> string option \<Rightarrow> string list \<Rightarrow> parsed_frame" where
  "worker_lines [] ev dataParts =
     \<lparr>event = ev, data = (if length dataParts > 0 then Some (join_with LF dataParts) else None)\<rparr>"
| "worker_lines (line # rest) ev dataParts =
     (if line = [] \<or> take 1 line = '':'' then worker_lines rest ev dataParts
      else if take 6 line = ''event:'' then worker_lines rest (Some (trim (drop 6 line))) dataParts
      else if take 5 line = ''data:'' then worker_lines rest ev (dataParts @ [trim (drop 5 line)])
      else worker_lines rest ev dataParts)"

definition worker_parseSseFrame :: "string \<Rightarrow> parsed_frame" where
  "worker_parseSseFrame frame = worker_lines (split_on LF frame) None []"

section \<open>The handler\<close>

text \<open>\<open>collectEvent\<close>\<close>

definition code_or :: "jsval \<Rightarrow> string \<Rightarrow> string" where
  "code_or v dflt = (case nonblank_str v of Some c \<Rightarrow> c | None \<Rightarrow> dflt)"

definition put_beat :: "jsval \<Rightarrow> sse_batch \<Rightarrow> sse_batch" where
  "put_beat payload b =
     (case js_get payload ''ts'' of
        Num x \<Rightarrow> if is_finite x then b\<lparr>b_heartbeatTs := Num x\<rparr> else b
      | _ \<Rightarrow> b)"

definition collectEvent :: "string \<Rightarrow> jsval \<Rightarrow> sse_batch \<Rightarrow> sse_batch" where
  "collectEvent eventName payload b =
     (if eventName = ''kbar_current'' then b\<lparr>b_kbarCurrent := payload\<rparr>
      else if eventName = ''metric_latest'' then
        b\<lparr>b_metricLatestMap := map_put (b_metricLatestMap b)
            (code_or (js_get payload ''code'') DEFAULT_STREAM_CODE) payload\<rparr>
      else if eventName = ''market_summary_latest'' then
        b\<lparr>b_marketSummaryMap := map_put (b_marketSummaryMap b)
            (code_or (js_get payload ''code'') (code_or (js_get payload ''market_code'') DEFAULT_STREAM_CODE)) payload\<rparr>
      else if eventName = ''otc_summary_latest'' then
        b\<lparr>b_otcSummaryMap := map_put (b_otcSummaryMap b)
            (code_or (js_get payload ''code'') DEFAULT_OTC_CODE) payload\<rparr>
      else if eventName = ''quote_latest'' then
        b\<lparr>b_quoteLatestMap := map_put (b_quoteLatestMap b)
            (code_or (js_get payload ''code'') DEFAULT_STREAM_CODE) payload\<rparr>
      else if eventName = ''spot_latest_list'' then b\<lparr>b_spotLatestList := payload\<rparr>
      else if eventName = ''spot_market_distribution_latest'' then
        b\<lparr>b_spotMarketDistributionLatest := payload\<rparr>
      else if eventName = ''spot_market_distribution_series'' then
        b\<lparr>b_spotMarketDistributionSeries := payload\<rparr>
      else if eventName = ''index_contrib_ranking'' then b\<lparr>b_indexContribRanking := payload\<rparr>
      else if eventName = ''index_contrib_sector'' then put_beat payload (b\<lparr>b_indexContribSector := payload\<rparr>)
      else if eventName = ''heartbeat'' then put_beat payload b
      else b)"

record worker_state =
  w_buffer :: string
  w_pendingBatch :: sse_batch
  w_flushTimer :: bool
  w_cache :: session_cache
  w_tick :: nat

definition worker_init :: worker_state where
  "worker_init = \<lparr>w_buffer = [], w_pendingBatch = empty_batch, w_flushTimer = False,
     w_cache = empty_session_cache, w_tick = 0\<rparr>"

text \<open>
  \<open>emitBatchNow\<close>, \<open>flushAndResetTimer\<close> and the timer's callback; the second result is the
  batch posted. A batch has no keys exactly when nothing was collected into it.
\<close>

definition emitBatchNow :: "worker_state \<Rightarrow> worker_state \<times> sse_batch list" where
  "emitBatchNow w =
     (if w_pendingBatch w = empty_batch then (w, [])
      else (w\<lparr>w_pendingBatch := empty_batch\<rparr>, [w_pendingBatch w]))"

definition flushAndResetTimer :: "worker_state \<Rightarrow> worker_state \<times> sse_batch list" where
  "flushAndResetTimer w = emitBatchNow (w\<lparr>w_flushTimer := False\<rparr>)"

definition scheduleFlush :: "worker_state \<Rightarrow> worker_state" where
  "scheduleFlush w = w\<lparr>w_flushTimer := True\<rparr>"

definition flush_timer_fires :: "worker_state \<Rightarrow> worker_state \<times> sse_batch list" where
  "flush_timer_fires w =
     (if w_flushTimer w then emitBatchNow (w\<lparr>w_flushTimer := False\<rparr>) else (w, []))"

definition worker_frame :: "js_env \<Rightarrow> string \<Rightarrow> worker_state \<Rightarrow> worker_state option" where
  "worker_frame env frame w =
     (case worker_parseSseFrame frame of parsed \<Rightarrow>
        (case (event parsed, data parsed) of
           (Some ev, Some d) \<Rightarrow>
             if ev = [] \<or> d = [] then Some w
             else
               (case json_parse env (w_tick w) d of
                  None \<Rightarrow> Some (w\<lparr>w_tick := w_tick w + 1\<rparr>)
                | Some payload \<Rightarrow>
                    (case worker_shouldApplyDashboardSseEvent (legacy_date env) (w_cache w) ev payload of
                       None \<Rightarrow> None
                     | Some (ok, cache') \<Rightarrow>
                         (let w' = w\<lparr>w_tick := w_tick w + 1, w_cache := cache'\<rparr>
                          in if \<not> ok \<or> \<not> is_object payload then Some w'
                             else Some (w'\<lparr>w_pendingBatch := collectEvent ev payload (w_pendingBatch w)\<rparr>))))
         | _ \<Rightarrow> Some w))"

fun worker_frames :: "js_env \<Rightarrow> string list \<Rightarrow> worker_state \<Rightarrow> worker_state \<times> bool" where
  "worker_frames env [] w = (w, True)"
| "worker_frames env (f # fs) w =
     (case worker_frame env f w of
        None \<Rightarrow> (w\<lparr>w_tick := w_tick w + 1\<rparr>, False)
      | Some w' \<Rightarrow> worker_frames env fs w')"

datatype worker_message = W_chunk string | W_flush | W_teardown | W_other

text \<open>When the gate throws the handler ends there: the timer is not armed.\<close>

definition worker_onmessage ::
  "js_env \<Rightarrow> worker_message \<Rightarrow> worker_state \<Rightarrow> worker_state \<times> sse_batch list" where
  "worker_onmessage env msg w =
     (case msg of
        W_teardown \<Rightarrow> (w\<lparr>w_flushTimer := False, w_buffer := [], w_pendingBatch := empty_batch\<rparr>, [])
      | W_flush \<Rightarrow> flushAndResetTimer w
      | W_other \<Rightarrow> (w, [])
      | W_chunk chunk \<Rightarrow>
          (case worker_splitSseBuffer (w_buffer w @ chunk) of
             (frames, rest) \<Rightarrow>
               (case worker_frames env frames (w\<lparr>w_buffer := rest\<rparr>) of
                  (w', ok) \<Rightarrow> (if ok then scheduleFlush w' else w', []))))"

datatype worker_event = On_message worker_message | On_timer

fun worker_step :: "js_env \<Rightarrow> worker_event \<Rightarrow> worker_state \<Rightarrow> worker_state \<times> sse_batch list" where
  "worker_step env (On_message m) w = worker_onmessage env m w"
| "worker_step env On_timer w = flush_timer_fires w"

fun worker_run :: "js_env \<Rightarrow> worker_event list \<Rightarrow> worker_state \<Rightarrow> worker_state \<times> sse_batch list" where
  "worker_run env [] w = (w, [])"
| "worker_run env (e # es) w =
     (case worker_step env e w of
        (w', out) \<Rightarrow> (case worker_run env es w' of (w'', out') \<Rightarrow> (w'', out @ out')))"

section \<open>The copies agree\<close>

lemma worker_bounds_eq: "worker_resolveSessionBoundsForTs = resolveSessionBoundsForTs"
  by (auto simp: fun_eq_iff worker_resolveSessionBoundsForTs_def resolveSessionBoundsForTs_def
      worker_resolveTaipeiDatePart_def resolveTaipeiDatePart_def worker_SESSION_START_HHMM_def
      worker_SESSION_END_HHMM_def SESSION_START_HHMM_def SESSION_END_HHMM_def
      bounds_of_date_def Let_def split: option.splits)

lemma worker_toEpochMs_eq: "worker_toEpochMs = toEpochMs"
  by (auto simp: fun_eq_iff worker_toEpochMs_def toEpochMs_def Let_def split: jsval.splits)

lemma worker_event_time_eq:
  assumes "\<not> ungated ev"
  shows "worker_event_time legacy ev d = event_time legacy ev d"
proof -
  have last: "(case v of Arr r items \<Rightarrow> if items = [] then None
        else toEpochMs legacy (js_get (items ! (length items - 1)) ''ts'') | _ \<Rightarrow> None)
      = toEpochMs legacy (js_get (last_item v) ''ts'')" for v
    by (cases v) (simp_all add: last_item_def last_conv_nth toEpochMs_def)
  show ?thesis
    using assms unfolding worker_event_time_def worker_toEpochMs_eq
    by (simp add: event_time_def ungated_def or_else_def last Let_def)
qed

lemma worker_gate_eq: "worker_shouldApplyDashboardSseEvent = shouldApplyDashboardSseEvent"
proof (intro ext)
  fix legacy cache ev d
  have "\<not> truthy d \<or> \<not> is_object d \<longleftrightarrow> \<not> is_object d" using is_object_truthy by auto
  then show "worker_shouldApplyDashboardSseEvent legacy cache ev d = shouldApplyDashboardSseEvent legacy cache ev d"
    using worker_event_time_eq [of ev legacy d]
    unfolding worker_shouldApplyDashboardSseEvent_def shouldApplyDashboardSseEvent_def
      ungated_def worker_bounds_eq within_bounds_def by auto
qed

lemma worker_replace_crlf_eq: "worker_replace_crlf s = normalize_newlines s"
proof (induction s rule: normalize_newlines.induct)
  case (3 c d cs)
  then show ?case by (cases cs) auto
qed simp_all

text \<open>The loop ends, and with what the recursive splitter collects.\<close>

lemma worker_split_loop_eq:
  "\<exists>cursor' fs. worker_split_loop s (cursor, frames) = Some (cursor', fs)
     \<and> split_loop s cursor frames = (fs, drop cursor' s)"
proof (induction s cursor frames rule: split_loop.induct)
  case (1 s cursor frames)
  show ?case
  proof (cases "index_of_from [LF, LF] s cursor")
    case None
    then show ?thesis
      by (simp add: worker_split_loop_def while_option_unfold worker_boundary_def split_loop.simps [of s cursor])
  next
    case (Some boundary)
    have "worker_split_loop s (cursor, frames) = worker_split_loop s (worker_split_round s (cursor, frames))"
      unfolding worker_split_loop_def
      by (subst while_option_unfold) (simp add: worker_boundary_def Some)
    then show ?thesis
      using "1.IH" [OF Some refl] Some
      by (cases "trim (take (boundary - cursor) (drop cursor s)) = []")
        (simp_all add: split_loop.simps [of s cursor] worker_split_round_def worker_boundary_def Let_def drop_take)
  qed
qed

lemma take_length_starts: "take (length p) s = p \<longleftrightarrow> starts_with p s"
  by (induction p s rule: starts_with.induct) auto

lemma worker_lines_eq:
  "worker_lines lines ev dataParts =
     (case fold parse_line lines (ev, dataParts) of
        (ev', parts) \<Rightarrow> \<lparr>event = ev', data = (if parts \<noteq> [] then Some (join_with LF parts) else None)\<rparr>)"
proof (induction lines arbitrary: ev dataParts)
  case (Cons line lines)
  have "parse_line line (ev, dataParts) =
      (if line = [] \<or> take 1 line = '':'' then (ev, dataParts)
       else if take 6 line = ''event:'' then (Some (trim (drop 6 line)), dataParts)
       else if take 5 line = ''data:'' then (ev, dataParts @ [trim (drop 5 line)])
       else (ev, dataParts))"
    using take_length_starts [of "'':''" line] take_length_starts [of "''event:''" line]
      take_length_starts [of "''data:''" line] by (simp add: parse_line_def numeral_eq_Suc)
  then show ?case using Cons by simp
qed simp

lemma worker_framing_eq:
  "worker_splitSseBuffer = splitSseBuffer" "worker_parseSseFrame = parseSseFrame"
proof -
  show "worker_splitSseBuffer = splitSseBuffer"
  proof
    fix buf
    show "worker_splitSseBuffer buf = splitSseBuffer buf"
      using worker_split_loop_eq [of "normalize_newlines buf" 0 "[]"]
      by (auto simp: worker_splitSseBuffer_def splitSseBuffer_def worker_replace_crlf_eq Let_def)
  qed
  show "worker_parseSseFrame = parseSseFrame"
    by (simp add: fun_eq_iff worker_parseSseFrame_def parseSseFrame_def worker_lines_eq)
qed

lemmas worker_copies = worker_gate_eq worker_framing_eq

section \<open>The collectors agree on validated payloads with a code\<close>

definition schema_of :: "string \<Rightarrow> schema option" where
  "schema_of = map_of
     [(''kbar_current'', KbarCurrentSchema), (''metric_latest'', MetricLatestSchema),
      (''market_summary_latest'', MarketSummaryLatestSchema), (''heartbeat'', HeartbeatSchema),
      (''index_contrib_ranking'', IndexContributionRankingSchema),
      (''index_contrib_sector'', IndexContributionSectorSchema),
      (''spot_latest_list'', SpotLatestListSchema),
      (''spot_market_distribution_latest'', SpotMarketDistributionLatestSchema),
      (''spot_market_distribution_series'', SpotMarketDistributionSeriesSchema),
      (''otc_summary_latest'', OtcSummaryLatestSchema), (''quote_latest'', QuoteLatestSchema)]"

definition has_code :: "jsval \<Rightarrow> bool" where
  "has_code v \<longleftrightarrow> nonblank_str (js_get v ''code'') \<noteq> None"

text \<open>An event on which the two collectors must agree.\<close>

definition explicit_event :: "js_env \<Rightarrow> string \<Rightarrow> jsval \<Rightarrow> bool" where
  "explicit_event env ev v \<longleftrightarrow>
     is_object v
     \<and> (\<forall>s. schema_of ev = Some s \<longrightarrow> zod env s v = Some v)
     \<and> (ev \<in> {''metric_latest'', ''market_summary_latest'', ''otc_summary_latest'', ''quote_latest''} \<longrightarrow> has_code v)
     \<and> (ev \<in> {''heartbeat'', ''index_contrib_sector''} \<longrightarrow> (\<exists>x. js_get v ''ts'' = Num (Fin x)))"

lemma has_codeE:
  assumes "has_code v"
  obtains c where "js_get v ''code'' = Str c" "c \<noteq> []" "trim c \<noteq> []" "nonblank_str (js_get v ''code'') = Some c"
proof -
  from assms obtain c where "js_get v ''code'' = Str c" "trim c \<noteq> []"
    by (auto simp: has_code_def nonblank_str_def split: jsval.splits if_splits)
  moreover from this(2) have "c \<noteq> []" by auto
  ultimately show ?thesis by (intro that) (simp_all add: nonblank_str_def)
qed

lemma collect_filed_eq:
  assumes "has_code v"
  shows "zod env MetricLatestSchema v = Some v \<Longrightarrow> collect_metric env kbars v b =
      b\<lparr>b_metricLatestMap := map_put (b_metricLatestMap b) (code_or (js_get v ''code'') DEFAULT_STREAM_CODE) v\<rparr>"
    and "zod env MarketSummaryLatestSchema v = Some v \<Longrightarrow> collect_market env kbars v b =
      b\<lparr>b_marketSummaryMap := map_put (b_marketSummaryMap b)
        (code_or (js_get v ''code'') (code_or (js_get v ''market_code'') DEFAULT_STREAM_CODE)) v\<rparr>"
    and "zod env OtcSummaryLatestSchema v = Some v \<Longrightarrow> collect_otc env kbars v b =
      b\<lparr>b_otcSummaryMap := map_put (b_otcSummaryMap b) (code_or (js_get v ''code'') DEFAULT_OTC_CODE) v\<rparr>"
    and "zod env QuoteLatestSchema v = Some v \<Longrightarrow> collect_quote env kbars v b =
      b\<lparr>b_quoteLatestMap := map_put (b_quoteLatestMap b) (code_or (js_get v ''code'') DEFAULT_STREAM_CODE) v\<rparr>"
proof -
  obtain c where c: "js_get v ''code'' = Str c" "c \<noteq> []" "nonblank_str (Str c) = Some c"
    using has_codeE [OF assms] by metis
  show "zod env MetricLatestSchema v = Some v \<Longrightarrow> collect_metric env kbars v b =
      b\<lparr>b_metricLatestMap := map_put (b_metricLatestMap b) (code_or (js_get v ''code'') DEFAULT_STREAM_CODE) v\<rparr>"
    by (simp add: collect_metric_def code_or_def c)
  show "zod env MarketSummaryLatestSchema v = Some v \<Longrightarrow> collect_market env kbars v b =
      b\<lparr>b_marketSummaryMap := map_put (b_marketSummaryMap b)
        (code_or (js_get v ''code'') (code_or (js_get v ''market_code'') DEFAULT_STREAM_CODE)) v\<rparr>"
    by (simp add: collect_market_def code_or_def to_key_def c)
  show "zod env OtcSummaryLatestSchema v = Some v \<Longrightarrow> collect_otc env kbars v b =
      b\<lparr>b_otcSummaryMap := map_put (b_otcSummaryMap b) (code_or (js_get v ''code'') DEFAULT_OTC_CODE) v\<rparr>"
    by (simp add: collect_otc_def code_or_def c)
  show "zod env QuoteLatestSchema v = Some v \<Longrightarrow> collect_quote env kbars v b =
      b\<lparr>b_quoteLatestMap := map_put (b_quoteLatestMap b) (code_or (js_get v ''code'') DEFAULT_STREAM_CODE) v\<rparr>"
    by (simp add: collect_quote_def code_or_def to_key_def c)
qed

lemma collectors_agree:
  assumes "explicit_event env ev v"
  shows "collectEvent ev v b = collectServingSseEvent env kbars ev v b"
proof -
  have s: "schema_of ev = Some sch \<Longrightarrow> zod env sch v = Some v" for sch
    using assms by (simp add: explicit_event_def)
  have code: "ev \<in> {''metric_latest'', ''market_summary_latest'', ''otc_summary_latest'', ''quote_latest''} \<Longrightarrow> has_code v"
    and beat: "ev \<in> {''heartbeat'', ''index_contrib_sector''} \<Longrightarrow> \<exists>x. js_get v ''ts'' = Num (Fin x)"
    using assms by (simp_all add: explicit_event_def)
  show ?thesis
  proof (cases "ev \<in> {''heartbeat'', ''index_contrib_sector''}")
    case True
    with beat obtain x where x: "js_get v ''ts'' = Num (Fin x)" by auto
    from True have "zod env (if ev = ''heartbeat'' then HeartbeatSchema else IndexContributionSectorSchema) v = Some v"
      by (intro s) (auto simp: schema_of_def)
    with True x show ?thesis
      by (elim insertE emptyE)
        (simp_all add: collectEvent_def collectServingSseEvent_def collect_with_def put_beat_def)
  next
    case other: False
    show ?thesis
    proof (cases "ev \<in> {''metric_latest'', ''market_summary_latest'', ''otc_summary_latest'', ''quote_latest''}")
      case True
      then have "has_code v" by (rule code)
      with True show ?thesis
        by (elim insertE emptyE)
          (simp_all add: collectEvent_def collectServingSseEvent_def collect_filed_eq s schema_of_def)
    next
      case False
      with other show ?thesis
        using s by (simp add: collectEvent_def collectServingSseEvent_def collect_with_def schema_of_def)
    qed
  qed
qed

text \<open>A frame whose payload, if it parses, is such an event.\<close>

definition explicit_frame :: "js_env \<Rightarrow> string \<Rightarrow> bool" where
  "explicit_frame env f \<longleftrightarrow>
     (\<forall>ev d t v. parseSseFrame f = \<lparr>event = Some ev, data = Some d\<rparr> \<longrightarrow> json_parse env t d = Some v
        \<longrightarrow> explicit_event env ev v)"

definition same_progress :: "frame_loop \<Rightarrow> worker_state \<Rightarrow> bool" where
  "same_progress s w \<longleftrightarrow>
     fl_cache s = w_cache w \<and> fl_tick s = w_tick w \<and> fl_batch s = w_pendingBatch w"

lemma frame_steps_agree:
  assumes "explicit_frame env f" and "same_progress s w"
  shows "rel_option same_progress (frame_step env kbars f s) (worker_frame env f w)"
proof -
  obtain ev d where p: "parseSseFrame f = \<lparr>event = ev, data = d\<rparr>"
    by (cases "parseSseFrame f")
  show ?thesis
  proof (cases "\<exists>e x v. ev = Some e \<and> d = Some x \<and> e \<noteq> [] \<and> x \<noteq> [] \<and> json_parse env (fl_tick s) x = Some v")
    case False
    then show ?thesis
      using assms(2) p
      by (auto simp: frame_step_def worker_frame_def worker_copies same_progress_def split: option.splits)
  next
    case True
    then obtain e x v where q: "ev = Some e" "d = Some x" "e \<noteq> []" "x \<noteq> []"
      and v: "json_parse env (fl_tick s) x = Some v" by blast
    have ex: "explicit_event env e v" using assms(1) p q v by (auto simp: explicit_frame_def)
    then have "is_object v" by (simp add: explicit_event_def)
    then show ?thesis
      using assms(2) p q v collectors_agree [OF ex, of "w_pendingBatch w" kbars]
      by (auto simp: frame_step_def worker_frame_def worker_copies same_progress_def Let_def
          split: option.splits)
  qed
qed

lemma frames_agree:
  assumes "\<forall>f \<in> set fs. explicit_frame env f" and "same_progress s w"
  shows "same_progress (fst (frames_loop env kbars fs s)) (fst (worker_frames env fs w))
    \<and> snd (frames_loop env kbars fs s) = snd (worker_frames env fs w)"
  using assms
proof (induction fs arbitrary: s w)
  case Nil
  then show ?case by simp
next
  case (Cons f fs)
  from Cons.prems have "rel_option same_progress (frame_step env kbars f s) (worker_frame env f w)"
    by (intro frame_steps_agree) auto
  then show ?case
    using Cons.prems Cons.IH
    by (cases "frame_step env kbars f s"; cases "worker_frame env f w") (auto simp: same_progress_def)
qed

section \<open>The worker's buffer and its timer\<close>

lemma worker_frame_frame:
  assumes "worker_frame env f w = Some w'"
  shows "w_buffer w' = w_buffer w" and "w_flushTimer w' = w_flushTimer w"
  using assms by (auto simp: worker_frame_def Let_def split: option.splits if_splits prod.splits)

lemma worker_frames_frame:
  "w_buffer (fst (worker_frames env fs w)) = w_buffer w"
  "w_flushTimer (fst (worker_frames env fs w)) = w_flushTimer w"
  by (induction fs arbitrary: w) (auto simp: worker_frame_frame split: option.splits)

lemma emit_frame [simp]:
  "w_buffer (fst (emitBatchNow w)) = w_buffer w"
  "w_pendingBatch (fst (emitBatchNow w)) = empty_batch"
  "w_flushTimer (fst (emitBatchNow w)) = w_flushTimer w"
  by (auto simp: emitBatchNow_def)

lemma worker_chunk_buffer:
  "w_buffer (fst (worker_onmessage env (W_chunk c) w)) = snd (splitSseBuffer (w_buffer w @ c))"
  by (auto simp: worker_onmessage_def worker_copies scheduleFlush_def worker_frames_frame
      dest: arg_cong [where f = "\<lambda>p. w_buffer (fst p)"] split: prod.splits)

fun chunks_of :: "worker_event list \<Rightarrow> string list" where
  "chunks_of [] = []"
| "chunks_of (On_message (W_chunk c) # es) = c # chunks_of es"
| "chunks_of (_ # es) = chunks_of es"

lemma worker_run_buffer:
  assumes "On_message W_teardown \<notin> set es"
  shows "w_buffer (fst (worker_run env es w)) = snd (feed (w_buffer w) (chunks_of es))"
  using assms
proof (induction es arbitrary: w)
  case Nil
  then show ?case by simp
next
  case (Cons e es)
  have next_buffer: "w_buffer (fst (worker_run env (e # es) w))
      = snd (feed (w_buffer (fst (worker_step env e w))) (chunks_of es))"
    using Cons by (simp split: prod.splits) (metis fst_conv)
  show ?case
  proof (cases "\<exists>c. e = On_message (W_chunk c)")
    case True
    then obtain c where "e = On_message (W_chunk c)" by blast
    then show ?thesis
      using next_buffer by (simp add: worker_chunk_buffer split: prod.splits)
  next
    case False
    then have "e \<in> {On_message W_flush, On_message W_other, On_timer}"
      using Cons.prems by (cases e; cases "case e of On_message m \<Rightarrow> m") auto
    then have "w_buffer (fst (worker_step env e w)) = w_buffer w" "chunks_of (e # es) = chunks_of es"
      by (elim insertE emptyE;
          simp add: worker_onmessage_def flushAndResetTimer_def flush_timer_fires_def)+
    then show ?thesis using next_buffer by simp
  qed
qed

text \<open>What was collected awaits a flush; a run all of whose chunks are read to the end.\<close>

definition awaits_flush :: "worker_state \<Rightarrow> bool" where
  "awaits_flush w \<longleftrightarrow> (w_pendingBatch w \<noteq> empty_batch \<longrightarrow> w_flushTimer w)"

definition chunk_completes :: "js_env \<Rightarrow> worker_event \<Rightarrow> worker_state \<Rightarrow> bool" where
  "chunk_completes env e w =
     (case e of
        On_message (W_chunk c) \<Rightarrow>
          (case worker_splitSseBuffer (w_buffer w @ c) of
             (frames, rest) \<Rightarrow> snd (worker_frames env frames (w\<lparr>w_buffer := rest\<rparr>)))
      | _ \<Rightarrow> True)"

fun completes :: "js_env \<Rightarrow> worker_event list \<Rightarrow> worker_state \<Rightarrow> bool" where
  "completes env [] w = True"
| "completes env (e # es) w = (chunk_completes env e w \<and> completes env es (fst (worker_step env e w)))"

lemma awaits_flush_step [inv_intros]:
  assumes "awaits_flush w" and "chunk_completes env e w"
  shows "awaits_flush (fst (worker_step env e w))"
proof (cases e)
  case On_timer
  then show ?thesis using assms by (auto simp: awaits_flush_def flush_timer_fires_def)
next
  case (On_message m)
  then show ?thesis
    using assms
    by (cases m) (auto simp: awaits_flush_def worker_onmessage_def flushAndResetTimer_def
        scheduleFlush_def chunk_completes_def split: prod.splits)
qed

lemma awaits_flush_run:
  "awaits_flush w \<Longrightarrow> completes env es w \<Longrightarrow> awaits_flush (fst (worker_run env es w))"
proof (induction es arbitrary: w)
  case Nil
  then show ?case by simp
next
  case (Cons e es)
  then have "awaits_flush (fst (worker_run env es (fst (worker_step env e w))))"
    by (simp add: awaits_flush_step)
  then show ?case by (simp split: prod.splits) (metis fst_conv)
qed

section \<open>Properties\<close>

text \<open>
  C15. The worker's own gate and framing do what the manager's do: the gate gives the same answer,
  leaves the same cache and throws for the same events; the splitting loop comes to its end on every
  text, and splits it into the same frames and rest; and every frame is parsed alike.
\<close>

theorem worker_copies_agree:
  "worker_shouldApplyDashboardSseEvent legacy cache ev d = shouldApplyDashboardSseEvent legacy cache ev d
   \<and> (\<exists>cursor. worker_split_loop (worker_replace_crlf s) (0, []) = Some (cursor, fst (worker_splitSseBuffer s)))
   \<and> worker_splitSseBuffer s = splitSseBuffer s \<and> worker_parseSseFrame fr = parseSseFrame fr"
proof -
  obtain cursor fs where "worker_split_loop (worker_replace_crlf s) (0, []) = Some (cursor, fs)"
    using worker_split_loop_eq by blast
  then show ?thesis by (simp add: worker_copies(1,3)) (simp add: worker_splitSseBuffer_def worker_copies(2) [symmetric] Let_def)
qed

text \<open>
  Worker and main thread agree on a chunk of validated events that name their code: the
  worker's pending batch, its gate cache and whether the chunk is read to the end are those of
  the manager's own loop over the same frames.
\<close>

theorem worker_chunk_agrees:
  assumes "\<forall>f \<in> set fs. explicit_frame env f" and "same_progress s w"
  shows "same_progress (fst (frames_loop env kbars fs s)) (fst (worker_frames env fs w))
    \<and> snd (frames_loop env kbars fs s) = snd (worker_frames env fs w)"
  using assms by (rule frames_agree)

theorem worker_chunk_agrees_witness:
  "fl_batch (fst (frames_loop strict_env [] [''event: heartbeat'' @ [LF] @ ''data: x'']
      \<lparr>fl_cache = empty_session_cache, fl_tick = 0, fl_batch = empty_batch, fl_processed = False\<rparr>))
    = w_pendingBatch (fst (worker_frames strict_env [''event: heartbeat'' @ [LF] @ ''data: x''] worker_init))"
proof -
  let ?f = "''event: heartbeat'' @ [LF] @ ''data: x''"
  have "parseSseFrame ?f = \<lparr>event = Some ''heartbeat'', data = Some ''x''\<rparr>"
    by (simp add: parseSseFrame_def parse_line_def trim_def is_ws_def)
  then have "explicit_frame strict_env ?f"
    by (auto simp: explicit_frame_def explicit_event_def strict_env_def schema_of_def strict_parse_def
        HeartbeatSchema_def)
  then show ?thesis
    using worker_chunk_agrees [of "[?f]" strict_env
        "\<lparr>fl_cache = empty_session_cache, fl_tick = 0, fl_batch = empty_batch, fl_processed = False\<rparr>"
        worker_init "[]"]
    by (simp add: same_progress_def worker_init_def del: frames_loop.simps worker_frames.simps)
qed

text \<open>
  The worker's buffer survives a flush: unless it is torn down, the buffer after any run of
  messages and timer events is what one continuous stream of all the chunks would leave, even
  where a flush (the end of one connection) came between them; so the next connection's first
  chunk is read as the continuation of the previous connection's unfinished frame.
\<close>

theorem worker_buffer_survives_flush:
  assumes "On_message W_teardown \<notin> set es"
  shows "w_buffer (fst (worker_run env es worker_init)) = snd (feed [] (chunks_of es))"
  using worker_run_buffer [OF assms, of env worker_init] by (simp add: worker_init_def)

theorem worker_buffer_survives_flush_witness:
  "w_buffer (fst (worker_run strict_env
      [On_message (W_chunk ''event: quo''), On_message W_flush, On_message (W_chunk ''event: heartbeat'')] worker_init))
    = ''event: quoevent: heartbeat''"
proof -
  have "feed [] [''event: quo'', ''event: heartbeat''] = ([], ''event: quoevent: heartbeat'')"
    by (simp add: splitSseBuffer_raw raw_split.simps clean_frames_def)
  then show ?thesis
    using worker_buffer_survives_flush [of "[On_message (W_chunk ''event: quo''), On_message W_flush,
        On_message (W_chunk ''event: heartbeat'')]" strict_env]
    by (simp del: worker_run.simps feed.simps)
qed

text \<open>
  C16. Nothing collected is stranded: along any run whose chunks are read to the end (the gate
  never throws), whenever the worker holds collected data its flush timer is armed.
\<close>

theorem worker_data_awaits_flush:
  assumes "completes env es worker_init"
  shows "awaits_flush (fst (worker_run env es worker_init))"
  using assms by (intro awaits_flush_run) (simp_all add: awaits_flush_def worker_init_def)

text \<open>A k-bar of nine o'clock in Taipei, in one chunk.\<close>

definition session_kbar :: jsval where
  "session_kbar = Obj 0 [(''minute_ts'', Num (Fin 1714525200000))]"

definition session_env :: js_env where
  "session_env = strict_env\<lparr>json_parse := (\<lambda>_ _. Some session_kbar)\<rparr>"

lemma session_env_gate:
  "\<exists>cache. shouldApplyDashboardSseEvent (legacy_date session_env) empty_session_cache ''kbar_current'' session_kbar = Some (True, cache)"
proof -
  have "in_session 1714525200000"
    by (simp add: in_session_def taipei_time_of_day_def taipei_offset_def day_ms_def
        session_open_def session_close_def floor_divide_of_int_eq [of 1714554000000 86400000, simplified])
  moreover have "modern_ts 1714525200000" by simp
  moreover have "event_time legacy ''kbar_current'' session_kbar = Some 1714525200000" for legacy
    by (simp add: event_time_def session_kbar_def toEpochMs_def)
  ultimately have "gate legacy ''kbar_current'' session_kbar = Some True" for legacy
    using gate_in_session [of "''kbar_current''" session_kbar legacy 1714525200000]
    by (simp add: ungated_def session_kbar_def)
  then have "map_option fst (shouldApplyDashboardSseEvent (legacy_date session_env) empty_session_cache ''kbar_current'' session_kbar) = Some True"
    using gate_cached [of "legacy_date session_env" empty_session_cache] by (simp add: cache_ok_def empty_session_cache_def)
  then show ?thesis by auto
qed

theorem worker_data_awaits_flush_witness:
  "\<exists>w. w = fst (worker_run session_env [On_message (W_chunk (sse_message ''kbar_current'' ''k''))] worker_init)
    \<and> b_kbarCurrent (w_pendingBatch w) = session_kbar \<and> w_flushTimer w"
proof -
  let ?m = "sse_message ''kbar_current'' ''k''"
  let ?w = "fst (worker_run session_env [On_message (W_chunk ?m)] worker_init)"
  obtain cache where gate:
    "shouldApplyDashboardSseEvent (legacy_date session_env) empty_session_cache ''kbar_current'' session_kbar = Some (True, cache)"
    using session_env_gate by blast
  have split: "splitSseBuffer ?m = ([wire_frame ''kbar_current'' ''k''], [])" by code_simp
  have parsed: "parseSseFrame (wire_frame ''kbar_current'' ''k'') = \<lparr>event = Some ''kbar_current'', data = Some ''k''\<rparr>"
    by (rule parse_wire_frame) (simp_all add: wire_text_def is_ws_def)
  have js: "json_parse session_env t d = Some session_kbar" for t d by (simp add: session_env_def)
  have run: "worker_frames session_env [wire_frame ''kbar_current'' ''k''] worker_init
      = (worker_init\<lparr>w_tick := 1, w_cache := cache, w_pendingBatch := collectEvent ''kbar_current'' session_kbar empty_batch\<rparr>, True)"
    using gate by (simp add: worker_frame_def worker_copies parsed js worker_init_def session_kbar_def)
  have w0: "worker_init\<lparr>w_buffer := []\<rparr> = worker_init" "w_buffer worker_init = []" by (simp_all add: worker_init_def)
  have "completes session_env [On_message (W_chunk ?m)] worker_init"
    by (simp add: chunk_completes_def worker_copies w0 split run del: worker_frames.simps)
  from worker_data_awaits_flush [OF this] have "awaits_flush ?w" .
  moreover have "w_pendingBatch ?w = collectEvent ''kbar_current'' session_kbar empty_batch"
    by (simp add: worker_onmessage_def worker_copies w0 split run scheduleFlush_def del: worker_frames.simps)
  then have "b_kbarCurrent (w_pendingBatch ?w) = session_kbar" by (simp add: collectEvent_def)
  ultimately show ?thesis
    by (auto simp: awaits_flush_def empty_batch_def session_kbar_def simp del: worker_run.simps)
qed

end
