(* ===== verification/SpotMock.thy ===== *)
theory SpotMock
  imports TaipeiClock ServingSchemas
begin

text \<open>
  The mock feed of spot prices in \<open>features/realtime/services/realtime-manager.ts\<close>: the
  strength helpers and \<open>createSpotLatestListMockGenerator\<close>, one call of \<open>next()\<close> as a step on
  the generator's state. \<open>Math.sin\<close> is a parameter. The facts: every payload the generator
  yields is ordered (low, close, high), has its percentages within bounds, counts each symbol
  once, and passes the schema the real events are validated with.
\<close>

section \<open>Strength\<close>

datatype SpotStrengthState = new_high | strong_up | flat | strong_down | new_low

definition SPOT_STRENGTH_THRESHOLD_PCT :: rat where "SPOT_STRENGTH_THRESHOLD_PCT = 8 / 10"

definition resolveSpotStrength :: "jsnum \<Rightarrow> jsnum \<Rightarrow> bool \<Rightarrow> bool \<Rightarrow> SpotStrengthState \<times> rat" where
  "resolveSpotStrength openPrice lastPrice isNewHigh isNewLow =
     (if isNewHigh then (new_high, 2)
      else if isNewLow then (new_low, -2)
      else (case (openPrice, lastPrice) of
          (Fin p, Fin l) \<Rightarrow>
            if p = 0 then (flat, 0)
            else (let changePct = (l - p) / p * 100
                  in if SPOT_STRENGTH_THRESHOLD_PCT \<le> changePct then (strong_up, 1)
                     else if changePct \<le> - SPOT_STRENGTH_THRESHOLD_PCT then (strong_down, -1)
                     else (flat, 0))
        | _ \<Rightarrow> (flat, 0)))"

definition strengthScoreToPct :: "rat \<Rightarrow> rat" where
  "strengthScoreToPct score = max 0 (min 100 ((score + 2) / 4 * 100))"

definition computePositionStrengthPct :: "jsnum \<Rightarrow> jsnum \<Rightarrow> jsnum \<Rightarrow> rat option" where
  "computePositionStrengthPct sessionLow sessionHigh price =
     (case (sessionLow, sessionHigh, price) of
        (Fin l, Fin h, Fin p) \<Rightarrow>
          (let range = h - l
           in if range \<le> 0 then None
              else Some (max 0 (min 100 (to_fixed 2 ((p - l) / range * 100)))))
      | _ \<Rightarrow> None)"

section \<open>The generator\<close>

record SpotGapMockSymbolState =
  mk_open :: rat
  mk_close :: rat
  sessionHigh :: rat
  sessionLow :: rat
  referencePrice :: rat

record mock_item =
  it_symbol :: string
  it_state :: SpotGapMockSymbolState
  it_high :: rat
  it_low :: rat
  it_close :: rat
  it_price_chg :: rat
  it_pct_chg :: rat
  it_gap_value :: rat
  it_gap_pct :: rat
  it_is_new_high :: bool
  it_is_new_low :: bool
  it_strength :: "SpotStrengthState \<times> rat"
  it_strength_pct :: rat

record mock_payload =
  mp_ts :: rat
  mp_score :: rat
  mp_pct :: rat
  mp_count :: nat
  mp_weighted :: "rat option"
  mp_financial :: "rat option"
  mp_tech :: "rat option"
  mp_items :: "mock_item list"

record mock_generator =
  mg_ts :: rat
  mg_tick :: nat
  mg_state :: "(string, SpotGapMockSymbolState) dict"

definition SPOT_GAP_K_SYMBOLS :: "string list" where
  "SPOT_GAP_K_SYMBOLS = [''2330'', ''2317'', ''2454'', ''2308'', ''2881'', ''6505'']"

definition SPOT_GAP_K_BASE_OPEN :: "string \<Rightarrow> rat option" where
  "SPOT_GAP_K_BASE_OPEN = map_of
     [(''2330'', 948), (''2317'', 154), (''2454'', 1310), (''2308'', 252), (''2881'', 798 / 10),
      (''6505'', 1095 / 10)]"

text \<open>\<open>resolveMockSessionStartTs\<close> at the time \<open>now\<close>: None when formatting it throws.\<close>

definition resolveMockSessionStartTs :: "(string \<Rightarrow> jsnum) \<Rightarrow> rat \<Rightarrow> jsnum option" where
  "resolveMockSessionStartTs legacy now =
     map_option (\<lambda>datePart. date_parse legacy (datePart @ ''T10:00:00+08:00'')) (resolveTaipeiDatePart now)"

definition initial_symbol :: "nat \<Rightarrow> string \<Rightarrow> SpotGapMockSymbolState" where
  "initial_symbol index symbol =
     (let p = the (SPOT_GAP_K_BASE_OPEN symbol)
      in \<lparr>mk_open = p, mk_close = p, sessionHigh = p, sessionLow = p,
          referencePrice = to_fixed 2 (p * (1 - 3 / 1000 + of_nat index * (2 / 10000)))\<rparr>)"

definition createSpotLatestListMockGenerator :: "rat \<Rightarrow> mock_generator" where
  "createSpotLatestListMockGenerator initialTs =
     \<lparr>mg_ts = initialTs, mg_tick = 0,
      mg_state = map (\<lambda>(index, symbol). (symbol, initial_symbol index symbol)) (enumerate 0 SPOT_GAP_K_SYMBOLS)\<rparr>"

text \<open>The body of the \<open>SPOT_GAP_K_SYMBOLS.map\<close>: one symbol at one tick.\<close>

definition mock_symbol :: "(rat \<Rightarrow> rat) \<Rightarrow> nat \<Rightarrow> nat \<Rightarrow> string \<Rightarrow> SpotGapMockSymbolState \<Rightarrow> mock_item" where
  "mock_symbol math_sin tick index symbol current =
     (let wave = math_sin (of_nat (tick + index * 5) / 6) * mk_open current * (38 / 10000);
          drift = (of_nat ((tick + index * 11) mod 31) - 15) * mk_open current * (5 / 100000);
          close = to_fixed 2 (mk_open current + wave + drift);
          isNewHigh = sessionHigh current < close;
          isNewLow = close < sessionLow current;
          high = max (max (sessionHigh current) close) (mk_open current);
          low = min (min (sessionLow current) close) (mk_open current);
          gapValue = to_fixed 2 (mk_open current - referencePrice current);
          gapPct = (if referencePrice current = 0 then 0
                    else to_fixed 2 (gapValue / referencePrice current * 100));
          priceChg = to_fixed 2 (close - referencePrice current);
          pctChg = (if referencePrice current = 0 then 0
                    else to_fixed 2 ((close - referencePrice current) / referencePrice current * 100));
          strength = resolveSpotStrength (Fin (mk_open current)) (Fin close) isNewHigh isNewLow;
          strengthPct = (case computePositionStrengthPct (Fin low) (Fin high) (Fin close) of
            Some p \<Rightarrow> p | None \<Rightarrow> strengthScoreToPct (snd strength))
      in \<lparr>it_symbol = symbol,
          it_state = current\<lparr>mk_close := close, sessionHigh := high, sessionLow := low\<rparr>,
          it_high = high, it_low = low, it_close = close, it_price_chg = priceChg, it_pct_chg = pctChg,
          it_gap_value = gapValue, it_gap_pct = gapPct, it_is_new_high = isNewHigh, it_is_new_low = isNewLow,
          it_strength = strength, it_strength_pct = strengthPct\<rparr>)"

definition avgPct :: "rat list \<Rightarrow> rat option" where
  "avgPct values =
     (if values = [] then None else Some (to_fixed 2 (sum_list values / of_nat (length values))))"

definition sector_values :: "string list \<Rightarrow> mock_item list \<Rightarrow> rat list" where
  "sector_values symbols items = map it_strength_pct (filter (\<lambda>i. it_symbol i \<in> set symbols) items)"

definition mock_items :: "(rat \<Rightarrow> rat) \<Rightarrow> mock_generator \<Rightarrow> mock_item list" where
  "mock_items math_sin g =
     map (\<lambda>(index, symbol). mock_symbol math_sin (mg_tick g) index symbol (the (dict_get (mg_state g) symbol)))
       (enumerate 0 SPOT_GAP_K_SYMBOLS)"

text \<open>One \<open>next()\<close>: the payload and the generator after it.\<close>

definition mock_next :: "(rat \<Rightarrow> rat) \<Rightarrow> mock_generator \<Rightarrow> mock_payload \<times> mock_generator" where
  "mock_next math_sin g =
     (let items = mock_items math_sin g;
          n = length SPOT_GAP_K_SYMBOLS;
          marketScoreSum = sum_list (map (\<lambda>i. snd (it_strength i)) items)
      in (\<lparr>mp_ts = mg_ts g,
           mp_score = to_fixed 3 (marketScoreSum / of_nat n),
           mp_pct = to_fixed 2 (marketScoreSum / of_nat (n * 2) * 100),
           mp_count = n,
           mp_weighted = avgPct (sector_values [''2330'', ''2317''] items),
           mp_financial = avgPct (sector_values [''2881'', ''6505''] items),
           mp_tech = avgPct (sector_values [''2454'', ''2308''] items),
           mp_items = items\<rparr>,
          \<lparr>mg_ts = mg_ts g + 1000, mg_tick = mg_tick g + 1,
           mg_state = fold (\<lambda>i d. dict_set d (it_symbol i) (it_state i)) items (mg_state g)\<rparr>))"

text \<open>\<open>marketBreakdown[state]\<close>\<close>

definition breakdown :: "mock_payload \<Rightarrow> SpotStrengthState \<Rightarrow> nat" where
  "breakdown p s = length (filter (\<lambda>i. fst (it_strength i) = s) (mp_items p))"

section \<open>The payload as a value\<close>

fun state_name :: "SpotStrengthState \<Rightarrow> string" where
  "state_name new_high = ''new_high''"
| "state_name strong_up = ''strong_up''"
| "state_name flat = ''flat''"
| "state_name strong_down = ''strong_down''"
| "state_name new_low = ''new_low''"

abbreviation num :: "rat \<Rightarrow> jsval" where "num x \<equiv> Num (Fin x)"

definition item_value :: "nat \<Rightarrow> rat \<Rightarrow> mock_item \<Rightarrow> jsval" where
  "item_value ref ts i = Obj ref
     [(''symbol'', Str (it_symbol i)), (''open'', num (mk_open (it_state i))), (''high'', num (it_high i)),
      (''low'', num (it_low i)), (''close'', num (it_close i)), (''last_price'', num (it_close i)),
      (''session_high'', num (it_high i)), (''session_low'', num (it_low i)),
      (''reference_price'', num (referencePrice (it_state i))), (''price_chg'', num (it_price_chg i)),
      (''pct_chg'', num (it_pct_chg i)), (''gap_value'', num (it_gap_value i)), (''gap_pct'', num (it_gap_pct i)),
      (''is_gap_up'', Bool (0 < it_gap_value i)), (''is_gap_down'', Bool (it_gap_value i < 0)),
      (''is_new_high'', Bool (it_is_new_high i)), (''is_new_low'', Bool (it_is_new_low i)),
      (''strength_state'', Str (state_name (fst (it_strength i)))), (''strength_score'', num (snd (it_strength i))),
      (''strength_pct'', num (it_strength_pct i)), (''updated_at'', num ts)]"

definition opt_num :: "rat option \<Rightarrow> jsval" where
  "opt_num x = (case x of None \<Rightarrow> Null | Some r \<Rightarrow> num r)"

definition sector_value :: "nat \<Rightarrow> mock_payload \<Rightarrow> jsval" where
  "sector_value ref p = Obj ref
     [(''weighted'', opt_num (mp_weighted p)), (''financial'', opt_num (mp_financial p)), (''tech'', opt_num (mp_tech p))]"

definition breakdown_value :: "nat \<Rightarrow> mock_payload \<Rightarrow> jsval" where
  "breakdown_value ref p = Obj ref
     (map (\<lambda>s. (state_name s, num (of_nat (breakdown p s)))) [new_high, strong_up, flat, strong_down, new_low])"

definition payload_value :: "nat \<Rightarrow> mock_payload \<Rightarrow> jsval" where
  "payload_value ref p = Obj ref
     [(''ts'', num (mp_ts p)), (''market_strength_score'', num (mp_score p)),
      (''market_strength_pct'', num (mp_pct p)), (''market_strength_count'', num (of_nat (mp_count p))),
      (''sector_strength'', sector_value (ref + 1) p),
      (''market_strength_breakdown'', breakdown_value (ref + 2) p),
      (''items'', Arr (ref + 3) (map (\<lambda>(k, i). item_value (ref + 4 + k) (mp_ts p) i) (enumerate 0 (mp_items p))))]"

section \<open>Every payload is well formed\<close>

lemma strength_score_range:
  "- 2 \<le> snd (resolveSpotStrength a b h l) \<and> snd (resolveSpotStrength a b h l) \<le> 2"
  by (auto simp: resolveSpotStrength_def Let_def split: jsnum.split)

lemma strengthScoreToPct_range: "0 \<le> strengthScoreToPct s" "strengthScoreToPct s \<le> 100"
  by (auto simp: strengthScoreToPct_def)

lemma computePositionStrengthPct_range:
  "computePositionStrengthPct l h p = Some x \<Longrightarrow> 0 \<le> x \<and> x \<le> 100"
  by (auto simp: computePositionStrengthPct_def Let_def split: jsnum.splits if_splits)

definition item_ok :: "mock_item \<Rightarrow> bool" where
  "item_ok i \<longleftrightarrow> it_low i \<le> it_close i \<and> it_close i \<le> it_high i
     \<and> it_low i \<le> mk_open (it_state i) \<and> mk_open (it_state i) \<le> it_high i
     \<and> 0 \<le> it_strength_pct i \<and> it_strength_pct i \<le> 100
     \<and> - 2 \<le> snd (it_strength i) \<and> snd (it_strength i) \<le> 2
     \<and> sessionHigh (it_state i) = it_high i \<and> sessionLow (it_state i) = it_low i"

lemma mock_symbol_ok: "item_ok (mock_symbol math_sin tick index symbol current)"
  using strength_score_range strengthScoreToPct_range
  by (auto simp: item_ok_def mock_symbol_def Let_def dest: computePositionStrengthPct_range split: option.split)

lemma mock_symbol_extends:
  "sessionHigh current \<le> it_high (mock_symbol math_sin tick index symbol current)
   \<and> it_low (mock_symbol math_sin tick index symbol current) \<le> sessionLow current
   \<and> it_symbol (mock_symbol math_sin tick index symbol current) = symbol"
  by (simp add: mock_symbol_def Let_def le_max_iff_disj min_le_iff_disj)

lemma mock_items_ok: "\<forall>i \<in> set (mock_items math_sin g). item_ok i"
  by (auto simp: mock_items_def mock_symbol_ok)

lemma mock_items_symbols: "map it_symbol (mock_items math_sin g) = SPOT_GAP_K_SYMBOLS"
proof -
  have "it_symbol \<circ> (\<lambda>(index, symbol). mock_symbol math_sin (mg_tick g) index symbol (the (dict_get (mg_state g) symbol))) = snd"
    by (auto simp: mock_symbol_extends)
  then show ?thesis by (simp add: mock_items_def)
qed

lemma to_fixed_mono: "x \<le> y \<Longrightarrow> \<bar>x\<bar> < 10 ^ 21 \<Longrightarrow> \<bar>y\<bar> < 10 ^ 21 \<Longrightarrow> to_fixed d x \<le> to_fixed d y"
proof -
  assume xy: "x \<le> y" "\<bar>x\<bar> < 10 ^ 21" "\<bar>y\<bar> < 10 ^ 21"
  define f where "f z = (of_int \<lfloor>z * 10 ^ d + 1 / 2\<rfloor> / 10 ^ d :: rat)" for z :: rat
  have mono: "f a \<le> f b" if "a \<le> b" for a b
    unfolding f_def using that by (intro divide_right_mono of_int_le_iff [THEN iffD2] floor_mono) auto
  have nonneg: "0 \<le> f a" if "0 \<le> a" for a
    unfolding f_def using that by (intro divide_nonneg_nonneg) auto
  have tf: "to_fixed d z = sgn z * f \<bar>z\<bar>" if "\<bar>z\<bar> < 10 ^ 21" for z
    using that by (simp add: to_fixed_def f_def)
  show ?thesis
    unfolding tf [OF xy(2)] tf [OF xy(3)]
    using xy(1) mono [of "\<bar>x\<bar>" "\<bar>y\<bar>"] mono [of "\<bar>y\<bar>" "\<bar>x\<bar>"] nonneg [of "\<bar>x\<bar>"] nonneg [of "\<bar>y\<bar>"]
    by (auto simp: sgn_if)
qed

lemma to_fixed_int: "x \<in> \<int> \<Longrightarrow> to_fixed d x = x"
proof (cases "10 ^ 21 \<le> \<bar>x\<bar>")
  case False
  assume "x \<in> \<int>"
  then obtain n :: int where x: "x = of_int n" by (rule Ints_cases)
  have "\<lfloor>\<bar>of_int n\<bar> * 10 ^ d + 1 / 2 :: rat\<rfloor> = \<bar>n\<bar> * 10 ^ d"
    by (rule floor_unique) auto
  then have "of_int \<lfloor>\<bar>x\<bar> * 10 ^ d + 1 / 2\<rfloor> / 10 ^ d = \<bar>x\<bar>" by (simp add: x)
  with False show ?thesis by (simp add: to_fixed_def sgn_mult_abs flip: times_divide_eq_right)
qed (simp add: to_fixed_def)

lemma to_fixed_range:
  assumes "of_int a \<le> x" "x \<le> of_int b" "\<bar>of_int a\<bar> < (10 ^ 21 :: rat)" "\<bar>of_int b\<bar> < (10 ^ 21 :: rat)"
  shows "of_int a \<le> to_fixed d x \<and> to_fixed d x \<le> of_int b"
proof -
  have "\<bar>x\<bar> < 10 ^ 21" using assms by linarith
  then show ?thesis
    using to_fixed_mono [of "of_int a" x d] to_fixed_mono [of x "of_int b" d] assms
    by (simp add: to_fixed_int)
qed

lemma sum_list_range:
  fixes f :: "'a \<Rightarrow> rat"
  assumes "\<forall>x \<in> set xs. a \<le> f x \<and> f x \<le> b"
  shows "of_nat (length xs) * a \<le> sum_list (map f xs) \<and> sum_list (map f xs) \<le> of_nat (length xs) * b"
  using assms by (induction xs) (auto simp: algebra_simps)

lemma avgPct_range:
  assumes "vs \<noteq> []" and "\<forall>v \<in> set vs. 0 \<le> v \<and> v \<le> 100"
  shows "\<exists>x. avgPct vs = Some x \<and> 0 \<le> x \<and> x \<le> 100"
proof -
  have "0 \<le> sum_list vs" "sum_list vs \<le> of_nat (length vs) * 100"
    using sum_list_range [of vs 0 "\<lambda>x. x" 100] assms(2) by simp_all
  moreover have "(0::rat) < of_nat (length vs)" using assms(1) by simp
  ultimately have "0 \<le> sum_list vs / of_nat (length vs)" "sum_list vs / of_nat (length vs) \<le> 100"
    by (simp_all add: divide_le_eq mult.commute)
  then show ?thesis
    using assms(1) to_fixed_range [of 0 "sum_list vs / of_nat (length vs)" 100 2] by (simp add: avgPct_def)
qed

lemma sector_avg:
  assumes "s \<in> set SPOT_GAP_K_SYMBOLS" "s \<in> set symbols"
  shows "\<exists>x. avgPct (sector_values symbols (mock_items math_sin g)) = Some x \<and> 0 \<le> x \<and> x \<le> 100"
proof (rule avgPct_range)
  from assms(1) obtain i where "i \<in> set (mock_items math_sin g)" "it_symbol i = s"
    by (metis (no_types, lifting) image_iff list.set_map mock_items_symbols)
  then show "sector_values symbols (mock_items math_sin g) \<noteq> []"
    using assms(2) by (auto simp: sector_values_def filter_empty_conv)
  show "\<forall>v \<in> set (sector_values symbols (mock_items math_sin g)). 0 \<le> v \<and> v \<le> 100"
    using mock_items_ok by (fastforce simp: sector_values_def item_ok_def)
qed

definition payload_ok :: "mock_payload \<Rightarrow> bool" where
  "payload_ok p \<longleftrightarrow>
     map it_symbol (mp_items p) = SPOT_GAP_K_SYMBOLS \<and> (\<forall>i \<in> set (mp_items p). item_ok i)
     \<and> - 2 \<le> mp_score p \<and> mp_score p \<le> 2 \<and> - 100 \<le> mp_pct p \<and> mp_pct p \<le> 100
     \<and> (\<forall>a \<in> {mp_weighted p, mp_financial p, mp_tech p}. \<exists>x. a = Some x \<and> 0 \<le> x \<and> x \<le> 100)
     \<and> breakdown p new_high + breakdown p strong_up + breakdown p flat + breakdown p strong_down
         + breakdown p new_low = mp_count p"

lemma breakdown_total:
  "length (filter (\<lambda>i. f i = new_high) xs) + length (filter (\<lambda>i. f i = strong_up) xs)
     + length (filter (\<lambda>i. f i = flat) xs) + length (filter (\<lambda>i. f i = strong_down) xs)
     + length (filter (\<lambda>i. f i = new_low) xs) = length xs"
proof (induction xs)
  case Nil
  then show ?case by simp
next
  case (Cons x xs)
  then show ?case by (cases "f x") auto
qed

lemma mock_next_ok: "payload_ok (fst (mock_next math_sin g))"
proof -
  let ?items = "mock_items math_sin g"
  have len: "length ?items = 6" using mock_items_symbols [THEN arg_cong, of length] by (simp add: SPOT_GAP_K_SYMBOLS_def)
  have "\<forall>i \<in> set ?items. - 2 \<le> snd (it_strength i) \<and> snd (it_strength i) \<le> 2"
    using mock_items_ok by (auto simp: item_ok_def)
  from sum_list_range [OF this] have "- 12 \<le> sum_list (map (\<lambda>i. snd (it_strength i)) ?items)"
    "sum_list (map (\<lambda>i. snd (it_strength i)) ?items) \<le> 12"
    by (simp_all add: len)
  then have "of_int (- 2) \<le> sum_list (map (\<lambda>i. snd (it_strength i)) ?items) / 6"
    "sum_list (map (\<lambda>i. snd (it_strength i)) ?items) / 6 \<le> of_int 2"
    "of_int (- 100) \<le> sum_list (map (\<lambda>i. snd (it_strength i)) ?items) / 12 * 100"
    "sum_list (map (\<lambda>i. snd (it_strength i)) ?items) / 12 * 100 \<le> of_int 100"
    by simp_all
  note r = to_fixed_range [OF this(1,2), of 3] to_fixed_range [OF this(3,4), of 2]
  have sym: "''2330'' \<in> set SPOT_GAP_K_SYMBOLS" "''2881'' \<in> set SPOT_GAP_K_SYMBOLS"
    "''2454'' \<in> set SPOT_GAP_K_SYMBOLS"
    by (simp_all add: SPOT_GAP_K_SYMBOLS_def)
  show ?thesis
    unfolding payload_ok_def
    using mock_items_symbols [of math_sin g] mock_items_ok [of math_sin g] r breakdown_total [of "\<lambda>i. fst (it_strength i)" ?items]
      sector_avg [OF sym(1), of "[''2330'', ''2317'']" math_sin g]
      sector_avg [OF sym(2), of "[''2881'', ''6505'']" math_sin g]
      sector_avg [OF sym(3), of "[''2454'', ''2308'']" math_sin g]
    by (simp add: mock_next_def Let_def breakdown_def len) (simp add: SPOT_GAP_K_SYMBOLS_def)
qed

lemma item_conforms:
  assumes "it_symbol i \<in> set SPOT_GAP_K_SYMBOLS"
  shows "conforms SpotLatestItemSchema (item_value ref ts i)"
proof -
  have "trim (it_symbol i) = it_symbol i" "1 \<le> length (it_symbol i)"
    using assms by (auto simp: SPOT_GAP_K_SYMBOLS_def is_ws_def intro!: trim_id)
  moreover have "state_name s \<in> set [''new_high'', ''strong_up'', ''flat'', ''strong_down'', ''new_low'']" for s
    by (cases s) simp_all
  ultimately show ?thesis
    unfolding SpotLatestItemSchema_def item_value_def by simp
qed

lemma payload_conforms:
  assumes "payload_ok p"
  shows "conforms SpotLatestListSchema (payload_value ref p)"
proof -
  have "conforms SpotSectorStrengthSchema (sector_value r p)" for r
    unfolding SpotSectorStrengthSchema_def sector_value_def by (simp add: opt_num_def split: option.split)
  moreover have "conforms SpotStrengthBreakdownSchema (breakdown_value r p)" for r
    unfolding SpotStrengthBreakdownSchema_def breakdown_value_def by simp
  moreover have "\<forall>x \<in> set (map (\<lambda>(k, i). item_value (ref + 4 + k) (mp_ts p) i) (enumerate 0 (mp_items p))).
      conforms SpotLatestItemSchema x"
  proof -
    have "it_symbol i \<in> set SPOT_GAP_K_SYMBOLS" if "i \<in> set (mp_items p)" for i
      using assms that by (metis (no_types, lifting) image_eqI list.set_map payload_ok_def)
    moreover have "i \<in> set (mp_items p)" if "(k, i) \<in> set (enumerate 0 (mp_items p))" for k i
      using that by (auto simp: enumerate_eq_zip dest: set_zip_rightD)
    ultimately show ?thesis by (auto simp: item_conforms)
  qed
  ultimately show ?thesis
    unfolding SpotLatestListSchema_def payload_value_def by simp
qed

section \<open>Property\<close>

text \<open>
  Every payload of the mock generator, whatever \<open>Math.sin\<close> returns: one item per symbol
  with low, open and close within the session's extremes and a strength between 0 and 100, a
  market score between -2 and 2, sector averages present and between 0 and 100, a breakdown
  that counts every symbol once; as a value it passes the schema of the real events; and the
  next payload is one second later.
\<close>

theorem mock_payload_sound:
  "case mock_next math_sin g of
     (p, g') \<Rightarrow> payload_ok p \<and> conforms SpotLatestListSchema (payload_value ref p) \<and> mp_ts p = mg_ts g
       \<and> mg_ts g' = mg_ts g + 1000"
  using mock_next_ok [of math_sin g] payload_conforms [OF mock_next_ok, of ref math_sin g]
  by (auto simp: mock_next_def Let_def)

end
