(* ===== verification/RealtimeManager.thy ===== *)
theory RealtimeManager
  imports SseWorker SpotMock StoreLaws
begin

text \<open>
  The connection manager, class \<open>RealtimeManager\<close> of
  \<open>features/realtime/services/realtime-manager.ts\<close>, as a state machine. Its fields are the
  class's; beside them the state holds what the runtime keeps for it: the stream tasks that
  have not settled and their progress, the calls of \<open>startWhenReady\<close> that wait for one, the
  abort signals already raised, the timeouts pending, and the queues to and from the worker.

  A step is one synchronous stretch of the program: a call by the client, a timer, or the
  continuation of an \<open>await\<close>. The runtime is the standard library's: an aborted \<open>fetch\<close> or
  reader rejects and delivers nothing more; a rejected task runs its \<open>catch\<close> handler in one
  step and its \<open>finally\<close> handler in a later one, and other steps may come between.
  The test-environment branches (\<open>NODE_ENV === "test"\<close>) are left out, and so is the reading of
  \<open>response.text()\<close> after the reader, which the standard makes fail (the body is used) and
  whose failure the code ignores.
\<close>

section \<open>State\<close>

datatype task_phase = Fetching | Reading string bool | Finalizing

record worker_link =
  wl_state :: worker_state
  wl_inbox :: "worker_message list"
  wl_outbox :: "sse_batch list"

record manager =
  token :: "string option"
  abortController :: "nat option"
  streamTask :: "nat option"
  reconnectTimer :: bool
  spotGapMockTimer :: bool
  spotGapMockGenerator :: "mock_generator option"
  reconnectAttempts :: nat
  startSequence :: nat
  stoppedByClient :: bool
  batch_window :: pending
  m_worker :: "worker_link option"
  store :: rt_state
  aborted :: "nat list"
  tasks :: "(nat \<times> task_phase) list"
  waiters :: "(nat \<times> nat) list"
  armed_delay :: "nat option"
  next_id :: nat
  gate_cache :: session_cache
  json_tick :: nat

record manager_env =
  js :: js_env
  ENABLE_SPOT_GAP_K_MOCK :: bool
  ENABLE_SSE_WORKER :: bool
  worker_supported :: bool
  math_sin :: "rat \<Rightarrow> rat"
  now_ms :: rat

definition new_manager :: "rt_state \<Rightarrow> manager" where
  "new_manager st =
     \<lparr>token = None, abortController = None, streamTask = None, reconnectTimer = False,
      spotGapMockTimer = False, spotGapMockGenerator = None, reconnectAttempts = 0, startSequence = 0,
      stoppedByClient = False, batch_window = no_pending, m_worker = None, store = st, aborted = [],
      tasks = [], waiters = [], armed_delay = None, next_id = 0, gate_cache = empty_session_cache,
      json_tick = 0\<rparr>"

section \<open>Methods\<close>

definition set_status :: "SseConnectionStatus \<Rightarrow> string option \<Rightarrow> manager \<Rightarrow> manager" where
  "set_status status reason m = m\<lparr>store := setConnectionStatus status reason (store m)\<rparr>"

definition apply_batch :: "manager_env \<Rightarrow> sse_batch \<Rightarrow> manager \<Rightarrow> manager" where
  "apply_batch env b m =
     (case applySseBatch (show_value (js env)) b (store m) of
        None \<Rightarrow> m | Some (st, _) \<Rightarrow> m\<lparr>store := st\<rparr>)"

text \<open>\<open>clearReconnectTimer\<close> does nothing when the field holds no handle.\<close>

definition clearReconnectTimer :: "manager \<Rightarrow> manager" where
  "clearReconnectTimer m =
     (if \<not> reconnectTimer m then m else m\<lparr>reconnectTimer := False, armed_delay := None\<rparr>)"

definition scheduleReconnect :: "nat \<Rightarrow> manager \<Rightarrow> manager" where
  "scheduleReconnect delayMs m =
     (clearReconnectTimer m)\<lparr>reconnectAttempts := reconnectAttempts m + 1, reconnectTimer := True,
        armed_delay := Some delayMs\<rparr>"

definition clearSpotGapMockTimer :: "manager \<Rightarrow> manager" where
  "clearSpotGapMockTimer m = m\<lparr>spotGapMockTimer := False, spotGapMockGenerator := None\<rparr>"

definition mock_emit :: "manager_env \<Rightarrow> manager \<Rightarrow> manager" where
  "mock_emit env m =
     (case spotGapMockGenerator m of
        None \<Rightarrow> m
      | Some g \<Rightarrow>
          (case mock_next (math_sin env) g of
             (p, g') \<Rightarrow> apply_batch env (empty_batch\<lparr>b_spotLatestList := payload_value (fresh (store m)) p\<rparr>)
               (m\<lparr>spotGapMockGenerator := Some g',
                  store := (store m)\<lparr>fresh := fresh (store m) + 4 + length (mp_items p)\<rparr>\<rparr>)))"

definition startSpotGapKMock :: "manager_env \<Rightarrow> manager \<Rightarrow> manager" where
  "startSpotGapKMock env m =
     (case resolveMockSessionStartTs (legacy_date (js env)) (now_ms env) of
        Some (Fin ts) \<Rightarrow>
          (mock_emit env (set_status connected None
             (m\<lparr>spotGapMockGenerator := Some (createSpotLatestListMockGenerator ts)\<rparr>)))\<lparr>spotGapMockTimer := True\<rparr>
      | _ \<Rightarrow> m)"

text \<open>
  \<open>startWhenReady\<close> up to its \<open>await\<close>, and from there on: a new controller and a new task.
\<close>

definition launch :: "manager \<Rightarrow> manager" where
  "launch m =
     (let c = next_id m;
          m1 = m\<lparr>abortController := Some c, next_id := c + 1\<rparr>;
          m2 = set_status (if 0 < reconnectAttempts m then retrying else connecting) None m1
      in m2\<lparr>tasks := (c, Fetching) # tasks m, streamTask := Some c\<rparr>)"

definition startWhenReady :: "nat \<Rightarrow> manager \<Rightarrow> manager" where
  "startWhenReady sequence m =
     (if token m = None then m
      else (let m1 = (case abortController m of None \<Rightarrow> m | Some c \<Rightarrow> m\<lparr>aborted := c # aborted m\<rparr>)
            in (case streamTask m of
                  None \<Rightarrow> launch m1
                | Some t \<Rightarrow> m1\<lparr>waiters := waiters m @ [(sequence, t)]\<rparr>)))"

definition resume_start :: "nat \<Rightarrow> manager \<Rightarrow> manager" where
  "resume_start sequence m =
     (if sequence \<noteq> startSequence m \<or> token m = None \<or> stoppedByClient m then m else launch m)"

definition start :: "manager \<Rightarrow> manager" where
  "start m = startWhenReady (startSequence m + 1) (m\<lparr>startSequence := startSequence m + 1\<rparr>)"

definition disconnect :: "manager \<Rightarrow> manager" where
  "disconnect m =
     (let m1 = clearSpotGapMockTimer (clearReconnectTimer
            (m\<lparr>stoppedByClient := True, token := None, startSequence := startSequence m + 1,
               reconnectAttempts := 0\<rparr>));
          m2 = (case abortController m1 of None \<Rightarrow> m1
                | Some c \<Rightarrow> m1\<lparr>aborted := c # aborted m1, abortController := None\<rparr>);
          m3 = m2\<lparr>batch_window := no_pending, m_worker := None\<rparr>
      in set_status idle None m3)"

definition connect :: "manager_env \<Rightarrow> string \<Rightarrow> manager \<Rightarrow> manager" where
  "connect env tok m =
     (if tok = [] then disconnect m
      else if token m = Some tok \<and> abortController m \<noteq> None then m
      else (let m1 = clearSpotGapMockTimer (clearReconnectTimer (m\<lparr>token := Some tok, stoppedByClient := False\<rparr>))
            in if ENABLE_SPOT_GAP_K_MOCK env then startSpotGapKMock env m1 else start m1))"

text \<open>The handlers of the stream task: \<open>catch\<close>, by the error it is rejected with, and \<open>finally\<close>.\<close>

datatype rejection = Insecure_transport | Http_status nat | Failure

definition reconnect_delay :: "nat \<Rightarrow> nat" where
  "reconnect_delay attempts = min 30000 (1000 * max 1 (2 ^ attempts))"

definition on_reject :: "nat \<Rightarrow> rejection \<Rightarrow> manager \<Rightarrow> manager" where
  "on_reject c r m =
     (if stoppedByClient m \<or> c \<in> set (aborted m) then m
      else (case r of
          Insecure_transport \<Rightarrow> set_status error (Some ''stream_disconnected'') m
        | Http_status s \<Rightarrow>
            if s = 401 \<or> s = 403 then set_status error (Some ''auth_failed'') m
            else if s = 429 then scheduleReconnect 5000 (set_status retrying (Some ''rate_limited'') m)
            else scheduleReconnect (reconnect_delay (reconnectAttempts m))
              (set_status retrying (Some ''stream_disconnected'') m)
        | Failure \<Rightarrow> scheduleReconnect (reconnect_delay (reconnectAttempts m))
              (set_status retrying (Some ''stream_disconnected'') m)))"

definition set_phase :: "nat \<Rightarrow> task_phase \<Rightarrow> manager \<Rightarrow> manager" where
  "set_phase c ph m = m\<lparr>tasks := map (\<lambda>(t, p). if t = c then (t, ph) else (t, p)) (tasks m)\<rparr>"

definition reject_task :: "nat \<Rightarrow> rejection \<Rightarrow> manager \<Rightarrow> manager" where
  "reject_task c r m = set_phase c Finalizing (on_reject c r m)"

definition on_finally :: "nat \<Rightarrow> manager \<Rightarrow> manager" where
  "on_finally c m =
     m\<lparr>abortController := if abortController m = Some c then None else abortController m,
       streamTask := if streamTask m = Some c then None else streamTask m,
       tasks := filter (\<lambda>(t, p). t \<noteq> c) (tasks m)\<rparr>"

section \<open>The stream\<close>

definition post_to_worker :: "worker_message \<Rightarrow> manager \<Rightarrow> manager" where
  "post_to_worker msg m =
     (case m_worker m of None \<Rightarrow> m
      | Some w \<Rightarrow> m\<lparr>m_worker := Some (w\<lparr>wl_inbox := wl_inbox w @ [msg]\<rparr>)\<rparr>)"

definition ensure_worker :: "manager_env \<Rightarrow> manager \<Rightarrow> manager" where
  "ensure_worker env m =
     (if ENABLE_SSE_WORKER env \<and> m_worker m = None \<and> worker_supported env
      then m\<lparr>m_worker := Some \<lparr>wl_state = worker_init, wl_inbox = [], wl_outbox = []\<rparr>\<rparr>
      else m)"

text \<open>The response is in and its status is good: counters and status, then the reader.\<close>

definition stream_open :: "manager \<Rightarrow> manager" where
  "stream_open m = set_status connected None (m\<lparr>reconnectAttempts := 0\<rparr>)"

definition stream_ready :: "manager_env \<Rightarrow> nat \<Rightarrow> manager \<Rightarrow> manager" where
  "stream_ready env c m = set_phase c (Reading [] False) (ensure_worker env (stream_open m))"

text \<open>The frames of a text read on the main thread, collected into a batch.\<close>

definition read_frames ::
  "manager_env \<Rightarrow> string list \<Rightarrow> manager \<Rightarrow> manager \<times> (sse_batch \<times> bool) option" where
  "read_frames env frames m =
     (case frames_loop (js env) (kbarCurrentByCode (store m)) frames
          \<lparr>fl_cache = gate_cache m, fl_tick = json_tick m, fl_batch = empty_batch, fl_processed = False\<rparr> of
        (s, ok) \<Rightarrow>
          (m\<lparr>gate_cache := fl_cache s, json_tick := fl_tick s\<rparr>,
           if ok then Some (fl_batch s, fl_processed s) else None))"

definition merge_into_window :: "sse_batch \<Rightarrow> manager \<Rightarrow> manager" where
  "merge_into_window b m = m\<lparr>batch_window := mergeIntoPendingBatch b (batch_window m)\<rparr>"

text \<open>A chunk: to the worker when there is one (unless posting fails), else read here.\<close>

definition stream_chunk ::
  "manager_env \<Rightarrow> nat \<Rightarrow> string \<Rightarrow> bool \<Rightarrow> string \<Rightarrow> bool \<Rightarrow> manager \<Rightarrow> manager" where
  "stream_chunk env c buffer processed chunk post_ok m =
     (if m_worker m \<noteq> None then
        (if post_ok then set_phase c (Reading buffer True) (post_to_worker (W_chunk chunk) m)
         else set_phase c (Reading (buffer @ chunk) processed) m)
      else (case splitSseBuffer (buffer @ chunk) of
          (frames, rest) \<Rightarrow>
            (case read_frames env frames m of
               (m1, None) \<Rightarrow> reject_task c Failure m1
             | (m1, Some (b, p)) \<Rightarrow>
                 merge_into_window b (set_phase c (Reading rest (processed \<or> p)) m1))))"

text \<open>The reader is done: the worker is told, and the task ends, with an error unless aborted.\<close>

definition stream_done :: "nat \<Rightarrow> manager \<Rightarrow> manager" where
  "stream_done c m =
     (let m1 = post_to_worker W_flush m
      in if c \<in> set (aborted m) then set_phase c Finalizing m1 else reject_task c Failure m1)"

text \<open>A response without a body: its text is read at once and the task ends without an error.\<close>

definition stream_no_body :: "manager_env \<Rightarrow> nat \<Rightarrow> string \<Rightarrow> manager \<Rightarrow> manager" where
  "stream_no_body env c text m =
     (case read_frames env (fst (splitSseBuffer text)) (stream_open m) of
        (m1, None) \<Rightarrow> reject_task c Failure m1
      | (m1, Some (b, _)) \<Rightarrow> set_phase c Finalizing (merge_into_window b m1))"

text \<open>The flush timer, and the two ends of the worker's message queues.\<close>

definition flush_window :: "manager_env \<Rightarrow> manager \<Rightarrow> manager" where
  "flush_window env m =
     (case flushPendingBatch (batch_window m) of
        (p, out) \<Rightarrow>
          (case out of None \<Rightarrow> m\<lparr>batch_window := p\<rparr> | Some b \<Rightarrow> apply_batch env b (m\<lparr>batch_window := p\<rparr>)))"

definition handleWorkerMessage :: "sse_batch \<Rightarrow> manager \<Rightarrow> manager" where
  "handleWorkerMessage b m = merge_into_window b m"

definition worker_turn :: "js_env \<Rightarrow> worker_event \<Rightarrow> worker_link \<Rightarrow> worker_link" where
  "worker_turn env e w =
     (case worker_step env e (wl_state w) of
        (s, out) \<Rightarrow> w\<lparr>wl_state := s, wl_outbox := wl_outbox w @ out\<rparr>)"

section \<open>Steps\<close>

inductive manager_step :: "manager_env \<Rightarrow> manager \<Rightarrow> manager \<Rightarrow> bool" for env where
  s_connect: "manager_step env m (connect env tok m)"
| s_disconnect: "manager_step env m (disconnect m)"
| s_reconnect: "armed_delay m = Some d \<Longrightarrow> manager_step env m (start (m\<lparr>armed_delay := None\<rparr>))"
| s_resume: "waiters m = ws @ (s, t) # ws' \<Longrightarrow> t \<notin> fst ` set (tasks m) \<Longrightarrow>
    manager_step env m (resume_start s (m\<lparr>waiters := ws @ ws'\<rparr>))"
| s_response: "(c, Fetching) \<in> set (tasks m) \<Longrightarrow> c \<notin> set (aborted m) \<Longrightarrow>
    manager_step env m (stream_ready env c m)"
| s_bad_status: "(c, Fetching) \<in> set (tasks m) \<Longrightarrow> c \<notin> set (aborted m) \<Longrightarrow>
    manager_step env m (reject_task c (Http_status status) m)"
| s_no_body: "(c, Fetching) \<in> set (tasks m) \<Longrightarrow> c \<notin> set (aborted m) \<Longrightarrow>
    manager_step env m (stream_no_body env c text m)"
| s_fail: "(c, ph) \<in> set (tasks m) \<Longrightarrow> ph \<noteq> Finalizing \<Longrightarrow> manager_step env m (reject_task c Failure m)"
| s_chunk: "(c, Reading buffer p) \<in> set (tasks m) \<Longrightarrow> c \<notin> set (aborted m) \<Longrightarrow>
    manager_step env m (stream_chunk env c buffer p chunk post_ok m)"
| s_done: "(c, Reading buffer p) \<in> set (tasks m) \<Longrightarrow> manager_step env m (stream_done c m)"
| s_finally: "(c, Finalizing) \<in> set (tasks m) \<Longrightarrow> manager_step env m (on_finally c m)"
| s_flush: "pendingBatchTimer (batch_window m) \<Longrightarrow> manager_step env m (flush_window env m)"
| s_mock: "spotGapMockTimer m \<Longrightarrow> manager_step env m (mock_emit env m)"
| s_worker: "m_worker m = Some w \<Longrightarrow> wl_inbox w = msg # msgs \<Longrightarrow>
    manager_step env m
      (m\<lparr>m_worker := Some (worker_turn (js env) (On_message msg) (w\<lparr>wl_inbox := msgs\<rparr>))\<rparr>)"
| s_worker_timer: "m_worker m = Some w \<Longrightarrow>
    manager_step env m (m\<lparr>m_worker := Some (worker_turn (js env) On_timer w)\<rparr>)"
| s_worker_batch: "m_worker m = Some w \<Longrightarrow> wl_outbox w = b # bs \<Longrightarrow>
    manager_step env m (handleWorkerMessage b (m\<lparr>m_worker := Some (w\<lparr>wl_outbox := bs\<rparr>)\<rparr>))"

definition is_new :: "manager \<Rightarrow> bool" where
  "is_new m \<longleftrightarrow> (\<exists>st. m = new_manager st)"

abbreviation manager_reachable :: "manager_env \<Rightarrow> manager \<Rightarrow> bool" where
  "manager_reachable env \<equiv> reachable is_new (manager_step env)"

end
