(* ===== verification/ManagerLaws.thy ===== *)
theory ManagerLaws
  imports RealtimeManager
begin

text \<open>
  The invariants of the connection manager: at most one stream task is unsettled and it is the
  one the fields name; a stopped manager has nothing scheduled; a manager with a token is never
  silently idle; reconnection delays lie between one and thirty seconds; and after a
  disconnect no step but a new connect changes the store.
\<close>

section \<open>The invariant\<close>

text \<open>The task and its controller.\<close>

definition task_inv :: "manager \<Rightarrow> bool" where
  "task_inv m \<longleftrightarrow>
     (streamTask m = None \<longrightarrow> tasks m = []) \<and> (\<forall>t. streamTask m = Some t \<longrightarrow> (\<exists>ph. tasks m = [(t, ph)]))
     \<and> (\<forall>c. abortController m = Some c \<longrightarrow> streamTask m = Some c)
     \<and> (\<forall>t. streamTask m = Some t \<longrightarrow> abortController m = None \<longrightarrow> t \<in> set (aborted m))
     \<and> (\<forall>t. streamTask m = Some t \<longrightarrow> t < next_id m) \<and> (\<forall>t \<in> set (aborted m). t < next_id m)"

text \<open>The starts that wait: only the latest can still launch, and it waits for the task at hand.\<close>

definition waiter_inv :: "manager \<Rightarrow> bool" where
  "waiter_inv m \<longleftrightarrow> distinct (map fst (waiters m))
     \<and> (\<forall>(s, t) \<in> set (waiters m). s \<le> startSequence m
          \<and> (s = startSequence m \<longrightarrow> streamTask m = None \<or> streamTask m = Some t))"

text \<open>Without a token nothing is scheduled.\<close>

definition quiet :: "manager \<Rightarrow> bool" where
  "quiet m \<longleftrightarrow> armed_delay m = None \<and> batch_window m = no_pending \<and> m_worker m = None
     \<and> \<not> spotGapMockTimer m \<and> abortController m = None"

definition stop_inv :: "manager \<Rightarrow> bool" where
  "stop_inv m \<longleftrightarrow> (stoppedByClient m \<longrightarrow> token m = None) \<and> (token m = None \<longrightarrow> quiet m)"

definition timer_inv :: "manager \<Rightarrow> bool" where
  "timer_inv m \<longleftrightarrow>
     (\<forall>d. armed_delay m = Some d \<longrightarrow> reconnectTimer m \<and> 1000 \<le> d \<and> d \<le> 30000)
     \<and> pending_ok (batch_window m) \<and> (spotGapMockTimer m \<longrightarrow> spotGapMockGenerator m \<noteq> None)"

definition manager_inv :: "manager \<Rightarrow> bool" where
  "manager_inv m \<longleftrightarrow> task_inv m \<and> waiter_inv m \<and> stop_inv m \<and> timer_inv m"

lemma manager_invI [intro?]:
  "task_inv m \<Longrightarrow> waiter_inv m \<Longrightarrow> stop_inv m \<Longrightarrow> timer_inv m \<Longrightarrow> manager_inv m"
  by (simp add: manager_inv_def)

lemma manager_invD:
  assumes "manager_inv m"
  shows "task_inv m" "waiter_inv m" "stop_inv m" "timer_inv m"
  using assms by (simp_all add: manager_inv_def)

lemmas inv_defs = task_inv_def waiter_inv_def stop_inv_def timer_inv_def quiet_def

text \<open>An update of fields the invariant does not read.\<close>

lemma manager_inv_cong:
  assumes "manager_inv m"
    and "token m' = token m" "abortController m' = abortController m" "streamTask m' = streamTask m"
    and "reconnectTimer m' = reconnectTimer m" "spotGapMockTimer m' = spotGapMockTimer m"
    and "startSequence m' = startSequence m" "stoppedByClient m' = stoppedByClient m"
    and "batch_window m' = batch_window m" "m_worker m' = m_worker m" "aborted m' = aborted m"
    and "tasks m' = tasks m" "waiters m' = waiters m" "armed_delay m' = armed_delay m"
    and "next_id m' = next_id m"
    and "spotGapMockGenerator m \<noteq> None \<longrightarrow> spotGapMockGenerator m' \<noteq> None"
  shows "manager_inv m'"
  using assms(1) assms(16) unfolding manager_inv_def inv_defs assms(2-15) by blast

lemma reconnect_delay_range: "1000 \<le> reconnect_delay a" "reconnect_delay a \<le> 30000"
  by (auto simp: reconnect_delay_def)

section \<open>The methods keep it\<close>

lemma inv_set_status [inv_intros]: "manager_inv m \<Longrightarrow> manager_inv (set_status s r m)"
  by (erule manager_inv_cong) (simp_all add: set_status_def)

lemma inv_apply_batch [inv_intros]: "manager_inv m \<Longrightarrow> manager_inv (apply_batch env b m)"
  by (erule manager_inv_cong) (simp_all add: apply_batch_def split: option.splits)

lemma inv_clearReconnectTimer [inv_intros]:
  "manager_inv m \<Longrightarrow> manager_inv (clearReconnectTimer m)"
  by (auto simp: manager_inv_def inv_defs clearReconnectTimer_def)

lemma inv_scheduleReconnect [inv_intros]:
  "manager_inv m \<Longrightarrow> token m \<noteq> None \<Longrightarrow> 1000 \<le> d \<Longrightarrow> d \<le> 30000 \<Longrightarrow> manager_inv (scheduleReconnect d m)"
  by (auto simp: manager_inv_def inv_defs scheduleReconnect_def clearReconnectTimer_def)

lemma inv_clearSpotGapMockTimer [inv_intros]:
  "manager_inv m \<Longrightarrow> manager_inv (clearSpotGapMockTimer m)"
  by (auto simp: manager_inv_def inv_defs clearSpotGapMockTimer_def)

lemma inv_mock_emit [inv_intros]: "manager_inv m \<Longrightarrow> manager_inv (mock_emit env m)"
  by (erule manager_inv_cong)
    (auto simp: mock_emit_def apply_batch_def split: option.splits prod.splits)

lemma task_not_aborted:
  assumes "manager_inv m" and "(c, ph) \<in> set (tasks m)" and "c \<notin> set (aborted m)"
  shows "token m \<noteq> None" and "\<not> stoppedByClient m"
  using assms by (auto simp: manager_inv_def inv_defs split: option.splits)

lemma inv_launch:
  assumes "manager_inv m" and "streamTask m = None" and "token m \<noteq> None"
    and "\<forall>(s, t) \<in> set (waiters m). s \<noteq> startSequence m"
  shows "manager_inv (launch m)"
proof
  have "next_id m \<notin> set (aborted m)" using assms(1) by (auto simp: manager_inv_def inv_defs)
  show "task_inv (launch m)"
    using assms(1,2) by (auto simp: manager_inv_def inv_defs launch_def Let_def set_status_def)
  show "waiter_inv (launch m)"
    using assms(1,4) by (auto simp: manager_inv_def inv_defs launch_def Let_def set_status_def)
  show "stop_inv (launch m)"
    using assms(1,3) by (auto simp: manager_inv_def inv_defs launch_def Let_def set_status_def)
  show "timer_inv (launch m)"
    using assms(1) by (auto simp: manager_inv_def inv_defs launch_def Let_def set_status_def)
qed

lemma inv_bump_sequence: "manager_inv m \<Longrightarrow> manager_inv (m\<lparr>startSequence := startSequence m + 1\<rparr>)"
  by (fastforce simp: manager_inv_def inv_defs)

lemma inv_abort:
  "manager_inv m \<Longrightarrow> abortController m = Some c \<Longrightarrow> manager_inv (m\<lparr>aborted := c # aborted m\<rparr>)"
  by (auto simp: manager_inv_def inv_defs)

lemma inv_start [inv_intros]:
  assumes "manager_inv m"
  shows "manager_inv (start m)"
proof -
  let ?s = "startSequence m + 1"
  let ?m = "m\<lparr>startSequence := ?s\<rparr>"
  have inv: "manager_inv ?m" by (rule inv_bump_sequence [OF assms])
  have old: "\<forall>(s, t) \<in> set (waiters m). s < ?s"
    using assms by (fastforce simp: manager_inv_def inv_defs)
  define m1 where "m1 = (case abortController m of None \<Rightarrow> ?m | Some c \<Rightarrow> ?m\<lparr>aborted := c # aborted ?m\<rparr>)"
  have m1: "manager_inv m1" "streamTask m1 = streamTask m" "token m1 = token m" "waiters m1 = waiters m"
    "startSequence m1 = ?s"
    using inv inv_abort [OF inv] by (auto simp: m1_def split: option.splits)
  have start: "start m = (if token m = None then ?m else
      (case streamTask m of None \<Rightarrow> launch m1 | Some t \<Rightarrow> m1\<lparr>waiters := waiters m @ [(?s, t)]\<rparr>))"
    by (simp add: start_def startWhenReady_def m1_def Let_def split: option.split)
  show ?thesis
  proof (cases "token m = None")
    case True
    then show ?thesis using inv by (simp add: start)
  next
    case False
    show ?thesis
    proof (cases "streamTask m")
      case None
      have "manager_inv (launch m1)"
        using m1 old None False by (intro inv_launch) auto
      then show ?thesis using None False by (auto simp: start)
    next
      case (Some t)
      have "?s \<notin> fst ` set (waiters m)" using old by auto
      then have "manager_inv (m1\<lparr>waiters := waiters m @ [(?s, t)]\<rparr>)"
        using m1 old Some by (auto simp: manager_inv_def inv_defs)
      then show ?thesis using Some False by (auto simp: start)
    qed
  qed
qed

lemma inv_resume [inv_intros]:
  assumes "manager_inv m" and w: "waiters m = ws @ (s, t) # ws'" and t: "t \<notin> fst ` set (tasks m)"
  shows "manager_inv (resume_start s (m\<lparr>waiters := ws @ ws'\<rparr>))"
proof -
  let ?m = "m\<lparr>waiters := ws @ ws'\<rparr>"
  have inv: "manager_inv ?m"
    using assms(1) w by (auto simp: manager_inv_def inv_defs)
  show ?thesis
  proof (cases "s \<noteq> startSequence m \<or> token m = None \<or> stoppedByClient m")
    case True
    then show ?thesis using inv by (simp add: resume_start_def)
  next
    case False
    then have "streamTask m = None"
      using assms by (auto simp: manager_inv_def inv_defs split: option.splits)
    moreover have "\<forall>(s', t') \<in> set (ws @ ws'). s' \<noteq> startSequence m"
    proof -
      have "distinct (map fst (ws @ (s, t) # ws'))"
        using assms(1) w by (simp add: manager_inv_def waiter_inv_def)
      then have "s \<notin> fst ` set (ws @ ws')" by auto
      moreover have "s = startSequence m" using False by simp
      ultimately show ?thesis by (metis (mono_tags, lifting) case_prodI2 fst_conv image_eqI)
    qed
    ultimately have "manager_inv (launch ?m)" using False by (intro inv_launch [OF inv]) auto
    then show ?thesis using False by (auto simp: resume_start_def)
  qed
qed

lemma disconnect_fields [simp]:
  "token (disconnect m) = None" "stoppedByClient (disconnect m)" "abortController (disconnect m) = None"
  "streamTask (disconnect m) = streamTask m" "tasks (disconnect m) = tasks m"
  "waiters (disconnect m) = waiters m" "next_id (disconnect m) = next_id m"
  "startSequence (disconnect m) = startSequence m + 1" "batch_window (disconnect m) = no_pending"
  "m_worker (disconnect m) = None" "\<not> spotGapMockTimer (disconnect m)"
  "aborted (disconnect m) = (case abortController m of None \<Rightarrow> aborted m | Some c \<Rightarrow> c # aborted m)"
  "armed_delay (disconnect m) = (if reconnectTimer m then None else armed_delay m)"
proof -
  define m0 where "m0 = m\<lparr>stoppedByClient := True, token := None, startSequence := startSequence m + 1,
    reconnectAttempts := 0\<rparr>"
  define m1 where "m1 = clearSpotGapMockTimer (clearReconnectTimer m0)"
  define m2 where "m2 = (case abortController m1 of None \<Rightarrow> m1
    | Some c \<Rightarrow> m1\<lparr>aborted := c # aborted m1, abortController := None\<rparr>)"
  have d: "disconnect m = set_status idle None (m2\<lparr>batch_window := no_pending, m_worker := None\<rparr>)"
    unfolding disconnect_def Let_def m2_def m1_def m0_def by (rule refl)
  have m0: "token m0 = None" "stoppedByClient m0" "abortController m0 = abortController m"
    "streamTask m0 = streamTask m" "tasks m0 = tasks m" "waiters m0 = waiters m" "next_id m0 = next_id m"
    "startSequence m0 = startSequence m + 1" "aborted m0 = aborted m" "reconnectTimer m0 = reconnectTimer m"
    "armed_delay m0 = armed_delay m"
    by (simp_all add: m0_def)
  have m1: "token m1 = None" "stoppedByClient m1" "abortController m1 = abortController m"
    "streamTask m1 = streamTask m" "tasks m1 = tasks m" "waiters m1 = waiters m" "next_id m1 = next_id m"
    "startSequence m1 = startSequence m + 1" "aborted m1 = aborted m" "\<not> spotGapMockTimer m1"
    "armed_delay m1 = (if reconnectTimer m then None else armed_delay m)"
    by (simp_all add: m1_def clearReconnectTimer_def clearSpotGapMockTimer_def m0)
  have m2: "token m2 = None" "stoppedByClient m2" "abortController m2 = None"
    "streamTask m2 = streamTask m" "tasks m2 = tasks m" "waiters m2 = waiters m" "next_id m2 = next_id m"
    "startSequence m2 = startSequence m + 1" "\<not> spotGapMockTimer m2"
    "armed_delay m2 = (if reconnectTimer m then None else armed_delay m)"
    "aborted m2 = (case abortController m of None \<Rightarrow> aborted m | Some c \<Rightarrow> c # aborted m)"
    by (cases "abortController m"; simp add: m2_def m1)+
  show "token (disconnect m) = None" "stoppedByClient (disconnect m)" "abortController (disconnect m) = None"
    "streamTask (disconnect m) = streamTask m" "tasks (disconnect m) = tasks m"
    "waiters (disconnect m) = waiters m" "next_id (disconnect m) = next_id m"
    "startSequence (disconnect m) = startSequence m + 1" "batch_window (disconnect m) = no_pending"
    "m_worker (disconnect m) = None" "\<not> spotGapMockTimer (disconnect m)"
    "aborted (disconnect m) = (case abortController m of None \<Rightarrow> aborted m | Some c \<Rightarrow> c # aborted m)"
    "armed_delay (disconnect m) = (if reconnectTimer m then None else armed_delay m)"
    by (simp_all add: d set_status_def m2)
qed

lemma inv_disconnect [inv_intros]:
  assumes "manager_inv m"
  shows "manager_inv (disconnect m)"
proof
  note inv = manager_invD [OF assms]
  have armed: "armed_delay (disconnect m) = None"
    using inv(4) by (cases "armed_delay m") (auto simp: timer_inv_def)
  show "task_inv (disconnect m)"
    using inv(1) by (cases "abortController m") (auto simp: task_inv_def)
  show "waiter_inv (disconnect m)"
    using inv(2) by (fastforce simp: waiter_inv_def)
  show "stop_inv (disconnect m)" using armed by (simp add: stop_inv_def quiet_def)
  show "timer_inv (disconnect m)" using armed by (simp add: timer_inv_def pending_ok_intros)
qed

lemma inv_startSpotGapKMock:
  assumes "manager_inv m" and "token m \<noteq> None" and "\<not> stoppedByClient m"
  shows "manager_inv (startSpotGapKMock env m)"
proof -
  have "manager_inv (m'\<lparr>spotGapMockTimer := True\<rparr>)"
    if "manager_inv m'" "token m' \<noteq> None" "spotGapMockGenerator m' \<noteq> None" for m'
    using that by (auto simp: manager_inv_def inv_defs)
  moreover have "manager_inv (mock_emit env (set_status connected None (m\<lparr>spotGapMockGenerator := Some g\<rparr>)))" for g
    using assms(1) by (intro inv_mock_emit inv_set_status) (auto simp: manager_inv_def inv_defs)
  moreover have "token (mock_emit env m') = token m'"
    "spotGapMockGenerator m' \<noteq> None \<Longrightarrow> spotGapMockGenerator (mock_emit env m') \<noteq> None" for m'
    by (auto simp: mock_emit_def apply_batch_def split: option.splits prod.splits)
  ultimately show ?thesis
    using assms by (auto simp: startSpotGapKMock_def set_status_def split: option.splits jsnum.splits)
qed

lemma inv_connect [inv_intros]:
  assumes "manager_inv m"
  shows "manager_inv (connect env tok m)"
proof -
  let ?m = "m\<lparr>token := Some tok, stoppedByClient := False\<rparr>"
  have "manager_inv ?m" using assms by (auto simp: manager_inv_def inv_defs)
  then have inv: "manager_inv (clearSpotGapMockTimer (clearReconnectTimer ?m))"
    by (intro inv_intros)
  have tok: "token (clearSpotGapMockTimer (clearReconnectTimer ?m)) \<noteq> None"
    "\<not> stoppedByClient (clearSpotGapMockTimer (clearReconnectTimer ?m))"
    by (simp_all add: clearSpotGapMockTimer_def clearReconnectTimer_def)
  show ?thesis
    using assms inv_disconnect [OF assms] inv_startSpotGapKMock [OF inv tok] inv_start [OF inv]
    by (simp add: connect_def Let_def)
qed

lemma inv_set_phase [inv_intros]: "manager_inv m \<Longrightarrow> manager_inv (set_phase c ph m)"
  by (auto simp: manager_inv_def inv_defs set_phase_def split: option.splits)

lemma inv_on_reject [inv_intros]:
  assumes "manager_inv m" and "(c, ph) \<in> set (tasks m)"
  shows "manager_inv (on_reject c r m)"
proof (cases "stoppedByClient m \<or> c \<in> set (aborted m)")
  case True
  then show ?thesis using assms by (simp add: on_reject_def)
next
  case False
  then have "token (set_status s x m) \<noteq> None" for s x
    using task_not_aborted(1) [OF assms] by (simp add: set_status_def)
  then show ?thesis
    using assms False reconnect_delay_range [of "reconnectAttempts m"]
    by (auto simp: on_reject_def intro!: inv_scheduleReconnect inv_set_status split: rejection.splits)
qed

lemma inv_reject_task [inv_intros]:
  "manager_inv m \<Longrightarrow> (c, ph) \<in> set (tasks m) \<Longrightarrow> manager_inv (reject_task c r m)"
  unfolding reject_task_def by (intro inv_set_phase inv_on_reject)

lemma inv_on_finally [inv_intros]:
  assumes "manager_inv m" and "(c, Finalizing) \<in> set (tasks m)"
  shows "manager_inv (on_finally c m)"
proof -
  note inv = manager_invD [OF assms(1)]
  have c: "streamTask m = Some c" "tasks m = [(c, Finalizing)]"
    using inv(1) assms(2) by (cases "streamTask m"; auto simp: task_inv_def)+
  have "abortController m = None \<or> abortController m = Some c"
    using inv(1) c by (cases "abortController m") (auto simp: task_inv_def)
  then have fin: "on_finally c m = m\<lparr>abortController := None, streamTask := None, tasks := []\<rparr>"
    using c by (auto simp: on_finally_def)
  show ?thesis
    using inv c unfolding manager_inv_def fin by (simp add: inv_defs) blast
qed

lemma inv_merge [inv_intros]:
  "manager_inv m \<Longrightarrow> token m \<noteq> None \<Longrightarrow> manager_inv (merge_into_window b m)"
  by (auto simp: manager_inv_def inv_defs merge_into_window_def pending_ok_intros)

lemma inv_post [inv_intros]: "manager_inv m \<Longrightarrow> manager_inv (post_to_worker msg m)"
  by (auto simp: manager_inv_def inv_defs post_to_worker_def split: option.splits)

lemma inv_ensure_worker: "manager_inv m \<Longrightarrow> token m \<noteq> None \<Longrightarrow> manager_inv (ensure_worker env m)"
  by (auto simp: manager_inv_def inv_defs ensure_worker_def)

lemma inv_stream_open [inv_intros]: "manager_inv m \<Longrightarrow> manager_inv (stream_open m)"
  unfolding stream_open_def by (intro inv_set_status, erule manager_inv_cong) simp_all

lemma read_frames_frame:
  assumes "read_frames env fs m = (m1, r)"
  shows "tasks m1 = tasks m" "token m1 = token m" "aborted m1 = aborted m" "stoppedByClient m1 = stoppedByClient m"
    and "manager_inv m \<Longrightarrow> manager_inv m1"
proof -
  show "tasks m1 = tasks m" "token m1 = token m" "aborted m1 = aborted m" "stoppedByClient m1 = stoppedByClient m"
    using assms by (auto simp: read_frames_def split: prod.splits)
  show "manager_inv m \<Longrightarrow> manager_inv m1"
    using assms by (elim manager_inv_cong) (auto simp: read_frames_def split: prod.splits)
qed

lemma inv_stream_chunk [inv_intros]:
  assumes "manager_inv m" and c: "(c, Reading buffer p) \<in> set (tasks m)" "c \<notin> set (aborted m)"
  shows "manager_inv (stream_chunk env c buffer p chunk post_ok m)"
proof -
  have tok: "token m \<noteq> None" by (rule task_not_aborted [OF assms])
  obtain frames rest where sp: "splitSseBuffer (buffer @ chunk) = (frames, rest)" by fastforce
  obtain m1 r where rf: "read_frames env frames m = (m1, r)" by fastforce
  note f = read_frames_frame [OF rf]
  have "manager_inv (reject_task c Failure m1)"
    using f assms by (intro inv_reject_task) auto
  moreover have "manager_inv (merge_into_window b (set_phase c ph m1))" for b ph
    using f assms tok by (intro inv_merge inv_set_phase) (auto simp: set_phase_def)
  ultimately show ?thesis
    using assms(1) by (auto simp: stream_chunk_def sp rf inv_set_phase inv_post split: option.splits)
qed

lemma inv_stream_no_body [inv_intros]:
  assumes "manager_inv m" and c: "(c, Fetching) \<in> set (tasks m)" "c \<notin> set (aborted m)"
  shows "manager_inv (stream_no_body env c text m)"
proof -
  have tok: "token m \<noteq> None" by (rule task_not_aborted [OF assms])
  obtain m1 r where rf: "read_frames env (fst (splitSseBuffer text)) (stream_open m) = (m1, r)" by fastforce
  note f = read_frames_frame [OF rf]
  have o: "tasks (stream_open m) = tasks m" "token (stream_open m) = token m"
    by (simp_all add: stream_open_def set_status_def)
  have "manager_inv (reject_task c Failure m1)"
    using f assms o inv_stream_open by (intro inv_reject_task) auto
  moreover have "manager_inv (set_phase c Finalizing (merge_into_window b m1))" for b
    using f assms tok o inv_stream_open by (intro inv_set_phase inv_merge) auto
  ultimately show ?thesis
    by (auto simp: stream_no_body_def rf split: option.splits)
qed

lemma inv_stream_ready [inv_intros]:
  assumes "manager_inv m" and c: "(c, Fetching) \<in> set (tasks m)" "c \<notin> set (aborted m)"
  shows "manager_inv (stream_ready env c m)"
proof -
  have "token (stream_open m) \<noteq> None"
    using task_not_aborted(1) [OF assms] by (simp add: stream_open_def set_status_def)
  then show ?thesis
    unfolding stream_ready_def by (intro inv_set_phase inv_ensure_worker inv_stream_open assms(1))
qed

lemma inv_stream_done [inv_intros]:
  assumes "manager_inv m" and c: "(c, Reading buffer p) \<in> set (tasks m)"
  shows "manager_inv (stream_done c m)"
proof -
  have "(c, Reading buffer p) \<in> set (tasks (post_to_worker W_flush m))"
    using c by (simp add: post_to_worker_def split: option.split)
  then show ?thesis
    unfolding stream_done_def Let_def
    by (auto intro!: inv_set_phase inv_reject_task inv_post [OF assms(1)])
qed

lemma inv_flush_window [inv_intros]:
  assumes "manager_inv m"
  shows "manager_inv (flush_window env m)"
proof -
  have "fst (flushPendingBatch (batch_window m)) = no_pending"
    by (simp add: flushPendingBatch_def no_pending_def)
  moreover have "manager_inv (m\<lparr>batch_window := no_pending\<rparr>)"
    using assms by (auto simp: manager_inv_def inv_defs pending_ok_intros)
  ultimately show ?thesis
    by (auto simp: flush_window_def inv_apply_batch split: prod.splits option.splits)
qed

lemma inv_worker_update:
  "manager_inv m \<Longrightarrow> m_worker m = Some w \<Longrightarrow> manager_inv (m\<lparr>m_worker := Some w'\<rparr>)"
  by (auto simp: manager_inv_def inv_defs)

lemma manager_inv_step:
  assumes inv: "manager_inv m" and step: "manager_step env m m'"
  shows "manager_inv m'"
  using step
proof cases
  case (s_reconnect d)
  have "manager_inv (m\<lparr>armed_delay := None\<rparr>)" using inv by (auto simp: manager_inv_def inv_defs)
  then show ?thesis using s_reconnect inv_start by simp
next
  case (s_worker_batch w b bs)
  have "token m \<noteq> None" using inv s_worker_batch by (auto simp: manager_inv_def inv_defs)
  then have "manager_inv (merge_into_window b (m\<lparr>m_worker := Some (w\<lparr>wl_outbox := bs\<rparr>)\<rparr>))"
    using inv_worker_update [OF inv s_worker_batch(2)] by (intro inv_merge) auto
  then show ?thesis using s_worker_batch by (simp add: handleWorkerMessage_def)
qed (use inv in \<open>auto intro: inv_intros inv_worker_update\<close>)

lemma manager_inv_new: "is_new m \<Longrightarrow> manager_inv m"
  by (auto simp: is_new_def new_manager_def manager_inv_def inv_defs pending_ok_intros)

interpretation manager: invariant_of is_new "manager_step env" manager_inv for env
  by unfold_locales (auto intro: manager_inv_new manager_inv_step)

section \<open>Never silently idle\<close>

definition mock_clock_ok :: "manager_env \<Rightarrow> bool" where
  "mock_clock_ok env \<longleftrightarrow>
     (ENABLE_SPOT_GAP_K_MOCK env \<longrightarrow>
       (\<exists>ts. resolveMockSessionStartTs (legacy_date (js env)) (now_ms env) = Some (Fin ts)))"

definition busy :: "manager \<Rightarrow> bool" where
  "busy m \<longleftrightarrow>
     (\<exists>t ph. (t, ph) \<in> set (tasks m) \<and> ph \<noteq> Finalizing \<and> t \<notin> set (aborted m))
     \<or> armed_delay m \<noteq> None \<or> startSequence m \<in> fst ` set (waiters m) \<or> spotGapMockTimer m"

definition not_idle :: "manager \<Rightarrow> bool" where
  "not_idle m \<longleftrightarrow> (token m \<noteq> None \<longrightarrow> busy m \<or> connectionStatus (store m) \<in> {error, connected})"

definition live_inv :: "manager \<Rightarrow> bool" where
  "live_inv m \<longleftrightarrow> manager_inv m \<and> not_idle m"

lemma not_idle_cong:
  assumes "not_idle m"
    and "tasks m' = tasks m" "aborted m' = aborted m" "armed_delay m' = armed_delay m" "waiters m' = waiters m"
    and "startSequence m' = startSequence m" "spotGapMockTimer m' = spotGapMockTimer m" "token m' = token m"
    and "connectionStatus (store m') = connectionStatus (store m)"
  shows "not_idle m'"
  using assms(1) unfolding not_idle_def busy_def assms(2-9) .

lemma apply_batch_status [simp]:
  "connectionStatus (store (apply_batch env b m)) = connectionStatus (store m)"
proof -
  have d: "connectionStatus st' = connectionStatus st"
    if "apply_distribution b st = Some (st', ch)" for st st' ch
    using that by (auto simp: apply_distribution_def Let_def split: prod.splits option.splits if_splits)
  have "connectionStatus st' = connectionStatus st"
    if ap: "applySseBatch sv b st = Some (st', ch)" for st st' ch sv
  proof -
    obtain st3 ch3 where "apply_distribution b (fst (apply_list b (fst (apply_maps sv b st)))) = Some (st3, ch3)"
      and "st' = fst (apply_singles b st3)"
      by (rule applySseBatch_parts [OF ap])
    then show ?thesis
      using d by (fastforce simp: apply_singles_alt apply_list_def apply_maps_def Let_def split: prod.splits)
  qed
  then show ?thesis by (auto simp: apply_batch_def split: option.split)
qed

lemma apply_batch_fields [simp]:
  "tasks (apply_batch env b m) = tasks m" "aborted (apply_batch env b m) = aborted m"
  "armed_delay (apply_batch env b m) = armed_delay m" "waiters (apply_batch env b m) = waiters m"
  "startSequence (apply_batch env b m) = startSequence m" "token (apply_batch env b m) = token m"
  "spotGapMockTimer (apply_batch env b m) = spotGapMockTimer m"
  "stoppedByClient (apply_batch env b m) = stoppedByClient m"
  by (simp_all add: apply_batch_def split: option.split)

lemma busy_launch:
  assumes "manager_inv m"
  shows "busy (launch m)"
proof -
  have "next_id m \<notin> set (aborted m)" using assms by (auto simp: manager_inv_def inv_defs)
  then show ?thesis by (auto simp: busy_def launch_def Let_def set_status_def)
qed

lemma busy_start:
  assumes "manager_inv m" and "token m \<noteq> None"
  shows "busy (start m)"
proof (cases "streamTask m")
  case None
  then have a: "abortController m = None" using assms(1) by (auto simp: manager_inv_def inv_defs)
  have "start m = launch (m\<lparr>startSequence := startSequence m + 1\<rparr>)"
    using None assms(2) by (auto simp: start_def startWhenReady_def a)
  then show ?thesis using busy_launch [OF inv_bump_sequence [OF assms(1)]] by simp
next
  case (Some t)
  then show ?thesis
    using assms(2)
    by (auto simp: busy_def start_def startWhenReady_def Let_def split: option.split)
qed

text \<open>The only task, when it is aborted or winding down, is not what keeps the manager busy.\<close>

lemma busy_without_task:
  assumes "manager_inv m" and "(c, ph) \<in> set (tasks m)" and "busy m" and "ph = Finalizing \<or> c \<in> set (aborted m)"
  shows "armed_delay m \<noteq> None \<or> startSequence m \<in> fst ` set (waiters m) \<or> spotGapMockTimer m"
  using assms by (cases "streamTask m") (auto simp: busy_def manager_inv_def task_inv_def)

lemma not_idle_set_phase_active:
  assumes "(c, ph) \<in> set (tasks m)" and "c \<notin> set (aborted m)" and "ph' \<noteq> Finalizing"
  shows "not_idle (set_phase c ph' m)"
proof -
  have "(c, ph') \<in> set (tasks (set_phase c ph' m))"
    using assms(1) by (force simp: set_phase_def)
  moreover have "aborted (set_phase c ph' m) = aborted m" by (simp add: set_phase_def)
  ultimately have "busy (set_phase c ph' m)" unfolding busy_def using assms(2,3) by metis
  then show ?thesis by (simp add: not_idle_def)
qed

lemma not_idle_settled:
  assumes "manager_inv m" and "not_idle m" and "(c, ph) \<in> set (tasks m)" and "c \<in> set (aborted m)"
  shows "not_idle (set_phase c Finalizing m)"
  using busy_without_task [OF assms(1,3)] assms(2,4)
  by (auto simp: not_idle_def busy_def set_phase_def)

lemma not_idle_reject:
  assumes "manager_inv m" and "not_idle m" and "(c, ph) \<in> set (tasks m)"
  shows "not_idle (reject_task c r m)"
proof (cases "stoppedByClient m \<or> c \<in> set (aborted m)")
  case True
  have "not_idle (set_phase c Finalizing m)"
  proof (cases "c \<in> set (aborted m)")
    case True
    then show ?thesis by (rule not_idle_settled [OF assms])
  next
    case False
    then have "token m = None" using \<open>stoppedByClient m \<or> c \<in> set (aborted m)\<close> assms(1)
      by (auto simp: manager_inv_def inv_defs)
    then show ?thesis by (simp add: not_idle_def set_phase_def)
  qed
  then show ?thesis using True by (simp add: reject_task_def on_reject_def)
next
  case False
  then show ?thesis
    by (auto simp: reject_task_def on_reject_def not_idle_def busy_def set_phase_def set_status_def
        setConnectionStatus_def scheduleReconnect_def clearReconnectTimer_def split: rejection.splits)
qed

lemma read_frames_not_idle:
  assumes "read_frames env fs m = (m1, r)" and "not_idle m"
  shows "not_idle m1"
  using assms(2) by (rule not_idle_cong) (use assms(1) in \<open>auto simp: read_frames_def split: prod.splits\<close>)

lemma mock_emit_status [simp]: "connectionStatus (store (mock_emit env m)) = connectionStatus (store m)"
  by (simp add: mock_emit_def split: option.split prod.split)

lemma not_idle_connected: "connectionStatus (store m) = connected \<Longrightarrow> not_idle m"
  by (simp add: not_idle_def)

lemma not_idle_startMock:
  assumes "resolveMockSessionStartTs (legacy_date (js env)) (now_ms env) = Some (Fin ts)"
  shows "not_idle (startSpotGapKMock env m)"
  by (rule not_idle_connected) (simp add: startSpotGapKMock_def assms set_status_def setConnectionStatus_def)

lemma not_idle_connect:
  assumes "mock_clock_ok env" and "manager_inv m" and "not_idle m"
  shows "not_idle (connect env tok m)"
proof -
  let ?m = "clearSpotGapMockTimer (clearReconnectTimer (m\<lparr>token := Some tok, stoppedByClient := False\<rparr>))"
  have "manager_inv (m\<lparr>token := Some tok, stoppedByClient := False\<rparr>)"
    using assms(2) by (auto simp: manager_inv_def inv_defs)
  then have inv: "manager_inv ?m" by (intro inv_intros)
  have tok: "token ?m \<noteq> None" by (simp add: clearSpotGapMockTimer_def clearReconnectTimer_def)
  have "not_idle (start ?m)" using busy_start [OF inv tok] by (simp add: not_idle_def)
  moreover have "ENABLE_SPOT_GAP_K_MOCK env \<Longrightarrow> not_idle (startSpotGapKMock env ?m)"
    using assms(1) not_idle_startMock by (auto simp: mock_clock_ok_def)
  moreover have "not_idle (disconnect m)" by (simp add: not_idle_def)
  ultimately show ?thesis using assms(3) by (simp add: connect_def Let_def)
qed

lemma not_idle_resume:
  assumes "manager_inv m" and "not_idle m" and "waiters m = ws @ (s, t) # ws'" and "t \<notin> fst ` set (tasks m)"
  shows "not_idle (resume_start s (m\<lparr>waiters := ws @ ws'\<rparr>))"
proof (cases "s \<noteq> startSequence m \<or> token m = None \<or> stoppedByClient m")
  case True
  then have "s \<noteq> startSequence m \<or> token m = None"
    using assms(1) by (auto simp: manager_inv_def stop_inv_def)
  then show ?thesis
    using True assms(2,3) by (auto simp: resume_start_def not_idle_def busy_def)
next
  case False
  have "manager_inv (m\<lparr>waiters := ws @ ws'\<rparr>)"
    using assms(1,3) by (auto simp: manager_inv_def inv_defs)
  from busy_launch [OF this] show ?thesis using False by (simp add: resume_start_def not_idle_def)
qed

lemma not_idle_chunk:
  assumes inv: "manager_inv m" "not_idle m" and c: "(c, Reading buffer p) \<in> set (tasks m)" "c \<notin> set (aborted m)"
  shows "not_idle (stream_chunk env c buffer p chunk post_ok m)"
proof -
  obtain frames rest where sp: "splitSseBuffer (buffer @ chunk) = (frames, rest)" by fastforce
  obtain m1 r where rf: "read_frames env frames m = (m1, r)" by fastforce
  note f = read_frames_frame [OF rf]
  have post: "tasks (post_to_worker x m) = tasks m" "aborted (post_to_worker x m) = aborted m" for x
    by (simp_all add: post_to_worker_def split: option.split)
  have merge: "not_idle m' \<Longrightarrow> not_idle (merge_into_window b m')" for b m'
    by (erule not_idle_cong) (simp_all add: merge_into_window_def)
  have "not_idle (reject_task c Failure m1)"
    using f inv c read_frames_not_idle [OF rf] by (intro not_idle_reject) auto
  moreover have "not_idle (merge_into_window b (set_phase c (Reading rest q) m1))" for b q
    using f c by (intro merge not_idle_set_phase_active) auto
  moreover have "not_idle (set_phase c (Reading buffer True) (post_to_worker (W_chunk chunk) m))"
    "not_idle (set_phase c (Reading (buffer @ chunk) p) m)"
    using c by (auto simp: post intro: not_idle_set_phase_active)
  ultimately show ?thesis
    by (auto simp: stream_chunk_def sp rf split: option.splits)
qed

lemma not_idle_no_body:
  assumes "manager_inv m" and c: "(c, Fetching) \<in> set (tasks m)" "c \<notin> set (aborted m)"
  shows "not_idle (stream_no_body env c text m)"
proof -
  obtain m1 r where rf: "read_frames env (fst (splitSseBuffer text)) (stream_open m) = (m1, r)" by fastforce
  note f = read_frames_frame [OF rf]
  have o: "tasks (stream_open m) = tasks m" "connectionStatus (store (stream_open m)) = connected"
    by (simp_all add: stream_open_def set_status_def setConnectionStatus_def)
  then have con: "connectionStatus (store m1) = connected"
    using rf by (auto simp: read_frames_def split: prod.splits)
  then have "not_idle (reject_task c Failure m1)"
    using f inv_stream_open [OF assms(1)] c o by (intro not_idle_reject) (auto intro: not_idle_connected)
  moreover have "not_idle (set_phase c Finalizing (merge_into_window b m1))" for b
    using con by (intro not_idle_connected) (simp add: set_phase_def merge_into_window_def)
  ultimately show ?thesis by (auto simp: stream_no_body_def rf split: option.splits)
qed

lemma not_idle_done:
  assumes "manager_inv m" "not_idle m" and c: "(c, Reading buffer p) \<in> set (tasks m)"
  shows "not_idle (stream_done c m)"
proof -
  let ?m = "post_to_worker W_flush m"
  have post: "tasks ?m = tasks m" "aborted ?m = aborted m"
    by (simp_all add: post_to_worker_def split: option.split)
  have "not_idle ?m"
    using assms(2) by (elim not_idle_cong) (simp_all add: post_to_worker_def split: option.split)
  then show ?thesis
    using not_idle_settled [OF inv_post [OF assms(1)], of W_flush c "Reading buffer p"]
      not_idle_reject [OF inv_post [OF assms(1)], of W_flush c "Reading buffer p" Failure] c
    by (simp add: stream_done_def post Let_def)
qed

lemma not_idle_finally:
  assumes "manager_inv m" "not_idle m" and c: "(c, Finalizing) \<in> set (tasks m)"
  shows "not_idle (on_finally c m)"
  using busy_without_task [OF assms(1) c] assms(2)
  by (auto simp: not_idle_def busy_def on_finally_def)

lemma live_inv_step:
  assumes env: "mock_clock_ok env" and live: "live_inv m" and step: "manager_step env m m'"
  shows "live_inv m'"
proof -
  have inv: "manager_inv m" and ni: "not_idle m" using live by (simp_all add: live_inv_def)
  have "not_idle m'" using step
  proof cases
    case (s_reconnect d)
    have "manager_inv (m\<lparr>armed_delay := None\<rparr>)" and "token m \<noteq> None"
      using inv s_reconnect by (auto simp: manager_inv_def inv_defs)
    then show ?thesis using busy_start s_reconnect by (simp add: not_idle_def)
  next
    case (s_response c)
    then show ?thesis
      by (auto intro!: not_idle_connected simp: stream_ready_def stream_open_def set_status_def
          setConnectionStatus_def set_phase_def ensure_worker_def)
  next
    case s_flush
    then show ?thesis
      using ni by (auto intro: not_idle_cong simp: flush_window_def flushPendingBatch_def split: option.splits)
  next
    case s_mock
    then show ?thesis
      by (simp add: not_idle_def busy_def mock_emit_def split: option.split prod.split)
  qed (use env inv ni in \<open>auto intro: not_idle_connect not_idle_resume not_idle_chunk not_idle_no_body
      not_idle_done not_idle_finally not_idle_reject not_idle_cong
      simp: not_idle_def [of "disconnect m"] handleWorkerMessage_def merge_into_window_def\<close>)
  then show ?thesis using manager_inv_step [OF inv step] by (simp add: live_inv_def)
qed

interpretation live: invariant_of is_new "\<lambda>m m'. manager_step env m m' \<and> mock_clock_ok env" live_inv for env
proof unfold_locales
  show "is_new m \<Longrightarrow> live_inv m" for m
    using manager_inv_new by (auto simp: live_inv_def not_idle_def is_new_def new_manager_def)
qed (auto intro: live_inv_step)

lemma reachable_live:
  assumes "mock_clock_ok env" and "manager_reachable env m"
  shows "live_inv m"
  using assms(2)
proof (induction rule: reachable.induct)
  case (reachable_init m)
  then show ?case by (rule live.inv_init)
next
  case (reachable_step m m')
  then show ?case using assms(1) live.inv_step by blast
qed

section \<open>After a disconnect\<close>

text \<open>A step that is not a new connect.\<close>

definition silent_step :: "manager_env \<Rightarrow> manager \<Rightarrow> manager \<Rightarrow> bool" where
  "silent_step env m m' \<longleftrightarrow> manager_step env m m' \<and> \<not> (\<exists>tok. tok \<noteq> [] \<and> m' = connect env tok m)"

definition stopped_with :: "rt_state \<Rightarrow> manager \<Rightarrow> bool" where
  "stopped_with st m \<longleftrightarrow> manager_inv m \<and> stoppedByClient m \<and> store m = st
     \<and> connectionStatus st = idle \<and> errorReason st = None"

lemma disconnect_store: "store (disconnect m) = setConnectionStatus idle None (store m)"
  by (simp add: disconnect_def Let_def set_status_def clearReconnectTimer_def clearSpotGapMockTimer_def
      split: option.split)

lemma stopped_step:
  assumes "stopped_with st m" and "silent_step env m m'"
  shows "stopped_with st m'"
proof -
  have inv: "manager_inv m" and stop: "stoppedByClient m" and st: "store m = st"
    and idle: "connectionStatus st = idle" "errorReason st = None"
    using assms(1) by (simp_all add: stopped_with_def)
  have step: "manager_step env m m'" and no: "\<And>tok. tok \<noteq> [] \<Longrightarrow> m' \<noteq> connect env tok m"
    using assms(2) by (auto simp: silent_step_def)
  have q: "quiet m" and tok: "token m = None" using inv stop by (auto simp: manager_inv_def stop_inv_def)
  have ab: "(c, ph) \<in> set (tasks m) \<Longrightarrow> c \<in> set (aborted m)" for c ph
    using task_not_aborted [OF inv] tok by blast
  have disc: "store (disconnect m) = st" "stoppedByClient (disconnect m)"
    using idle st by (simp_all add: disconnect_store setConnectionStatus_def)
  have "store m' = st \<and> stoppedByClient m'" using step
  proof cases
    case (s_connect t)
    then show ?thesis using no disc by (cases "t = []") (auto simp: connect_def)
  next
    case (s_resume ws s t ws')
    then show ?thesis using stop st by (simp add: resume_start_def)
  next
    case (s_fail c ph)
    then show ?thesis using stop st by (simp add: reject_task_def on_reject_def set_phase_def)
  next
    case (s_done c buffer p)
    then show ?thesis
      using ab stop st q by (simp add: stream_done_def post_to_worker_def quiet_def set_phase_def)
  next
    case (s_finally c)
    then show ?thesis using stop st by (simp add: on_finally_def)
  qed (use disc q ab in \<open>auto simp: quiet_def no_pending_def\<close>)
  then show ?thesis
    using manager_inv_step [OF inv step] idle by (simp add: stopped_with_def)
qed

interpretation stopped: invariant_of "stopped_with st" "silent_step env" "stopped_with st" for st env
  by unfold_locales (auto intro: stopped_step)

lemma disconnect_stopped:
  "manager_inv m \<Longrightarrow> stopped_with (setConnectionStatus idle None (store m)) (disconnect m)"
  by (simp add: stopped_with_def inv_disconnect disconnect_store setConnectionStatus_def)

section \<open>Properties\<close>

text \<open>
  C3. One stream at a time: in every reachable state of the manager at most one stream task is
  unsettled, and it is the one \<open>streamTask\<close> names; a live controller belongs to that task; of
  the starts that wait only the latest can still launch; and a reconnect that is scheduled is
  due in one to thirty seconds, with a token to use.
\<close>

theorem single_stream:
  assumes "manager_reachable env m"
  shows "length (tasks m) \<le> 1 \<and> map fst (tasks m) = (case streamTask m of None \<Rightarrow> [] | Some t \<Rightarrow> [t])
    \<and> (abortController m = None \<or> abortController m = streamTask m)
    \<and> distinct (map fst (waiters m)) \<and> (\<forall>(s, t) \<in> set (waiters m). s \<le> startSequence m)
    \<and> (\<forall>d. armed_delay m = Some d \<longrightarrow> 1000 \<le> d \<and> d \<le> 30000 \<and> token m \<noteq> None \<and> \<not> stoppedByClient m)"
proof -
  have inv: "manager_inv m" using assms by (rule manager.reachable_inv)
  show ?thesis
    using inv by (cases "streamTask m"; cases "abortController m"; fastforce simp: manager_inv_def inv_defs)
qed

definition demo_env :: manager_env where
  "demo_env = \<lparr>js = strict_env, ENABLE_SPOT_GAP_K_MOCK = False, ENABLE_SSE_WORKER = False,
     worker_supported = False, math_sin = (\<lambda>_. 0), now_ms = 0\<rparr>"

definition demo_connected :: manager where
  "demo_connected = connect demo_env ''t'' (new_manager initialState)"

lemma demo_reachable: "manager_reachable demo_env demo_connected"
proof (unfold demo_connected_def, rule reachable_step)
  show "manager_reachable demo_env (new_manager initialState)"
    by (rule reachable_init) (auto simp: is_new_def)
qed (rule s_connect)

theorem single_stream_witness:
  "tasks demo_connected = [(0, Fetching)] \<and> length (tasks demo_connected) \<le> 1"
  using single_stream [OF demo_reachable]
  by (simp add: demo_connected_def connect_def start_def startWhenReady_def launch_def new_manager_def
      set_status_def clearReconnectTimer_def clearSpotGapMockTimer_def demo_env_def)

text \<open>
  C5. Never silently idle: in every reachable state with a token, either a stream is open or
  being opened, or a start waits for the previous stream to settle, or a reconnect is
  scheduled, or the mock feed runs, or the store says so: \<open>error\<close> after a refusal of the
  credentials, \<open>connected\<close> after a response without a body has ended.
\<close>

theorem never_silently_idle:
  assumes "mock_clock_ok env" and "manager_reachable env m" and "token m \<noteq> None"
  shows "busy m \<or> connectionStatus (store m) \<in> {error, connected}"
  using reachable_live [OF assms(1,2)] assms(3) by (simp add: live_inv_def not_idle_def)

theorem never_silently_idle_witness:
  "busy demo_connected \<or> connectionStatus (store demo_connected) \<in> {error, connected}"
proof (rule never_silently_idle [OF _ demo_reachable])
  show "mock_clock_ok demo_env" by (simp add: mock_clock_ok_def demo_env_def)
  show "token demo_connected \<noteq> None"
    by (simp add: demo_connected_def connect_def start_def startWhenReady_def launch_def new_manager_def
        set_status_def clearReconnectTimer_def clearSpotGapMockTimer_def demo_env_def)
qed

text \<open>
  C4. A disconnect is final: whatever happens afterwards short of a connect with a token (the
  old stream failing, ending and settling, starts resuming, timers), the store stays as the
  disconnect left it, idle, and no reconnect, flush, worker or mock feed is left to run.
\<close>

theorem disconnect_is_final:
  assumes "manager_reachable env m" and "(silent_step env)\<^sup>*\<^sup>* (disconnect m) m'"
  shows "store m' = setConnectionStatus idle None (store m) \<and> stoppedByClient m' \<and> token m' = None \<and> quiet m'"
proof -
  have "stopped_with (setConnectionStatus idle None (store m)) m'"
    using stopped.steps_inv [OF assms(2)] disconnect_stopped manager.reachable_inv [OF assms(1)] by blast
  then show ?thesis by (auto simp: stopped_with_def manager_inv_def stop_inv_def)
qed

theorem disconnect_is_final_witness:
  "store (reject_task 0 Failure (disconnect demo_connected)) = setConnectionStatus idle None (store demo_connected)"
proof -
  let ?d = "disconnect demo_connected"
  have t: "(0, Fetching) \<in> set (tasks ?d)" "stoppedByClient ?d"
    by (simp_all add: demo_connected_def connect_def start_def startWhenReady_def launch_def new_manager_def
        set_status_def clearReconnectTimer_def clearSpotGapMockTimer_def demo_env_def)
  have "token (reject_task 0 Failure ?d) = None"
    using t by (simp add: reject_task_def on_reject_def set_phase_def)
  moreover have "token (connect demo_env tok ?d) = Some tok" if "tok \<noteq> []" for tok
    using that t
    by (simp add: connect_def Let_def start_def startWhenReady_def launch_def set_status_def
        clearReconnectTimer_def clearSpotGapMockTimer_def demo_env_def split: option.split)
  ultimately have "silent_step demo_env ?d (reject_task 0 Failure ?d)"
    using t by (auto simp: silent_step_def intro: s_fail)
  then show ?thesis using disconnect_is_final [OF demo_reachable, of "reject_task 0 Failure ?d"] by blast
qed

text \<open>
  C6. What follows a failed stream, while the client has neither disconnected nor superseded
  it: credentials refused (401, 403) end in the state \<open>error\<close> and schedule nothing; a rate
  limit (429) retries after five seconds; any other failure retries after 1, 2, 4, 8, 16 and
  then 30 seconds, counting from the last successful response; every retry counts.
\<close>

theorem reconnect_policy:
  assumes "\<not> stoppedByClient m" and "c \<notin> set (aborted m)"
  shows "(r \<in> {Http_status 401, Http_status 403} \<longrightarrow>
        connectionStatus (store (on_reject c r m)) = error
        \<and> armed_delay (on_reject c r m) = armed_delay m
        \<and> reconnectAttempts (on_reject c r m) = reconnectAttempts m)
    \<and> (r = Http_status 429 \<longrightarrow>
        connectionStatus (store (on_reject c r m)) = retrying
        \<and> armed_delay (on_reject c r m) = Some 5000
        \<and> reconnectAttempts (on_reject c r m) = reconnectAttempts m + 1)
    \<and> (r = Failure \<or> (\<exists>s. r = Http_status s \<and> s \<notin> {401, 403, 429}) \<longrightarrow>
        connectionStatus (store (on_reject c r m)) = retrying
        \<and> armed_delay (on_reject c r m)
           = Some (if reconnectAttempts m < 5 then 1000 * 2 ^ reconnectAttempts m else 30000)
        \<and> reconnectAttempts (on_reject c r m) = reconnectAttempts m + 1)"
proof -
  have delay: "reconnect_delay a = (if a < 5 then 1000 * 2 ^ a else 30000)" for a
  proof (cases "a < 5")
    case True
    then have "a \<in> {0, 1, 2, 3, 4}" by auto
    then show ?thesis by (auto simp: reconnect_delay_def)
  next
    case False
    then have "(2::nat) ^ 5 \<le> 2 ^ a" by (intro power_increasing) auto
    then show ?thesis using False by (simp add: reconnect_delay_def)
  qed
  then show ?thesis
    using assms
    by (auto simp: on_reject_def set_status_def setConnectionStatus_def scheduleReconnect_def
        clearReconnectTimer_def)
qed

theorem reconnect_policy_witness:
  "armed_delay (on_reject 0 Failure demo_connected) = Some 1000"
  using reconnect_policy [of demo_connected 0 Failure]
  by (simp add: demo_connected_def connect_def start_def startWhenReady_def launch_def new_manager_def
      set_status_def clearReconnectTimer_def clearSpotGapMockTimer_def demo_env_def)

end
