(* ===== verification/AppSession.thy ===== *)
theory AppSession
  imports Session ManagerLaws DashboardQueries
begin

text \<open>
  The session and the stream together: \<open>app/RealtimeBootstrap.tsx\<close> between the auth store and the
  connection manager. The component's effect runs after a render in which \<open>resolved\<close>, \<open>token\<close> or
  \<open>role\<close> changed; the clean-up of its last run, when that run connected, runs before it.
  The store has one more writer, the baseline hook of the market distribution, which is a step too.
\<close>

section \<open>The component\<close>

type_synonym stream_deps = "bool \<times> string option \<times> user_role"

definition session_deps :: "session_state \<Rightarrow> stream_deps" where
  "session_deps st = (s_resolved st, s_token st, s_role st)"

fun shouldConnect :: "stream_deps \<Rightarrow> string option" where
  "shouldConnect (resolved, tok, role) =
     (case tok of Some t \<Rightarrow> if t \<noteq> [] \<and> role \<noteq> Visitor then Some t else None | None \<Rightarrow> None)"

definition reset_store :: "manager \<Rightarrow> manager" where
  "reset_store m = m\<lparr>store := resetRealtime (store m)\<rparr>"

text \<open>The effect: the manager after it, and whether it leaves a clean-up.\<close>

definition realtime_effect :: "manager_env \<Rightarrow> stream_deps \<Rightarrow> manager \<Rightarrow> manager \<times> bool" where
  "realtime_effect env deps m =
     (if \<not> fst deps then (m, False)
      else case shouldConnect deps of
        None \<Rightarrow> (reset_store (disconnect m), False)
      | Some t \<Rightarrow> (connect env t m, True))"

record app =
  a_session :: session_state
  a_manager :: manager
  a_deps :: "stream_deps option"
  a_cleanup :: bool

definition RealtimeBootstrap :: "manager_env \<Rightarrow> app \<Rightarrow> app" where
  "RealtimeBootstrap env a =
     (let deps = session_deps (a_session a) in
      if a_deps a = Some deps then a
      else (let m = (if a_cleanup a then disconnect (a_manager a) else a_manager a) in
            case realtime_effect env deps m of
              (m', c) \<Rightarrow> a\<lparr>a_manager := m', a_deps := Some deps, a_cleanup := c\<rparr>))"

text \<open>
  The steps of the application: the session moves, the component renders, the manager moves on
  its own (its timers and streams, which is every step but a call of the client), and the effect of
  \<open>useSpotMarketDistributionBaseline\<close> puts the data of its query in the store. That effect
  does not look at the session (its query is disabled without one, but keeps its cached data), so the
  step is there in every session and for all data.
\<close>

inductive app_step :: "(string \<Rightarrow> jsval option) \<Rightarrow> manager_env \<Rightarrow> app \<Rightarrow> app \<Rightarrow> bool" for json env where
  app_session: "session_step json (a_session a) st \<Longrightarrow> app_step json env a (a\<lparr>a_session := st\<rparr>)"
| app_render: "app_step json env a (RealtimeBootstrap env a)"
| app_manager: "manager_step env (a_manager a) m \<Longrightarrow> token m = token (a_manager a) \<Longrightarrow>
    app_step json env a (a\<lparr>a_manager := m\<rparr>)"
| app_baseline: "distribution_effect (show_value (js env)) q (store (a_manager a)) = Some st \<Longrightarrow>
    app_step json env a (a\<lparr>a_manager := (a_manager a)\<lparr>store := st\<rparr>\<rparr>)"

definition fresh_app :: "app \<Rightarrow> bool" where
  "fresh_app a \<longleftrightarrow> fresh_session (a_session a) \<and> is_new (a_manager a) \<and> a_deps a = None \<and> \<not> a_cleanup a"

section \<open>The token of the manager\<close>

lemma token_set_status [simp]: "token (set_status s r m) = token m"
  by (simp add: set_status_def)

lemma token_apply_batch [simp]: "token (apply_batch env b m) = token m"
  by (simp add: apply_batch_def split: option.splits)

lemma token_mock_emit [simp]: "token (mock_emit env m) = token m"
  by (simp add: mock_emit_def split: option.splits prod.splits)

lemma token_launch [simp]: "token (launch m) = token m"
  by (simp add: launch_def Let_def)

lemma token_start [simp]: "token (start m) = token m"
  by (simp add: start_def startWhenReady_def Let_def split: option.splits)

lemma token_connect: "t \<noteq> [] \<Longrightarrow> token (connect env t m) = Some t"
  by (auto simp: connect_def startSpotGapKMock_def clearReconnectTimer_def clearSpotGapMockTimer_def Let_def
      split: option.splits jsnum.splits)

section \<open>The invariant\<close>

text \<open>
  A store without contents, and one whose only contents are those of the market distribution (the
  array contents and the counter of identities are no contents of the store).
\<close>

definition emptied_store :: "rt_state \<Rightarrow> bool" where
  "emptied_store st \<longleftrightarrow> st\<lparr>arrays := Map.empty, fresh := 0\<rparr> = initialState"

definition logged_out_store :: "rt_state \<Rightarrow> bool" where
  "logged_out_store st \<longleftrightarrow>
     emptied_store (st\<lparr>spotMarketDistributionLatest := Null, spotMarketDistributionSeries := Null\<rparr>)"

lemma logged_out_status: "logged_out_store st \<Longrightarrow> connectionStatus st = idle \<and> errorReason st = None"
  by (cases st) (simp add: logged_out_store_def emptied_store_def initialState_def)

text \<open>What the baseline effect can change.\<close>

lemma distribution_effect_frame:
  assumes "distribution_effect sv q st = Some st'"
  shows "\<exists>l s h n. st' = st\<lparr>spotMarketDistributionLatest := l, spotMarketDistributionSeries := s, arrays := h, fresh := n\<rparr>"
proof -
  have "\<exists>l s h n. fst r = st0\<lparr>spotMarketDistributionLatest := l, spotMarketDistributionSeries := s, arrays := h, fresh := n\<rparr>"
    if "applySseBatch sv (empty_batch\<lparr>b_spotMarketDistributionLatest := latest, b_spotMarketDistributionSeries := series\<rparr>) st0 = Some r"
    for latest series st0 r
  proof -
    let ?b = "empty_batch\<lparr>b_spotMarketDistributionLatest := latest, b_spotMarketDistributionSeries := series\<rparr>"
    have "apply_maps sv ?b st0 = (st0, False)"
      by (simp add: apply_maps_def empty_batch_def kbar_update_def batch_entries_def upsert_entries_def)
    moreover have "apply_list ?b st0 = (st0, False)"
      by (simp add: apply_list_def empty_batch_def replace_if_def)
    moreover have "apply_singles ?b x = (x, False)" for x
      by (simp add: apply_singles_def empty_batch_def replace_if_def)
    ultimately have "applySseBatch sv ?b st0 = apply_distribution ?b st0"
      by (simp add: applySseBatch_def split: option.split)
    with that have "apply_distribution ?b st0 = Some r" by simp
    then show ?thesis
      by (cases st0) (auto simp: apply_distribution_def Let_def split: option.splits prod.splits if_splits)
  qed
  note frame = this
  show ?thesis
  proof (cases "distribution_effect sv q st = Some st \<and> st' = st")
    case True
    then show ?thesis by (cases st) auto
  next
    case False
    then obtain latest today b where "bq_data q = Some (Both latest today)"
        "distribution_baseline (arrays st) (fresh st) latest today = Some b"
        "map_option fst (applySseBatch sv b (st\<lparr>fresh := fresh st + 1\<rparr>)) = Some st'"
      using assms by (auto simp: distribution_effect_def split: option.splits query_data.splits)
    then show ?thesis
      using frame [of _ _ "st\<lparr>fresh := fresh st + 1\<rparr>"]
      by (cases st) (fastforce simp: distribution_baseline_def split: if_splits)
  qed
qed

lemma logged_out_baseline:
  "logged_out_store st \<Longrightarrow> distribution_effect sv q st = Some st' \<Longrightarrow> logged_out_store st'"
  by (drule distribution_effect_frame, cases st) (auto simp: logged_out_store_def emptied_store_def)

definition app_inv :: "app \<Rightarrow> bool" where
  "app_inv a \<longleftrightarrow>
     session_ok (a_session a) \<and> manager_inv (a_manager a)
     \<and> (case a_deps a of
          None \<Rightarrow> token (a_manager a) = None \<and> \<not> a_cleanup a
        | Some deps \<Rightarrow>
            token (a_manager a) = (if fst deps then shouldConnect deps else None)
            \<and> (a_cleanup a \<longleftrightarrow> fst deps \<and> shouldConnect deps \<noteq> None)
            \<and> (fst deps \<and> shouldConnect deps = None \<longrightarrow>
                 (\<exists>st. stopped_with st (a_manager a) \<and> logged_out_store st)))"

lemma reset_store_inv: "manager_inv m \<Longrightarrow> manager_inv (reset_store m)"
  by (rule manager_inv_cong [of m]) (simp_all add: reset_store_def)

lemma logged_out_after_reset:
  assumes "manager_inv m"
  shows "\<exists>st. stopped_with st (reset_store (disconnect m)) \<and> logged_out_store st"
proof (intro exI conjI)
  let ?st = "resetRealtime (setConnectionStatus idle None (store m))"
  have "stopped_with (setConnectionStatus idle None (store m)) (disconnect m)"
    by (rule disconnect_stopped [OF assms])
  then show "stopped_with ?st (reset_store (disconnect m))"
    using reset_store_inv [of "disconnect m"]
    by (simp add: stopped_with_def reset_store_def resetRealtime_def initialState_def)
  show "logged_out_store ?st" by (auto simp: logged_out_store_def emptied_store_def resetRealtime_def initialState_def)
qed

lemma shouldConnect_nonempty: "shouldConnect deps = Some t \<Longrightarrow> t \<noteq> []"
  by (cases deps) (auto split: option.splits if_splits)

lemma app_inv_render:
  assumes "app_inv a"
  shows "app_inv (RealtimeBootstrap env a)"
proof (cases "a_deps a = Some (session_deps (a_session a))")
  case True
  then show ?thesis using assms by (simp add: RealtimeBootstrap_def)
next
  case False
  let ?deps = "session_deps (a_session a)"
  define m where "m = (if a_cleanup a then disconnect (a_manager a) else a_manager a)"
  have inv: "manager_inv m" using assms by (simp add: app_inv_def m_def inv_disconnect)
  have tok: "token m = None"
    using assms by (auto simp: app_inv_def m_def split: option.splits if_splits)
  have s: "session_ok (a_session a)" using assms by (simp add: app_inv_def)
  have r: "RealtimeBootstrap env a = a\<lparr>a_manager := fst (realtime_effect env ?deps m),
      a_deps := Some ?deps, a_cleanup := snd (realtime_effect env ?deps m)\<rparr>"
    using False by (simp add: RealtimeBootstrap_def m_def Let_def split: prod.split)
  show ?thesis
  proof (cases "fst ?deps")
    case False
    then show ?thesis using inv tok s by (simp add: r app_inv_def realtime_effect_def)
  next
    case resolved: True
    show ?thesis
    proof (cases "shouldConnect ?deps")
      case None
      then show ?thesis
        using resolved s logged_out_after_reset [OF inv] reset_store_inv [OF inv_disconnect [OF inv]]
        by (simp add: r app_inv_def realtime_effect_def) (simp add: reset_store_def)
    next
      case (Some t)
      then show ?thesis
        using resolved s inv_connect [OF inv] token_connect [OF shouldConnect_nonempty [OF Some]]
        by (simp add: r app_inv_def realtime_effect_def)
    qed
  qed
qed

lemma app_inv_step:
  assumes "app_inv a" and "app_step json env a a'"
  shows "app_inv a'"
  using assms(2)
proof cases
  case (app_session st)
  have "session_ok st" using assms(1) app_session session_ok_step by (auto simp: app_inv_def)
  then show ?thesis
    using assms(1) app_session by (cases "a_deps a") (simp_all add: app_inv_def)
next
  case app_render
  then show ?thesis using app_inv_render [OF assms(1)] by simp
next
  case (app_manager m)
  have inv: "manager_inv m" using assms(1) app_manager manager_inv_step by (auto simp: app_inv_def)
  have "stopped_with st m" if "stopped_with st (a_manager a)" "token (a_manager a) = None" for st
  proof (rule stopped_step [OF that(1)])
    have "m \<noteq> connect env t (a_manager a)" if "t \<noteq> []" for t
      using token_connect [OF that, of env "a_manager a"] app_manager(3) \<open>token (a_manager a) = None\<close> by auto
    then show "silent_step env (a_manager a) m" using app_manager(2) by (auto simp: silent_step_def)
  qed
  then show ?thesis
    using assms(1) app_manager inv by (cases "a_deps a") (auto simp: app_inv_def split: if_splits)
next
  case (app_baseline q st)
  let ?m = "(a_manager a)\<lparr>store := st\<rparr>"
  have inv: "manager_inv ?m" if "manager_inv (a_manager a)"
    by (rule manager_inv_cong [OF that]) simp_all
  have "stopped_with st ?m \<and> logged_out_store st" if "stopped_with st0 (a_manager a)" "logged_out_store st0" for st0
    using that inv app_baseline logged_out_baseline logged_out_status by (auto simp: stopped_with_def)
  then show ?thesis
    using assms(1) app_baseline inv by (cases "a_deps a") (fastforce simp: app_inv_def)+
qed

interpretation app: invariant_of fresh_app "app_step json env" app_inv for json env
proof unfold_locales
  show "fresh_app a \<Longrightarrow> app_inv a" for a
    by (auto simp: fresh_app_def app_inv_def fresh_session_def initial_session_def session_ok_def
        is_new_def new_manager_def intro: manager_inv_new [unfolded is_new_def new_manager_def])
  show "app_inv a \<Longrightarrow> app_step json env a a' \<Longrightarrow> app_inv a'" for a a'
    by (rule app_inv_step)
qed

text \<open>What a render does to a manager and a store, whatever they were.\<close>

lemma render_empties:
  assumes "a_deps a \<noteq> Some (session_deps (a_session a))"
    and "s_resolved (a_session a)" and "s_token (a_session a) = None"
  shows "emptied_store (store (a_manager (RealtimeBootstrap env a)))"
  using assms
  by (simp add: RealtimeBootstrap_def Let_def realtime_effect_def session_deps_def reset_store_def
      resetRealtime_def emptied_store_def initialState_def)

text \<open>
  C1. The stream follows the session: in every reachable state of the application, after a render of
  the component the manager holds a token exactly when the session is resolved and logged in, and
  then it is the session's. While the session is resolved and logged out the manager is stopped, and
  the realtime store is empty but for the two fields of the market distribution (which the baseline
  effect of the dashboard may write in any session); and the render that follows the logout, the one
  that sees the session changed, leaves the store entirely empty.
\<close>

theorem stream_follows_session:
  assumes "reachable fresh_app (app_step json env) a" and "b = RealtimeBootstrap env a"
  shows "token (a_manager b) = (if s_resolved (a_session b) then s_token (a_session b) else None)
    \<and> (s_resolved (a_session b) \<and> s_token (a_session b) = None \<longrightarrow>
         stoppedByClient (a_manager b) \<and> logged_out_store (store (a_manager b))
         \<and> (a_deps a \<noteq> Some (session_deps (a_session a)) \<longrightarrow> emptied_store (store (a_manager b))))"
proof -
  have s: "a_session b = a_session a" "a_deps b = Some (session_deps (a_session b))"
    by (auto simp: assms(2) RealtimeBootstrap_def Let_def split: prod.splits)
  have inv: "app_inv b"
    using app_inv_render [OF app.reachable_inv [OF assms(1)]] by (simp add: assms(2))
  have ok: "session_ok (a_session b)" using inv by (simp add: app_inv_def)
  have sc: "shouldConnect (session_deps (a_session b)) = s_token (a_session b)"
    using ok by (auto simp: session_ok_def session_deps_def split: option.splits)
  have "token (a_manager b) = (if s_resolved (a_session b) then s_token (a_session b) else None)"
    and "s_resolved (a_session b) \<Longrightarrow> s_token (a_session b) = None \<Longrightarrow>
      stoppedByClient (a_manager b) \<and> logged_out_store (store (a_manager b))"
    using inv s(2) sc by (auto simp: app_inv_def session_deps_def stopped_with_def)
  moreover have "emptied_store (store (a_manager b))"
    if "s_resolved (a_session b)" "s_token (a_session b) = None" "a_deps a \<noteq> Some (session_deps (a_session a))"
    using render_empties [OF that(3), of env] that(1,2) by (simp add: s(1) [unfolded assms(2)] assms(2))
  ultimately show ?thesis by blast
qed

definition demo_app :: app where
  "demo_app = \<lparr>a_session = initial_session None, a_manager = new_manager initialState,
     a_deps = None, a_cleanup = False\<rparr>"

lemma demo_app_reachable: "reachable fresh_app (app_step json env) demo_app"
  by (rule reachable_init) (auto simp: demo_app_def fresh_app_def fresh_session_def is_new_def)

text \<open>The administrator logs in, the stream connects, and the administrator logs out again.\<close>

theorem stream_follows_session_witness:
  "\<exists>a b. reachable fresh_app (app_step demo_json demo_env) a \<and> token (a_manager a) \<noteq> None
    \<and> s_token (a_session a) = None \<and> b = RealtimeBootstrap demo_env a \<and> token (a_manager b) = None
    \<and> stoppedByClient (a_manager b) \<and> emptied_store (store (a_manager b))"
proof -
  let ?tok = "''h'' @ ''.'' @ b64url ''admin'' @ ''.'' @ ''s''"
  let ?step = "app_step demo_json demo_env"
  define a1 where "a1 = demo_app\<lparr>a_session := demo_admin\<rparr>"
  define a2 where "a2 = RealtimeBootstrap demo_env a1"
  define a where "a = a2\<lparr>a_session := clearSession (a_session a2)\<rparr>"
  have "decodeAccessToken demo_json ?tok = Some (Obj 1 [(''role'', Str ''admin'')])"
    by (subst decode_b64url_token) (simp_all add: demo_json_def)
  then have "applyAuthenticatedSession demo_json ?tok (Inl AbortError) (a_session demo_app) = Some demo_admin"
    by (simp add: applyAuthenticatedSession_def token_session_def mapTokenRole_def mapEntitlement_def demo_admin_def demo_app_def)
  then have "?step demo_app a1" unfolding a1_def by (intro app_session st_login)
  then have "reachable fresh_app ?step a1" by (rule reachable_step [OF demo_app_reachable])
  moreover have "?step a1 a2" unfolding a2_def by (rule app_render)
  moreover have "?step a2 a" unfolding a_def by (intro app_session st_logout)
  ultimately have r: "reachable fresh_app ?step a" by (blast intro: reachable_step)
  have sess: "a_session a2 = demo_admin" "a_deps a2 = Some (session_deps demo_admin)"
    by (auto simp: a2_def a1_def RealtimeBootstrap_def Let_def split: prod.splits)
  have "token (a_manager a) \<noteq> None"
    by (simp add: a_def a2_def a1_def RealtimeBootstrap_def demo_app_def realtime_effect_def session_deps_def
        demo_admin_def setSession_def initial_session_def Let_def token_connect)
  moreover have "s_resolved (a_session a)" "s_token (a_session a) = None"
      "a_deps a \<noteq> Some (session_deps (a_session a))"
    using sess demo_admin_fields(1)
    by (simp_all add: a_def session_deps_def clearSession_def writeCheckoutSessionId_def)
  moreover have "a_session (RealtimeBootstrap demo_env a) = a_session a"
    by (auto simp: RealtimeBootstrap_def Let_def split: prod.splits)
  ultimately show ?thesis using r stream_follows_session [OF r refl] by (intro exI [of _ a] exI) auto
qed

text \<open>
  The baseline effect does write in a logged-out session: with the data of its query still cached, it
  fills the store that the logout emptied.
\<close>

lemma visitor_store_filled:
  assumes "b = RealtimeBootstrap env (demo_app\<lparr>a_session := clearSession (initial_session None)\<rparr>)"
  shows "\<exists>c. app_step json env b c \<and> s_resolved (a_session c) \<and> s_token (a_session c) = None
    \<and> spotMarketDistributionLatest (store (a_manager c)) = demo_point 1 1"
proof -
  let ?q = "\<lparr>bq_data = Some (Both (demo_point 1 1) (Arr 0 [demo_point 2 1])), bq_error = None, bq_isLoading = False\<rparr>"
  have b: "a_session b = clearSession (initial_session None)"
    by (auto simp: assms RealtimeBootstrap_def Let_def split: prod.splits)
  have "emptied_store (store (a_manager b))"
    unfolding assms
    by (rule render_empties) (simp_all add: demo_app_def clearSession_def writeCheckoutSessionId_def)
  then have e: "spotMarketDistributionLatest (store (a_manager b)) = Null"
      "spotMarketDistributionSeries (store (a_manager b)) = Null"
    by (cases "store (a_manager b)"; simp add: emptied_store_def initialState_def)+
  have "arrays (store (a_manager b)) = Map.empty"
    by (simp add: assms demo_app_def RealtimeBootstrap_def Let_def realtime_effect_def session_deps_def
        clearSession_def writeCheckoutSessionId_def reset_store_def resetRealtime_def disconnect_store setConnectionStatus_def new_manager_def
        initialState_def)
  then obtain st where st: "distribution_effect (show_value (js env)) ?q (store (a_manager b)) = Some st"
      "spotMarketDistributionLatest st = demo_point 1 1"
    using baseline_effect [of ?q "demo_point 1 1" 0 "[demo_point 2 1]" "store (a_manager b)" "show_value (js env)"] e
    by (auto simp: demo_point_def replace_if_def shallowEqual_def)
  then show ?thesis
    using b by (intro exI [of _ "b\<lparr>a_manager := (a_manager b)\<lparr>store := st\<rparr>\<rparr>"])
      (auto intro: app_baseline simp: clearSession_def writeCheckoutSessionId_def initial_session_def)
qed

section \<open>The request of a stream\<close>

definition STREAM_PATH :: string where "STREAM_PATH = ''/v1/stream/sse''"

definition stream_request :: "string \<Rightarrow> string \<Rightarrow> http_request" where
  "stream_request baseUrl tok =
     \<lparr>rq_method = ''GET'',
      rq_url = baseUrl @ STREAM_PATH @ ''?code='' @ encodeURIComponent DEFAULT_STREAM_CODE,
      rq_headers = [(''Authorization'', ''Bearer '' @ tok), (''Accept'', ''text/event-stream'')],
      rq_body = None\<rparr>"

text \<open>What the server reads of it.\<close>

lemma stream_request_read:
  "\<exists>path. rq_url (stream_request baseUrl tok) = baseUrl @ path
     \<and> read_url path = ([[], ''v1'', ''stream'', ''sse''], [(''code'', DEFAULT_STREAM_CODE)])
     \<and> dict_get (rq_headers (stream_request baseUrl tok)) ''Authorization'' = Some (''Bearer '' @ tok)"
proof -
  have "STREAM_PATH @ ''?code='' @ encodeURIComponent DEFAULT_STREAM_CODE
      = url_path [''v1'', ''stream'', ''sse''] @ CHR ''?'' # search_string [(''code'', DEFAULT_STREAM_CODE)]"
    by code_simp
  then show ?thesis
    by (intro exI [of _ "url_path [''v1'', ''stream'', ''sse''] @ CHR ''?'' # search_string [(''code'', DEFAULT_STREAM_CODE)]"])
      (simp add: stream_request_def read_url_path plain_segment_def)
qed

text \<open>
  The stream does not go through the client and its transport check: where the client refuses to
  send anything, the stream sends its token.
\<close>

lemma stream_bypasses_transport_check:
  "getJson \<lparr>API_BASE_URL = ''http://api.example'', env_protocol = ''http:'', env_prod = True,
       env_url_host = (\<lambda>_. Some ''api.example'')\<rparr> fetch ''/v1'' [] = (None, Inl (ApiError ''insecure_transport'' 0))"
  "rq_url (stream_request ''http://api.example'' tok) = ''http://api.example/v1/stream/sse?code=TXFE6''"
  "dict_get (rq_headers (stream_request ''http://api.example'' tok)) ''Authorization'' = Some (''Bearer '' @ tok)"
proof -
  show "getJson \<lparr>API_BASE_URL = ''http://api.example'', env_protocol = ''http:'', env_prod = True,
       env_url_host = (\<lambda>_. Some ''api.example'')\<rparr> fetch ''/v1'' [] = (None, Inl (ApiError ''insecure_transport'' 0))"
    by (simp add: getJson_def request_def shouldBlockInsecureTransport_def absolute_http_def ascii_lower_def
        isLoopbackHttpUrl_def LOOPBACK_HOSTS_def Let_def)
  have "encodeURIComponent DEFAULT_STREAM_CODE = ''TXFE6''" by code_simp
  then show "rq_url (stream_request ''http://api.example'' tok) = ''http://api.example/v1/stream/sse?code=TXFE6''"
    by (simp add: stream_request_def STREAM_PATH_def)
qed (simp add: stream_request_def)

end
