(* ===== verification/LoaderJobs.thy ===== *)
theory LoaderJobs
  imports AnalyticsPages
begin

text \<open>
  Loading historical data: the requests of \<open>features/dashboard/api/historical-backfill.ts\<close> and
  \<open>features/dashboard/api/crawler-jobs.ts\<close>, the two panels that send them
  (\<open>features/dashboard/components/BackfillPanel.tsx\<close>, \<open>CrawlerPanel.tsx\<close>) with their multiple
  choice (\<open>components/multi-select.tsx\<close>), and the table of jobs of
  \<open>features/dashboard/pages/HistoricalDataLoaderPage.tsx\<close>.

  A message is named by its translation key. The current time as text is an argument.
\<close>

section \<open>Requests and jobs\<close>

record job =
  job_source :: string
  job_id :: jsval
  job_workerType :: jsval
  job_jobType :: jsval
  job_status :: jsval
  job_target :: string
  job_window :: string
  job_createdAt :: string

record loader_env =
  ld_api :: api_env
  ld_fetch :: "http_request \<Rightarrow> fetched"
  ld_nowIso :: string

definition triggerHistoricalBackfillJob ::
  "loader_env \<Rightarrow> string \<Rightarrow> string \<Rightarrow> string \<Rightarrow> string \<Rightarrow> string \<Rightarrow> http_request option \<times> (js_error + jsval)" where
  "triggerHistoricalBackfillJob env token code startDate endDate overwriteMode =
     postJson (ld_api env) (ld_fetch env) ''/api/admin/batch/backfill/jobs''
       (Obj 0 [(''code'', Str code), (''end_date'', Str endDate), (''overwrite_mode'', Str overwriteMode),
               (''start_date'', Str startDate)]) (bearer token)"

definition triggerCrawlerJob :: "loader_env \<Rightarrow> string \<Rightarrow> jsval \<Rightarrow> http_request option \<times> (js_error + jsval)" where
  "triggerCrawlerJob env token payload =
     postJson (ld_api env) (ld_fetch env) ''/api/admin/batch/crawler/jobs'' payload (bearer token)"

text \<open>Reading a property of \<open>null\<close> or \<open>undefined\<close> throws.\<close>

definition job_of :: "loader_env \<Rightarrow> string \<Rightarrow> string \<Rightarrow> string \<Rightarrow> jsval \<Rightarrow> js_error + job" where
  "job_of env source target window response =
     (if nullish response then Inl (OtherError ''TypeError'')
      else Inr \<lparr>job_source = source, job_id = js_get response ''job_id'',
                job_workerType = js_get response ''worker_type'', job_jobType = js_get response ''job_type'',
                job_status = js_get response ''status'', job_target = target, job_window = window,
                job_createdAt = ld_nowIso env\<rparr>)"

definition toUnifiedJob :: "loader_env \<Rightarrow> string \<Rightarrow> string \<Rightarrow> string \<Rightarrow> jsval \<Rightarrow> js_error + job" where
  "toUnifiedJob env code startDate endDate = job_of env ''backfill'' code (startDate @ '' ~ '' @ endDate)"

definition toUnifiedRecord :: "loader_env \<Rightarrow> string \<Rightarrow> string \<Rightarrow> jsval \<Rightarrow> js_error + job" where
  "toUnifiedRecord env datasetCode window = job_of env ''crawler'' datasetCode window"

definition appendJobs :: "job list \<Rightarrow> job list \<Rightarrow> job list" where
  "appendJobs jobs current = (if jobs = [] then current else jobs @ current)"

definition toggleOption :: "string \<Rightarrow> string list \<Rightarrow> string list" where
  "toggleOption optionValue v =
     (if optionValue \<in> set v then filter (\<lambda>selected. selected \<noteq> optionValue) v else v @ [optionValue])"

lemma toggle_distinct: "distinct v \<Longrightarrow> distinct (toggleOption x v)"
  by (simp add: toggleOption_def)

section \<open>The panels\<close>

datatype date_mode = Single | Range
datatype load_status = Idle | Loading | Success | Failed

record date_form =
  df_mode :: date_mode
  df_singleDate :: string
  df_rangeStart :: string
  df_rangeEnd :: string

definition validate_dates :: "date_form \<Rightarrow> string option" where
  "validate_dates f =
     (if df_mode f = Single \<and> df_singleDate f = [] then Some ''singleDate''
      else if df_mode f = Range then
        (if df_rangeStart f = [] \<or> df_rangeEnd f = [] then Some ''rangeDate''
         else if str_less (df_rangeEnd f) (df_rangeStart f) then Some ''rangeOrder''
         else None)
      else None)"

definition start_of :: "date_form \<Rightarrow> string" where
  "start_of f = (case df_mode f of Single \<Rightarrow> df_singleDate f | Range \<Rightarrow> df_rangeStart f)"

definition end_of :: "date_form \<Rightarrow> string" where
  "end_of f = (case df_mode f of Single \<Rightarrow> df_singleDate f | Range \<Rightarrow> df_rangeEnd f)"

text \<open>The message for an error: its key, with the error's code where the text shows it.\<close>

definition loader_error :: "string \<Rightarrow> string list \<Rightarrow> js_error \<Rightarrow> string \<times> string option" where
  "loader_error forbidden known e =
     (case e of
        ApiError code status \<Rightarrow>
          (if status = 401 then (''sessionExpired'', None)
           else if status = 403 then (forbidden, None)
           else if code \<in> set known then (code, None)
           else (''withCode'', Some code))
      | _ \<Rightarrow> (''retry'', None))"

definition backfill_mapApiError :: "js_error \<Rightarrow> string \<times> string option" where
  "backfill_mapApiError = loader_error ''backfillAdminRequired'' [''invalid_date_range'', ''invalid_overwrite_mode'']"

definition crawler_mapApiError :: "js_error \<Rightarrow> string \<times> string option" where
  "crawler_mapApiError = loader_error ''crawlerAdminRequired'' [''invalid_date_range'']"

record backfill_panel =
  bf_dates :: date_form
  bf_codes :: "string list"
  bf_overwriteMode :: string
  bf_status :: load_status
  bf_error :: "string \<times> string option"
  bf_progress :: int
  bf_createdCount :: nat

definition backfill_validateInputs :: "backfill_panel \<Rightarrow> string option" where
  "backfill_validateInputs p = (if bf_codes p = [] then Some ''selectItem'' else validate_dates (bf_dates p))"

text \<open>\<open>Math.round(((index + 1) / codes.length) * 100)\<close>\<close>

definition progress_after :: "nat \<Rightarrow> nat \<Rightarrow> int" where
  "progress_after index total' = \<lfloor>of_nat (index + 1) / of_nat total' * (100 :: rat) + 1 / 2\<rfloor>"

text \<open>
  The loop of the mutation over the codes: the requests it sent, the last progress it showed, and
  the error that ended it or the rows of all codes.
\<close>

fun backfill_loop ::
  "loader_env \<Rightarrow> string \<Rightarrow> string \<Rightarrow> string \<Rightarrow> string \<Rightarrow> nat \<Rightarrow> nat \<Rightarrow> string list \<Rightarrow> int \<Rightarrow> job list
     \<Rightarrow> http_request option list \<times> int \<times> (js_error + job list)" where
  "backfill_loop env token startDate endDate mode total' index [] progress rows = ([], progress, Inr rows)"
| "backfill_loop env token startDate endDate mode total' index (code # codes) progress rows =
     (let (sent, result) = triggerHistoricalBackfillJob env token code startDate endDate mode
      in case (case result of Inl e \<Rightarrow> Inl e | Inr response \<Rightarrow> toUnifiedJob env code startDate endDate response) of
           Inl e \<Rightarrow> ([sent], progress, Inl e)
         | Inr row \<Rightarrow>
             (let (more, p, r) = backfill_loop env token startDate endDate mode total' (index + 1) codes
                    (progress_after index total') (rows @ [row])
              in (sent # more, p, r)))"

text \<open>One click on the load button: the requests sent, the panel and the table of jobs afterwards.\<close>

definition backfill_handleLoad ::
  "loader_env \<Rightarrow> string option \<Rightarrow> backfill_panel \<times> job list \<Rightarrow> http_request option list \<times> backfill_panel \<times> job list" where
  "backfill_handleLoad env token st =
     (let (p, jobs) = st;
          failed = (\<lambda>e. p\<lparr>bf_status := Failed, bf_error := e, bf_createdCount := 0, bf_progress := 0\<rparr>)
      in case backfill_validateInputs p of
           Some validationError \<Rightarrow> ([], failed (validationError, None), jobs)
         | None \<Rightarrow>
             (case token of
                None \<Rightarrow> ([], failed (''loginRequiredBackfill'', None), jobs)
              | Some authToken \<Rightarrow>
                  if authToken = [] then ([], failed (''loginRequiredBackfill'', None), jobs)
                  else
                    (let (sent, progress, result) =
                           backfill_loop env authToken (start_of (bf_dates p)) (end_of (bf_dates p)) (bf_overwriteMode p)
                             (length (bf_codes p)) 0 (bf_codes p) 0 []
                     in case result of
                          Inr rows \<Rightarrow>
                            (sent, p\<lparr>bf_status := Success, bf_error := ([], None), bf_progress := progress,
                                     bf_createdCount := length rows\<rparr>, appendJobs rows jobs)
                        | Inl e \<Rightarrow> (sent, failed (backfill_mapApiError e), jobs))))"

record crawler_panel =
  cr_dates :: date_form
  cr_datasetCode :: string
  cr_triggerType :: string
  cr_status :: load_status
  cr_error :: "string \<times> string option"

definition crawler_validateInputs :: "crawler_panel \<Rightarrow> string option" where
  "crawler_validateInputs p =
     (if trim (cr_datasetCode p) = [] then Some ''datasetRequired''
      else if trim (cr_triggerType p) = [] then Some ''triggerTypeRequired''
      else validate_dates (cr_dates p))"

definition crawler_payload :: "crawler_panel \<Rightarrow> jsval" where
  "crawler_payload p =
     (case df_mode (cr_dates p) of
        Single \<Rightarrow> Obj 0 [(''dataset_code'', Str (cr_datasetCode p)), (''target_date'', Str (df_singleDate (cr_dates p))),
                         (''trigger_type'', Str (cr_triggerType p))]
      | Range \<Rightarrow> Obj 0 [(''dataset_code'', Str (cr_datasetCode p)), (''start_date'', Str (df_rangeStart (cr_dates p))),
                        (''end_date'', Str (df_rangeEnd (cr_dates p))), (''trigger_type'', Str (cr_triggerType p))])"

definition crawler_handleLoad ::
  "loader_env \<Rightarrow> string option \<Rightarrow> crawler_panel \<times> job list \<Rightarrow> http_request option list \<times> crawler_panel \<times> job list" where
  "crawler_handleLoad env token st =
     (let (p, jobs) = st; failed = (\<lambda>e. p\<lparr>cr_status := Failed, cr_error := e\<rparr>)
      in case crawler_validateInputs p of
           Some validationError \<Rightarrow> ([], failed (validationError, None), jobs)
         | None \<Rightarrow>
             (case token of
                None \<Rightarrow> ([], failed (''loginRequiredCrawler'', None), jobs)
              | Some authToken \<Rightarrow>
                  if authToken = [] then ([], failed (''loginRequiredCrawler'', None), jobs)
                  else
                    (let (sent, result) = triggerCrawlerJob env authToken (crawler_payload p);
                         row = (case result of Inl e \<Rightarrow> Inl e
                                | Inr response \<Rightarrow> toUnifiedRecord env (cr_datasetCode p)
                                    (start_of (cr_dates p) @ '' ~ '' @ end_of (cr_dates p)) response)
                     in case row of
                          Inr job \<Rightarrow> ([sent], p\<lparr>cr_status := Success, cr_error := ([], None)\<rparr>, appendJobs [job] jobs)
                        | Inl e \<Rightarrow> ([sent], failed (crawler_mapApiError e), jobs))))"

section \<open>What is sent and what is reported\<close>

text \<open>The job of one code, or the error of its request.\<close>

definition code_outcome :: "loader_env \<Rightarrow> string \<Rightarrow> backfill_panel \<Rightarrow> string \<Rightarrow> js_error + job" where
  "code_outcome env token p code =
     (case snd (triggerHistoricalBackfillJob env token code (start_of (bf_dates p)) (end_of (bf_dates p)) (bf_overwriteMode p)) of
        Inl e \<Rightarrow> Inl e
      | Inr response \<Rightarrow> toUnifiedJob env code (start_of (bf_dates p)) (end_of (bf_dates p)) response)"

definition code_request :: "loader_env \<Rightarrow> string \<Rightarrow> backfill_panel \<Rightarrow> string \<Rightarrow> http_request option" where
  "code_request env token p code =
     fst (triggerHistoricalBackfillJob env token code (start_of (bf_dates p)) (end_of (bf_dates p)) (bf_overwriteMode p))"

definition last_progress :: "nat \<Rightarrow> nat \<Rightarrow> int \<Rightarrow> nat \<Rightarrow> int" where
  "last_progress index n progress total' = (if n = 0 then progress else progress_after (index + n - 1) total')"

lemma last_progress_step: "last_progress (index + 1) n (progress_after index t) t = last_progress index (Suc n) q t"
  by (cases n) (simp_all add: last_progress_def)

abbreviation panel_loop where
  "panel_loop env token p \<equiv> backfill_loop env token (start_of (bf_dates p)) (end_of (bf_dates p)) (bf_overwriteMode p)"

lemma panel_loop_Cons:
  "panel_loop env token p t i (c # cs) progress rows =
    (case code_outcome env token p c of
       Inl e \<Rightarrow> ([code_request env token p c], progress, Inl e)
     | Inr row \<Rightarrow>
         (let (more, q, r) = panel_loop env token p t (i + 1) cs (progress_after i t) (rows @ [row])
          in (code_request env token p c # more, q, r)))"
  by (simp add: code_outcome_def code_request_def case_prod_unfold Let_def split: sum.split)

lemma panel_loop_ok:
  "\<forall>c \<in> set cs. code_outcome env token p c = Inr (f c) \<Longrightarrow>
    panel_loop env token p t i cs progress rows
      = (map (code_request env token p) cs, last_progress i (length cs) progress t, Inr (rows @ map f cs))"
proof (induction cs arbitrary: i progress rows)
  case (Cons c cs)
  then show ?case using last_progress_step [of i "length cs" t progress] by (simp add: panel_loop_Cons del: backfill_loop.simps)
qed (simp add: last_progress_def)

lemma panel_loop_fail:
  "\<forall>c \<in> set xs. code_outcome env token p c = Inr (f c) \<Longrightarrow> code_outcome env token p c = Inl e \<Longrightarrow>
    \<exists>q. panel_loop env token p t i (xs @ c # ys) progress rows = (map (code_request env token p) (xs @ [c]), q, Inl e)"
proof (induction xs arbitrary: i progress rows)
  case Nil
  then show ?case by (simp add: panel_loop_Cons del: backfill_loop.simps)
next
  case (Cons x xs)
  have "\<exists>q. panel_loop env token p t (i + 1) (xs @ c # ys) (progress_after i t) (rows @ [f x])
      = (map (code_request env token p) (xs @ [c]), q, Inl e)"
    by (rule Cons.IH) (use Cons.prems in simp_all)
  then obtain q where "panel_loop env token p t (i + 1) (xs @ c # ys) (progress_after i t) (rows @ [f x])
      = (map (code_request env token p) (xs @ [c]), q, Inl e)" ..
  then show ?case using Cons.prems by (simp add: panel_loop_Cons del: backfill_loop.simps)
qed

text \<open>
  C35. A backfill over several codes: with valid inputs and a token, one request per code is sent in
  order. When all succeed, the panel shows success and 100 percent, counts the codes, and puts one
  job per code before the others. When one fails, the requests of the codes before it have been
  sent and none after it; the panel shows the error and counts nothing, and the table does not get
  the jobs that were created.
\<close>

theorem backfill_reports:
  assumes "backfill_validateInputs p = None" and "token \<noteq> []"
  shows "((\<forall>c \<in> set (bf_codes p). code_outcome env token p c = Inr (f c)) \<longrightarrow>
      backfill_handleLoad env (Some token) (p, jobs)
        = (map (code_request env token p) (bf_codes p),
           p\<lparr>bf_status := Success, bf_error := ([], None), bf_progress := 100, bf_createdCount := length (bf_codes p)\<rparr>,
           map f (bf_codes p) @ jobs))
    \<and> (bf_codes p = xs @ c # ys \<and> (\<forall>x \<in> set xs. code_outcome env token p x = Inr (f x)) \<and> code_outcome env token p c = Inl e
       \<longrightarrow> backfill_handleLoad env (Some token) (p, jobs)
        = (map (code_request env token p) (xs @ [c]),
           p\<lparr>bf_status := Failed, bf_error := backfill_mapApiError e, bf_createdCount := 0, bf_progress := 0\<rparr>, jobs))"
proof (intro conjI impI)
  assume ok: "\<forall>c \<in> set (bf_codes p). code_outcome env token p c = Inr (f c)"
  have ne: "bf_codes p \<noteq> []" using assms(1) by (auto simp: backfill_validateInputs_def split: if_splits)
  then have "last_progress 0 (length (bf_codes p)) 0 (length (bf_codes p)) = 100"
    by (simp add: last_progress_def progress_after_def floor_eq_iff)
  then show "backfill_handleLoad env (Some token) (p, jobs)
        = (map (code_request env token p) (bf_codes p),
           p\<lparr>bf_status := Success, bf_error := ([], None), bf_progress := 100, bf_createdCount := length (bf_codes p)\<rparr>,
           map f (bf_codes p) @ jobs)"
    using panel_loop_ok [OF ok, of "length (bf_codes p)" 0 0 "[]"] assms ne
    by (simp add: backfill_handleLoad_def appendJobs_def)
next
  assume h: "bf_codes p = xs @ c # ys \<and> (\<forall>x \<in> set xs. code_outcome env token p x = Inr (f x)) \<and> code_outcome env token p c = Inl e"
  then obtain q where "panel_loop env token p (length (bf_codes p)) 0 (bf_codes p) 0 []
      = (map (code_request env token p) (xs @ [c]), q, Inl e)"
    using panel_loop_fail [of xs env token p f c e "length (bf_codes p)" 0 ys 0 "[]"] by auto
  then show "backfill_handleLoad env (Some token) (p, jobs)
        = (map (code_request env token p) (xs @ [c]),
           p\<lparr>bf_status := Failed, bf_error := backfill_mapApiError e, bf_createdCount := 0, bf_progress := 0\<rparr>, jobs)"
    using assms by (simp add: backfill_handleLoad_def)
qed

text \<open>A server that creates the first job and then fails.\<close>

definition flaky_env :: loader_env where
  "flaky_env = \<lparr>ld_api = \<lparr>API_BASE_URL = ''/api'', env_protocol = ''https:'', env_prod = True, env_url_host = (\<lambda>_. None)\<rparr>,
     ld_fetch = (\<lambda>rq. if rq_body rq = Some (Obj 0 [(''code'', Str ''TXFR1''), (''end_date'', Str ''2026-03-17''),
                   (''overwrite_mode'', Str ''force''), (''start_date'', Str ''2026-03-17'')])
                 then Responded \<lparr>rs_status = 200, rs_json = Some (Obj 1 [(''job_id'', Num (Fin 7))])\<rparr>
                 else Responded \<lparr>rs_status = 500, rs_json = None\<rparr>),
     ld_nowIso = ''now''\<rparr>"

definition two_codes :: backfill_panel where
  "two_codes = \<lparr>bf_dates = \<lparr>df_mode = Single, df_singleDate = ''2026-03-17'', df_rangeStart = [], df_rangeEnd = []\<rparr>,
     bf_codes = [''TXFR1'', ''TXF''], bf_overwriteMode = ''force'', bf_status = Idle, bf_error = ([], None),
     bf_progress = 0, bf_createdCount = 0\<rparr>"

theorem backfill_reports_witness:
  "snd (snd (backfill_handleLoad flaky_env (Some ''t'') (two_codes, []))) = []
    \<and> length (fst (backfill_handleLoad flaky_env (Some ''t'') (two_codes, []))) = 2
    \<and> (\<exists>j. code_outcome flaky_env ''t'' two_codes ''TXFR1'' = Inr j \<and> job_id j = Num (Fin 7))"
proof -
  have call: "snd (triggerHistoricalBackfillJob flaky_env ''t'' c ''2026-03-17'' ''2026-03-17'' ''force'')
      = (if c = ''TXFR1'' then Inr (Obj 1 [(''job_id'', Num (Fin 7))]) else Inl (ApiError ''api_request_failed'' 500))" for c
    by (simp add: triggerHistoricalBackfillJob_def flaky_env_def postJson_def request_def Let_def response_ok_def parseError_def
        shouldBlockInsecureTransport_def absolute_http_def ascii_lower_def)
  have v: "backfill_validateInputs two_codes = None"
    by (simp add: backfill_validateInputs_def two_codes_def validate_dates_def)
  obtain j where j: "code_outcome flaky_env ''t'' two_codes ''TXFR1'' = Inr j" "job_id j = Num (Fin 7)"
    using call [of "''TXFR1''"]
    by (simp add: code_outcome_def two_codes_def start_of_def end_of_def toUnifiedJob_def job_of_def nullish_def)
  have e: "code_outcome flaky_env ''t'' two_codes ''TXF'' = Inl (ApiError ''api_request_failed'' 500)"
    using call [of "''TXF''"] by (simp add: code_outcome_def two_codes_def start_of_def end_of_def)
  from backfill_reports [OF v, of "''t''" flaky_env "\<lambda>_. j" "[]" "[''TXFR1'']" "''TXF''" "[]"] j e
  show ?thesis by (auto simp: two_codes_def)
qed

text \<open>Invalid inputs and a missing session send nothing and keep the jobs.\<close>

lemma nothing_sent:
  "backfill_validateInputs p \<noteq> None \<or> token = None \<or> token = Some [] \<Longrightarrow>
    fst (backfill_handleLoad env token (p, jobs)) = [] \<and> snd (snd (backfill_handleLoad env token (p, jobs))) = jobs"
  "crawler_validateInputs c \<noteq> None \<or> token = None \<or> token = Some [] \<Longrightarrow>
    fst (crawler_handleLoad env token (c, jobs)) = [] \<and> snd (snd (crawler_handleLoad env token (c, jobs))) = jobs"
  by (auto simp: backfill_handleLoad_def crawler_handleLoad_def split: option.splits)

end
