(* ===== verification/ShellNavigation.thy ===== *)
theory ShellNavigation
  imports JsValue
begin

text \<open>
  Navigation inside the application shell, \<open>app/navigation/ShellNavigationContext.tsx\<close>: a click
  sets a loading mark with the pathname aimed at, waits for the preparation of the target page,
  hands the navigation to the router, and clears the mark a moment after the aimed pathname has
  become the current one.

  The router is a third-party library: the pathname a navigation ends at, after redirects, is the
  argument \<open>arrive\<close>. What the router does in a React transition is one step here, so the flag
  \<open>isPending\<close>, true only inside such a step, does not appear.
\<close>

section \<open>Targets and clicks\<close>

datatype nav_to = To_string string | To_object "string option"

fun resolvePathname :: "nav_to \<Rightarrow> string option" where
  "resolvePathname (To_string s) =
     (let pathname = takeWhile (\<lambda>c. c \<noteq> CHR ''?'' \<and> c \<noteq> CHR ''#'') s
      in Some (if pathname = [] then ''/'' else pathname))"
| "resolvePathname (To_object pathname) = pathname"

record click =
  defaultPrevented :: bool
  button :: nat
  metaKey :: bool
  altKey :: bool
  ctrlKey :: bool
  shiftKey :: bool
  anchor_target :: string

definition shouldHandleClientNavigation :: "click \<Rightarrow> bool" where
  "shouldHandleClientNavigation e \<longleftrightarrow>
     \<not> defaultPrevented e \<and> button e = 0 \<and> \<not> metaKey e \<and> \<not> altKey e \<and> \<not> ctrlKey e \<and> \<not> shiftKey e
     \<and> (anchor_target e = [] \<or> anchor_target e = ''_self'')"

section \<open>The provider\<close>

definition SHELL_NAVIGATION_SKELETON_DELAY_MS :: nat where
  "SHELL_NAVIGATION_SKELETON_DELAY_MS = 260"

text \<open>
  The state: the current pathname, the loading mark, the pathname aimed at, the navigations whose
  preparation has not settled, the dependencies the effect last ran with, and the milliseconds its
  timer has left.
\<close>

record nav =
  location_pathname :: string
  routeLoading :: bool
  targetPathname :: "string option"
  preparing :: "nav_to list"
  effect_deps :: "(string \<times> bool \<times> string option) option"
  skeleton_timer :: "nat option"

definition initial_nav :: "string \<Rightarrow> nav" where
  "initial_nav p = \<lparr>location_pathname = p, routeLoading = False, targetPathname = None, preparing = [],
     effect_deps = None, skeleton_timer = None\<rparr>"

text \<open>The effect, after a render: with new dependencies its timer is cleared and perhaps set again.\<close>

definition loading_effect :: "nav \<Rightarrow> nav" where
  "loading_effect st =
     (let deps = (location_pathname st, routeLoading st, targetPathname st)
      in if effect_deps st = Some deps then st
         else st\<lparr>effect_deps := Some deps,
                 skeleton_timer :=
                   (if \<not> routeLoading st \<or> targetPathname st = None then None
                    else if targetPathname st \<noteq> Some (location_pathname st) then None
                    else Some SHELL_NAVIGATION_SKELETON_DELAY_MS)\<rparr>)"

definition navigateWithTransition :: "nav_to \<Rightarrow> nav \<Rightarrow> nav" where
  "navigateWithTransition dest st =
     (let nextPathname = resolvePathname dest
      in if nextPathname \<noteq> None \<and> nextPathname = Some (location_pathname st)
         then st\<lparr>routeLoading := False, targetPathname := None\<rparr>
         else st\<lparr>routeLoading := True, targetPathname := nextPathname, preparing := preparing st @ [dest]\<rparr>)"

definition createLinkClickHandler :: "nav_to \<Rightarrow> click \<Rightarrow> nav \<Rightarrow> nav" where
  "createLinkClickHandler dest e st =
     (if \<not> shouldHandleClientNavigation e then st else navigateWithTransition dest st)"

text \<open>Preparation \<open>i\<close> settles, resolved or rejected: the navigation goes to the router.\<close>

definition prepared :: "(nav_to \<Rightarrow> string) \<Rightarrow> nat \<Rightarrow> nav \<Rightarrow> nav" where
  "prepared arrive i st =
     (if i < length (preparing st)
      then st\<lparr>location_pathname := arrive (preparing st ! i),
              preparing := take i (preparing st) @ drop (Suc i) (preparing st)\<rparr>
      else st)"

definition timer_fires :: "nav \<Rightarrow> nav" where
  "timer_fires st = st\<lparr>routeLoading := False, targetPathname := None, skeleton_timer := None\<rparr>"

definition time_passes :: "nat \<Rightarrow> nav \<Rightarrow> nav" where
  "time_passes ms st =
     (case skeleton_timer st of
        None \<Rightarrow> st
      | Some r \<Rightarrow> if ms < r then st\<lparr>skeleton_timer := Some (r - ms)\<rparr> else timer_fires st)"

text \<open>
  What happens to the provider: a navigation through a link or a button, a preparation settling,
  time passing, a location change it did not start; after each, its effect.
\<close>

datatype nav_event = Go nav_to | Click nav_to click | Prepared nat | Elapse nat | Relocated string

fun nav_handle :: "(nav_to \<Rightarrow> string) \<Rightarrow> nav_event \<Rightarrow> nav \<Rightarrow> nav" where
  "nav_handle arrive (Go dest) st = navigateWithTransition dest st"
| "nav_handle arrive (Click dest e) st = createLinkClickHandler dest e st"
| "nav_handle arrive (Prepared i) st = prepared arrive i st"
| "nav_handle arrive (Elapse ms) st = time_passes ms st"
| "nav_handle arrive (Relocated p) st = st\<lparr>location_pathname := p\<rparr>"

definition nav_step :: "(nav_to \<Rightarrow> string) \<Rightarrow> nav_event \<Rightarrow> nav \<Rightarrow> nav" where
  "nav_step arrive ev st = loading_effect (nav_handle arrive ev st)"

definition nav_run :: "(nav_to \<Rightarrow> string) \<Rightarrow> nav_event list \<Rightarrow> nav \<Rightarrow> nav" where
  "nav_run arrive evs st = fold (nav_step arrive) evs st"

section \<open>Loading ends\<close>

definition timer_ok :: "nav \<Rightarrow> bool" where
  "timer_ok st \<longleftrightarrow>
     effect_deps st = Some (location_pathname st, routeLoading st, targetPathname st)
     \<and> (skeleton_timer st \<noteq> None \<longleftrightarrow> routeLoading st \<and> targetPathname st = Some (location_pathname st))
     \<and> (\<forall>r. skeleton_timer st = Some r \<longrightarrow> 0 < r \<and> r \<le> SHELL_NAVIGATION_SKELETON_DELAY_MS)
     \<and> (targetPathname st \<noteq> None \<longrightarrow> routeLoading st)"

text \<open>
  In order: every target names a pathname at which the router arrives, preparations settle in the
  order of the clicks, and nothing else moves the location.
\<close>

fun in_order :: "(nav_to \<Rightarrow> string) \<Rightarrow> nav_event \<Rightarrow> bool" where
  "in_order arrive (Go dest) = (resolvePathname dest = Some (arrive dest))"
| "in_order arrive (Click dest e) = (resolvePathname dest = Some (arrive dest))"
| "in_order arrive (Prepared i) = (i = 0)"
| "in_order arrive (Elapse ms) = True"
| "in_order arrive (Relocated p) = False"

definition aimed :: "(nav_to \<Rightarrow> string) \<Rightarrow> nav \<Rightarrow> bool" where
  "aimed arrive st \<longleftrightarrow>
     (routeLoading st \<longrightarrow>
        targetPathname st = Some (if preparing st = [] then location_pathname st else arrive (last (preparing st))))"

lemma effect_fields [simp]:
  "location_pathname (loading_effect st) = location_pathname st"
  "routeLoading (loading_effect st) = routeLoading st"
  "targetPathname (loading_effect st) = targetPathname st"
  "preparing (loading_effect st) = preparing st"
  by (simp_all add: loading_effect_def Let_def)

lemma time_passes_preparing [simp]: "preparing (time_passes ms st) = preparing st"
  and time_passes_location [simp]: "location_pathname (time_passes ms st) = location_pathname st"
  by (simp_all add: time_passes_def timer_fires_def split: option.splits)

lemma nav_handle_mark:
  "targetPathname st \<noteq> None \<longrightarrow> routeLoading st \<Longrightarrow>
    targetPathname (nav_handle arrive ev st) \<noteq> None \<longrightarrow> routeLoading (nav_handle arrive ev st)"
  by (cases ev) (auto simp: navigateWithTransition_def createLinkClickHandler_def prepared_def time_passes_def
      timer_fires_def Let_def split: option.splits)

lemma timer_ok_fresh:
  assumes "targetPathname st \<noteq> None \<longrightarrow> routeLoading st"
    and "effect_deps st \<noteq> Some (location_pathname st, routeLoading st, targetPathname st)"
  shows "timer_ok (loading_effect st)"
  using assms by (auto simp: loading_effect_def timer_ok_def Let_def SHELL_NAVIGATION_SKELETON_DELAY_MS_def)

lemma timer_ok_time:
  assumes ok: "timer_ok st" shows "timer_ok (loading_effect (time_passes ms st))"
proof (cases "skeleton_timer st")
  case None
  then show ?thesis using ok by (simp add: time_passes_def loading_effect_def timer_ok_def)
next
  case (Some r)
  show ?thesis
  proof (cases "ms < r")
    case True
    then show ?thesis using ok Some by (auto simp: time_passes_def loading_effect_def timer_ok_def)
  next
    case False
    have "time_passes ms st = timer_fires st" using Some False by (simp add: time_passes_def)
    moreover have "routeLoading st" "effect_deps st = Some (location_pathname st, routeLoading st, targetPathname st)"
      using ok Some by (simp_all add: timer_ok_def)
    ultimately show ?thesis by (simp only:) (rule timer_ok_fresh; simp add: timer_fires_def)
  qed
qed

lemma timer_ok_step:
  assumes ok: "timer_ok st" shows "timer_ok (nav_step arrive ev st)"
proof (cases "\<exists>ms. ev = Elapse ms")
  case True
  with timer_ok_time [OF ok] show ?thesis by (auto simp: nav_step_def)
next
  case False
  let ?m = "nav_handle arrive ev st"
  have mark: "targetPathname ?m \<noteq> None \<longrightarrow> routeLoading ?m"
    using nav_handle_mark ok by (auto simp: timer_ok_def)
  have same: "effect_deps ?m = effect_deps st" "skeleton_timer ?m = skeleton_timer st"
    using False by (cases ev; simp add: navigateWithTransition_def createLinkClickHandler_def prepared_def Let_def)+
  show ?thesis
  proof (cases "effect_deps ?m = Some (location_pathname ?m, routeLoading ?m, targetPathname ?m)")
    case True
    then have "timer_ok ?m" using ok same mark by (simp add: timer_ok_def)
    moreover have "loading_effect ?m = ?m" using True by (simp add: loading_effect_def)
    ultimately show ?thesis by (simp add: nav_step_def)
  next
    case False
    with mark show ?thesis unfolding nav_step_def by (rule timer_ok_fresh)
  qed
qed

lemma aimed_effect [simp]: "aimed arrive (loading_effect st) = aimed arrive st"
  by (simp add: aimed_def)

lemma aimed_go:
  "aimed arrive st \<Longrightarrow> resolvePathname dest = Some (arrive dest) \<Longrightarrow> aimed arrive (navigateWithTransition dest st)"
  by (simp add: navigateWithTransition_def aimed_def Let_def)

lemma aimed_prepared: "aimed arrive st \<Longrightarrow> aimed arrive (prepared arrive 0 st)"
  by (cases "preparing st") (auto simp: prepared_def aimed_def)

lemma aimed_time: "aimed arrive st \<Longrightarrow> aimed arrive (time_passes ms st)"
  by (auto simp: time_passes_def timer_fires_def aimed_def split: option.splits)

lemma aimed_step:
  assumes "aimed arrive st" and "in_order arrive ev"
  shows "aimed arrive (nav_step arrive ev st)"
proof (cases ev)
  case (Click dest e)
  then show ?thesis using assms
    by (cases "shouldHandleClientNavigation e") (simp_all add: nav_step_def createLinkClickHandler_def aimed_go)
qed (use assms in \<open>simp_all add: nav_step_def aimed_go aimed_prepared aimed_time\<close>)

lemma nav_run_Nil [simp]: "nav_run arrive [] st = st"
  and nav_run_Cons [simp]: "nav_run arrive (ev # evs) st = nav_run arrive evs (nav_step arrive ev st)"
  and nav_run_append [simp]: "nav_run arrive (evs @ evs') st = nav_run arrive evs' (nav_run arrive evs st)"
  by (simp_all add: nav_run_def)

lemma run_timer_ok: "timer_ok st \<Longrightarrow> timer_ok (nav_run arrive evs st)"
  by (induction evs arbitrary: st) (simp_all add: timer_ok_step)

lemma run_aimed: "aimed arrive st \<Longrightarrow> list_all (in_order arrive) evs \<Longrightarrow> aimed arrive (nav_run arrive evs st)"
  by (induction evs arbitrary: st) (simp_all add: aimed_step)

text \<open>Letting every preparation settle in order, then waiting.\<close>

definition settle_all :: "nav \<Rightarrow> nav_event list" where
  "settle_all st = replicate (length (preparing st)) (Prepared 0)"

lemma settle_all_preparing: "preparing (nav_run arrive (settle_all st) st) = []"
proof -
  have "length (preparing st) = n \<Longrightarrow> preparing (nav_run arrive (replicate n (Prepared 0)) st) = []" for n
    by (induction n arbitrary: st) (auto simp: nav_step_def prepared_def)
  then show ?thesis by (simp add: settle_all_def)
qed

lemma in_order_settle_all [simp]: "list_all (in_order arrive) (settle_all st)"
  by (simp add: settle_all_def list_all_iff)

lemma timer_elapses:
  assumes ok: "timer_ok st" and "SHELL_NAVIGATION_SKELETON_DELAY_MS \<le> ms" and at: "targetPathname st = Some (location_pathname st)"
  shows "routeLoading (nav_step arrive (Elapse ms) st) = False"
proof -
  have "routeLoading st" using ok at by (simp add: timer_ok_def)
  then obtain r where r: "skeleton_timer st = Some r" using ok at by (auto simp: timer_ok_def)
  with ok have "r \<le> SHELL_NAVIGATION_SKELETON_DELAY_MS" by (simp add: timer_ok_def)
  then show ?thesis using assms(2) r by (simp add: nav_step_def time_passes_def timer_fires_def)
qed

lemma settle_all_location:
  "location_pathname (nav_run arrive (settle_all st) st)
     = (if preparing st = [] then location_pathname st else arrive (last (preparing st)))"
proof -
  have "length (preparing st) = n \<Longrightarrow> location_pathname (nav_run arrive (replicate n (Prepared 0)) st)
      = (if preparing st = [] then location_pathname st else arrive (last (preparing st)))" for n
  proof (induction n arbitrary: st)
    case (Suc n)
    then obtain d ds where "preparing st = d # ds" "length ds = n" by (cases "preparing st") auto
    then show ?case using Suc.IH [of "nav_step arrive (Prepared 0) st"] by (auto simp: nav_step_def prepared_def)
  qed simp
  then show ?thesis by (simp add: settle_all_def)
qed

lemma go_preparing:
  "arrive dest \<noteq> location_pathname st \<Longrightarrow> resolvePathname dest = Some (arrive dest)
    \<Longrightarrow> preparing (nav_step arrive (Go dest) st) = preparing st @ [dest]"
  by (simp add: nav_step_def navigateWithTransition_def Let_def)

text \<open>
  C31. Navigations end: after any run in which targets name the pathname the router arrives at and
  preparations settle in the order of the clicks, once the pending preparations have settled and
  260 ms have passed, nothing is loading and the location is the target of the last navigation that
  was pending (the present one when there was none); in particular a navigation to any other page than
  the present one, started at that point, ends there. While it is loading, the timer runs exactly when
  the aimed pathname is the current one.
\<close>

theorem loading_ends:
  fixes p :: string
  assumes "list_all (in_order arrive) evs" and "SHELL_NAVIGATION_SKELETON_DELAY_MS \<le> ms"
  defines "st \<equiv> nav_run arrive evs (loading_effect (initial_nav p))"
  defines "ended \<equiv> \<lambda>s. nav_run arrive (settle_all s @ [Elapse ms]) s"
  shows "\<not> routeLoading (ended st)
    \<and> location_pathname (ended st) = (if preparing st = [] then location_pathname st else arrive (last (preparing st)))
    \<and> (\<forall>dest. resolvePathname dest = Some (arrive dest) \<and> arrive dest \<noteq> location_pathname st \<longrightarrow>
         \<not> routeLoading (ended (nav_step arrive (Go dest) st))
         \<and> location_pathname (ended (nav_step arrive (Go dest) st)) = arrive dest)
    \<and> (routeLoading st \<longrightarrow> (skeleton_timer st \<noteq> None \<longleftrightarrow> targetPathname st = Some (location_pathname st)))"
proof -
  have t0: "timer_ok (loading_effect (initial_nav p))"
    by (simp add: timer_ok_def loading_effect_def initial_nav_def)
  have a0: "aimed arrive (loading_effect (initial_nav p))" by (simp add: aimed_def initial_nav_def)
  have ends: "\<not> routeLoading (ended s)" if ok: "timer_ok s" and aim: "aimed arrive s" for s
  proof -
    let ?s = "nav_run arrive (settle_all s) s"
    have "aimed arrive ?s" using aim by (rule run_aimed) simp
    then have at: "routeLoading ?s \<longrightarrow> targetPathname ?s = Some (location_pathname ?s)"
      by (simp add: aimed_def settle_all_preparing)
    have ok': "timer_ok ?s" using ok by (rule run_timer_ok)
    have "\<not> routeLoading (nav_step arrive (Elapse ms) ?s)"
    proof (cases "routeLoading ?s")
      case True
      with timer_elapses [OF ok' assms(2)] at show ?thesis by simp
    next
      case False
      then show ?thesis by (simp add: nav_step_def time_passes_def timer_fires_def split: option.splits)
    qed
    then show ?thesis by (simp add: ended_def)
  qed
  have place: "location_pathname (ended s) = (if preparing s = [] then location_pathname s else arrive (last (preparing s)))" for s
    using settle_all_location [of arrive s] by (simp add: ended_def nav_step_def)
  have ok: "timer_ok st" and aim: "aimed arrive st"
    unfolding st_def using t0 a0 assms(1) by (auto intro: run_timer_ok run_aimed)
  have "\<not> routeLoading (ended (nav_step arrive (Go dest) st))
      \<and> location_pathname (ended (nav_step arrive (Go dest) st)) = arrive dest"
    if "resolvePathname dest = Some (arrive dest)" "arrive dest \<noteq> location_pathname st" for dest
    using that ends [OF timer_ok_step [OF ok] aimed_step [OF aim, of "Go dest"]] place [of "nav_step arrive (Go dest) st"]
    by (simp add: go_preparing)
  then show ?thesis using ends [OF ok aim] place [of st] ok by (auto simp: timer_ok_def)
qed

theorem loading_ends_witness:
  "let st = nav_run (\<lambda>_. ''/a'') [Go (To_string ''/a?x''), Prepared 0, Elapse 260] (loading_effect (initial_nav ''/''))
   in \<not> routeLoading st \<and> location_pathname st = ''/a''
    \<and> routeLoading (nav_run (\<lambda>_. ''/a'') [Go (To_string ''/a?x''), Prepared 0, Elapse 259] (loading_effect (initial_nav ''/'')))"
proof -
  let ?evs = "[Go (To_string ''/a?x'')]"
  let ?st = "nav_run (\<lambda>_. ''/a'') ?evs (loading_effect (initial_nav ''/''))"
  have p: "preparing ?st = [To_string ''/a?x'']"
    by (simp add: nav_step_def navigateWithTransition_def initial_nav_def Let_def)
  then have "settle_all ?st = [Prepared 0]" by (simp add: settle_all_def)
  moreover have "routeLoading (nav_run (\<lambda>_. ''/a'') [Go (To_string ''/a?x''), Prepared 0, Elapse 259] (loading_effect (initial_nav ''/'')))"
    by (simp add: nav_step_def navigateWithTransition_def initial_nav_def Let_def prepared_def time_passes_def
        loading_effect_def SHELL_NAVIGATION_SKELETON_DELAY_MS_def)
  ultimately show ?thesis
    using loading_ends [of "\<lambda>_. ''/a''" ?evs 260 "''/''"] p by (simp add: SHELL_NAVIGATION_SKELETON_DELAY_MS_def Let_def)
qed

text \<open>
  Out of order it never ends: when the first of two clicks settles after the second, the location
  is not the one aimed at, nothing is pending and no timer runs, and the shell shows the skeleton
  in place of the page until the next click; the same for a target without a pathname.
\<close>

definition stuck :: "nav \<Rightarrow> bool" where
  "stuck st \<longleftrightarrow> routeLoading st \<and> preparing st = [] \<and> skeleton_timer st = None"

lemma stuck_stays: "stuck st \<Longrightarrow> timer_ok st \<Longrightarrow> nav_step arrive (Elapse ms) st = st"
  by (simp add: stuck_def timer_ok_def nav_step_def time_passes_def loading_effect_def)

definition arrive_at :: "nav_to \<Rightarrow> string" where
  "arrive_at dest = (case resolvePathname dest of Some p \<Rightarrow> p | None \<Rightarrow> ''/'')"

lemma overtaken_is_stuck:
  "stuck (nav_run arrive_at [Go (To_string ''/a''), Go (To_string ''/b''), Prepared 1, Prepared 0]
     (loading_effect (initial_nav ''/'')))"
  by (simp add: stuck_def nav_step_def navigateWithTransition_def initial_nav_def Let_def prepared_def
      loading_effect_def arrive_at_def)

lemma no_pathname_is_stuck:
  "stuck (nav_run arrive_at [Go (To_object None), Prepared 0] (loading_effect (initial_nav ''/'')))"
  by (simp add: stuck_def nav_step_def navigateWithTransition_def initial_nav_def Let_def prepared_def
      loading_effect_def arrive_at_def)

end
