(* ===== verification/Checkout.thy ===== *)
theory Checkout
  imports Session
begin

text \<open>
  Paying for a subscription: the requests of \<open>features/subscription/api/billing.ts\<close>, the checkout
  started by \<open>features/subscription/pages/SubscriptionPage.tsx\<close>, and the page the payment
  provider returns to, \<open>features/subscription/pages/CheckoutResultPage.tsx\<close>.

  The query cache (React Query) is a third-party library: a page sees a query as its last data, if
  any, and its status flags. What the page relies on is \<open>query_law\<close>: a successful query has data
  and is not in error.
\<close>

section \<open>Requests\<close>

type_synonym network = "http_request \<Rightarrow> fetched"

definition getBillingPlans :: "api_env \<Rightarrow> network \<Rightarrow> http_request option \<times> (js_error + jsval)" where
  "getBillingPlans env fetch = getJson env fetch ''/billing/plans'' []"

definition getBillingStatus :: "api_env \<Rightarrow> network \<Rightarrow> string \<Rightarrow> http_request option \<times> (js_error + jsval)" where
  "getBillingStatus env fetch token = getJson env fetch ''/billing/status'' (bearer token)"

definition startCheckout :: "api_env \<Rightarrow> network \<Rightarrow> string \<Rightarrow> http_request option \<times> (js_error + jsval)" where
  "startCheckout env fetch token = postJson env fetch ''/billing/checkout'' (Obj 0 []) (bearer token)"

definition createPortalSession :: "api_env \<Rightarrow> network \<Rightarrow> string \<Rightarrow> http_request option \<times> (js_error + jsval)" where
  "createPortalSession env fetch token = postJson env fetch ''/billing/portal-session'' (Obj 0 []) (bearer token)"

definition getCheckoutSessionStatus ::
  "api_env \<Rightarrow> network \<Rightarrow> string \<Rightarrow> string \<Rightarrow> http_request option \<times> (js_error + jsval)" where
  "getCheckoutSessionStatus env fetch token sessionId =
     getJson env fetch (''/billing/checkout-session/'' @ encodeURIComponent sessionId) (bearer token)"

text \<open>
  The session identifier comes from the address bar; it stays one segment of the path, unless it has a
  slash or is one or two dots.
\<close>

lemma checkout_session_url:
  assumes "fst (getCheckoutSessionStatus env fetch token sessionId) = Some rq"
    and "plain_segment sessionId"
  shows "\<exists>path. rq_url rq = API_BASE_URL env @ path
    \<and> read_url path = ([[], ''billing'', ''checkout-session'', sessionId], [])"
proof -
  have "''/billing/checkout-session/'' @ encodeURIComponent sessionId = url_path [''billing'', ''checkout-session'', sessionId]"
    by (simp add: url_path_def)
  then show ?thesis
    using assms read_url_path(1) [of "[''billing'', ''checkout-session'', sessionId]"]
    by (auto simp: getCheckoutSessionStatus_def getJson_def request_def plain_segment_def Let_def split: if_splits)
qed

section \<open>Starting a checkout\<close>

text \<open>
  The callbacks of the checkout mutation: what is done when the checkout has been created, and what
  is done after the billing status has been asked again. The second runs later, with the token,
  role and status its closure captured; \<open>refreshed\<close> is the data of the repeated query.
\<close>

record checkout_closure =
  cc_token :: "string option"
  cc_role :: user_role
  cc_status :: jsval

definition checkout_created :: "jsval \<Rightarrow> session_state \<Rightarrow> session_state" where
  "checkout_created result st = setCheckoutSessionId (the_str (js_get result ''session_id'')) st"

definition checkout_refreshed :: "checkout_closure \<Rightarrow> jsval option \<Rightarrow> session_state \<Rightarrow> session_state" where
  "checkout_refreshed c refreshed st =
     (let nextStatus = (case refreshed of Some d \<Rightarrow> js_coalesce (js_get d ''status'') (cc_status c) | None \<Rightarrow> cc_status c)
      in case cc_token c of
           None \<Rightarrow> st
         | Some token \<Rightarrow>
             if token = [] then st
             else setSession token (cc_role c)
                    (case refreshed of Some d \<Rightarrow> resolveEntitlementFromBillingStatus d
                     | None \<Rightarrow> mapEntitlement nextStatus) st)"

definition isProCurrentPlan :: "jsval option \<Rightarrow> jsval \<Rightarrow> bool" where
  "isProCurrentPlan status entitlement \<longleftrightarrow>
     (case status of Some d \<Rightarrow> js_coalesce (js_get d ''status'') entitlement | None \<Rightarrow> entitlement) = Str ''active''"

text \<open>
  A logout between the two is undone: the captured session is written over the cleared one.
\<close>

lemma logout_undone:
  assumes "cc_token c = Some token" and "token \<noteq> []"
  shows "s_token (checkout_refreshed c refreshed (clearSession (checkout_created result st))) = Some token
    \<and> s_role (checkout_refreshed c refreshed (clearSession (checkout_created result st))) = cc_role c"
  using assms by (simp add: checkout_refreshed_def setSession_def Let_def)

section \<open>The result page\<close>

datatype checkout_kind = Checkout_success | Checkout_cancel

record query_view =
  qv_data :: "jsval option"
  qv_isError :: bool
  qv_isSuccess :: bool
  qv_isLoading :: bool

definition query_law :: "query_view \<Rightarrow> bool" where
  "query_law q \<longleftrightarrow>
     (qv_isSuccess q \<longrightarrow> qv_data q \<noteq> None \<and> \<not> qv_isError q \<and> \<not> qv_isLoading q)"

definition given :: "string option \<Rightarrow> bool" where
  "given s \<longleftrightarrow> s \<noteq> None \<and> s \<noteq> Some []"

definition effectiveSessionId :: "string option \<Rightarrow> session_state \<Rightarrow> string option" where
  "effectiveSessionId sessionIdFromQuery st =
     (case sessionIdFromQuery of Some s \<Rightarrow> Some s | None \<Rightarrow> s_checkoutSessionId st)"

definition sync_session_id :: "string option \<Rightarrow> session_state \<Rightarrow> session_state" where
  "sync_session_id sessionIdFromQuery st =
     (if given sessionIdFromQuery \<and> sessionIdFromQuery \<noteq> s_checkoutSessionId st
      then setCheckoutSessionId sessionIdFromQuery st else st)"

definition checkout_enabled :: "string option \<Rightarrow> session_state \<Rightarrow> bool" where
  "checkout_enabled sid st \<longleftrightarrow> given (s_token st) \<and> given sid \<and> s_resolved st"

definition is_paid :: "query_view \<Rightarrow> jsval" where
  "is_paid q = (case qv_data q of None \<Rightarrow> Undef | Some d \<Rightarrow> js_get d ''is_paid'')"

definition checkout_refetchInterval :: "checkout_kind \<Rightarrow> query_view \<Rightarrow> nat option" where
  "checkout_refetchInterval kind q =
     (if kind \<noteq> Checkout_success \<or> truthy (is_paid q) then None else Some 3000)"

definition billing_enabled :: "checkout_kind \<Rightarrow> session_state \<Rightarrow> query_view \<Rightarrow> bool" where
  "billing_enabled kind st q \<longleftrightarrow>
     given (s_token st) \<and> s_resolved st
     \<and> (kind = Checkout_success \<and> js_seq (is_paid q) (Bool True) \<or> kind = Checkout_cancel \<and> js_seq (is_paid q) (Bool False))"

definition billing_effect :: "jsval option \<Rightarrow> session_state \<Rightarrow> session_state" where
  "billing_effect billing st =
     (case (s_token st, billing) of
        (Some token, Some d) \<Rightarrow>
          if token = [] \<or> \<not> truthy d then st
          else setSession token (s_role st) (resolveEntitlementFromBillingStatus d) st
      | _ \<Rightarrow> st)"

definition leaves_for_dashboard :: "checkout_kind \<Rightarrow> string option \<Rightarrow> session_state \<Rightarrow> query_view \<Rightarrow> bool" where
  "leaves_for_dashboard kind sid st q =
     (if \<not> s_resolved st then False
      else if \<not> given (s_token st) \<or> \<not> given sid then True
      else if qv_isError q then True
      else if \<not> qv_isSuccess q then False
      else if kind = Checkout_success \<and> \<not> truthy (is_paid q) then True
      else kind = Checkout_cancel \<and> truthy (is_paid q))"

definition successVerified :: "checkout_kind \<Rightarrow> query_view \<Rightarrow> bool" where
  "successVerified kind q \<longleftrightarrow> kind = Checkout_success \<and> qv_isSuccess q \<and> truthy (is_paid q)"

definition cancelVerified :: "checkout_kind \<Rightarrow> query_view \<Rightarrow> bool" where
  "cancelVerified kind q \<longleftrightarrow> kind = Checkout_cancel \<and> qv_isSuccess q \<and> \<not> truthy (is_paid q)"

definition status_key :: "checkout_kind \<Rightarrow> string option \<Rightarrow> session_state \<Rightarrow> query_view \<Rightarrow> string" where
  "status_key kind sid st q =
     (if \<not> s_resolved st then ''checkingSession''
      else if \<not> given (s_token st) then ''notLoggedIn''
      else if \<not> given sid then ''noSessionId''
      else if qv_isLoading q then ''verifying''
      else if qv_isError q then ''verifyFailed''
      else if kind = Checkout_success \<and> truthy (is_paid q) then ''successVerified''
      else if kind = Checkout_success then ''successNotPaid''
      else ''canceled'')"

datatype checkout_view = Verification_loading | Result_card checkout_kind string

definition CheckoutResultLayout :: "checkout_kind \<Rightarrow> string option \<Rightarrow> session_state \<Rightarrow> query_view \<Rightarrow> checkout_view" where
  "CheckoutResultLayout kind sid st q =
     (if kind = Checkout_success
      then (if \<not> successVerified kind q then Verification_loading else Result_card kind (status_key kind sid st q))
      else if \<not> cancelVerified kind q then Verification_loading
      else Result_card kind (status_key kind sid st q))"

text \<open>
  C32. The result page of a logged-in user: the success page shows its card, and that card only, when
  the payment provider's status says that the session is paid; the cancel page shows the card of the
  cancelled checkout, and only that, when it says that the session is not paid; in all other cases the
  loading card is shown, and once the status is known, or an error, the page then leaves for the
  dashboard. So the three-second polling of the success page has no effect on a page that stays:
  whenever an answer would be followed by another poll, the page leaves. With a boolean answer the
  billing status is asked exactly when a result is shown.
\<close>

theorem checkout_result_page:
  assumes "query_law q" and "checkout_enabled sid st"
  shows "CheckoutResultLayout Checkout_success sid st q =
      (if qv_isSuccess q \<and> truthy (is_paid q) then Result_card Checkout_success ''successVerified'' else Verification_loading)
    \<and> CheckoutResultLayout Checkout_cancel sid st q =
      (if qv_isSuccess q \<and> \<not> truthy (is_paid q) then Result_card Checkout_cancel ''canceled'' else Verification_loading)
    \<and> (qv_isSuccess q \<or> qv_isError q \<longrightarrow>
         (leaves_for_dashboard kind sid st q \<longleftrightarrow> CheckoutResultLayout kind sid st q = Verification_loading))
    \<and> (qv_isSuccess q \<and> checkout_refetchInterval kind q \<noteq> None \<longrightarrow> leaves_for_dashboard kind sid st q)
    \<and> (qv_isSuccess q \<and> (\<exists>b. is_paid q = Bool b) \<longrightarrow>
         (billing_enabled kind st q \<longleftrightarrow> CheckoutResultLayout kind sid st q \<noteq> Verification_loading))"
  using assms
  by (cases kind)
     (auto simp: query_law_def checkout_enabled_def leaves_for_dashboard_def CheckoutResultLayout_def successVerified_def
        cancelVerified_def checkout_refetchInterval_def billing_enabled_def status_key_def)

definition demo_status :: "bool \<Rightarrow> query_view" where
  "demo_status paid = \<lparr>qv_data = Some (Obj 1 [(''is_paid'', Bool paid)]), qv_isError = False, qv_isSuccess = True, qv_isLoading = False\<rparr>"

text \<open>A paid session on the success page, and an unpaid one.\<close>

theorem checkout_result_page_witness:
  "let st = setSession ''t'' Member Pending (initial_session None) in
    CheckoutResultLayout Checkout_success (Some ''cs_1'') st (demo_status True) = Result_card Checkout_success ''successVerified''
    \<and> CheckoutResultLayout Checkout_success (Some ''cs_1'') st (demo_status False) = Verification_loading
    \<and> leaves_for_dashboard Checkout_success (Some ''cs_1'') st (demo_status False)
    \<and> checkout_refetchInterval Checkout_success (demo_status False) = Some 3000"
proof -
  have "query_law (demo_status b)" for b by (simp add: query_law_def demo_status_def)
  moreover have "checkout_enabled (Some ''cs_1'') (setSession ''t'' Member Pending (initial_session None))"
    by (simp add: checkout_enabled_def given_def setSession_def)
  ultimately show ?thesis
    using checkout_result_page [of "demo_status True" "Some ''cs_1''" "setSession ''t'' Member Pending (initial_session None)" Checkout_success]
      checkout_result_page [of "demo_status False" "Some ''cs_1''" "setSession ''t'' Member Pending (initial_session None)" Checkout_success]
    by (simp add: checkout_refetchInterval_def is_paid_def demo_status_def Let_def)
qed

text \<open>The page gives an entitlement only to the user logged in, and only what the billing status says.\<close>

lemma billing_effect_session:
  "session_ok st \<Longrightarrow> billing_effect billing st = st \<or> session_step json st (billing_effect billing st)"
  by (auto simp: billing_effect_def intro: st_billing split: option.splits)

end
