(* ===== verification/AuditLog.thy ===== *)
theory AuditLog
  imports ApiClient "HOL-Library.Multiset"
begin

text \<open>
  The administrators' audit log: reading events (\<open>features/admin/lib/audit-events.ts\<close>), asking for
  them (\<open>features/admin/api/audit.ts\<close>) and the filters of the page
  (\<open>features/admin/pages/AdminAuditPage.tsx\<close>). \<open>String\<close> on numbers (\<open>show_num\<close>), the fallback of
  \<open>Date.parse\<close> (\<open>legacy\<close>) and the printing of a moment for the locale zh-TW are parameters.
\<close>

section \<open>Events\<close>

record audit_event =
  ae_id :: "jsnum option"
  ae_event_type :: string
  ae_path :: string
  ae_actor :: "string option"
  ae_role :: "string option"
  ae_result :: jsval
  ae_timestamp :: string
  ae_metadata :: jsval

record audit_view =
  av_id :: string
  av_timeMs :: rat
  av_action :: string
  av_actor :: string
  av_role :: string
  av_path :: string
  av_result :: string
  av_summary :: string
  av_metadata :: jsval
  av_raw :: audit_event

text \<open>\<open>s.toLowerCase()\<close>\<close>

definition char_lower :: "char \<Rightarrow> char" where
  "char_lower c =
     (let n = of_char c :: nat
      in if 65 \<le> n \<and> n \<le> 90 \<or> 192 \<le> n \<and> n \<le> 222 \<and> n \<noteq> 215 then char_of (n + 32) else c)"

definition to_lower :: "string \<Rightarrow> string" where
  "to_lower s = map char_lower s"

definition audit_results :: "string list" where
  "audit_results = [''success'', ''accepted'', ''denied'', ''error'', ''unknown'']"

definition resolveAuditResult :: "string \<Rightarrow> string" where
  "resolveAuditResult eventType =
     (let normalized = to_lower eventType
      in if str_includes normalized ''denied'' then ''denied''
         else if str_includes normalized ''failed'' \<or> str_includes normalized ''error'' then ''error''
         else if str_includes normalized ''triggered'' then ''accepted''
         else if normalized \<noteq> [] then ''success''
         else ''unknown'')"

definition isAdminAuditResult :: "jsval \<Rightarrow> bool" where
  "isAdminAuditResult v \<longleftrightarrow> (case v of Str s \<Rightarrow> s \<in> set audit_results | _ \<Rightarrow> False)"

definition or_string :: "string option \<Rightarrow> string \<Rightarrow> string" where
  "or_string s d = (case s of None \<Rightarrow> d | Some x \<Rightarrow> x)"

definition job_id_text :: "(jsnum \<Rightarrow> string) \<Rightarrow> jsval \<Rightarrow> string option" where
  "job_id_text show_num v = (case v of Num n \<Rightarrow> Some (show_num n) | Str s \<Rightarrow> Some s | _ \<Rightarrow> None)"

definition toSummary :: "(jsnum \<Rightarrow> string) \<Rightarrow> audit_event \<Rightarrow> string" where
  "toSummary show_num event =
     (let jobId = job_id_text show_num (js_get (ae_metadata event) ''job_id'')
      in if ae_event_type event = ''admin_access_denied''
         then or_string (ae_actor event) ''unknown'' @ '' denied on '' @ ae_path event
         else if ae_event_type event = ''crawler_run_triggered'' \<or> ae_event_type event = ''crawler_backfill_triggered''
         then (case jobId of Some j \<Rightarrow> ''crawler triggered (job_id='' @ j @ '')'' | None \<Rightarrow> ''crawler triggered'')
         else if ae_event_type event = ''historical_backfill_triggered''
         then (case (jobId, js_get (ae_metadata event) ''request_payload_hash'') of
                 (Some j, Str hash) \<Rightarrow> ''backfill triggered (job_id='' @ j @ '', hash='' @ take 8 hash @ ''...)''
               | _ \<Rightarrow> ''historical backfill triggered'')
         else if ae_event_type event = ''subscription_status_changed'' then ''subscription status changed''
         else ae_event_type event)"

definition audit_toEpochMs :: "(string \<Rightarrow> jsnum) \<Rightarrow> string \<Rightarrow> rat" where
  "audit_toEpochMs legacy timestamp = (case date_parse legacy timestamp of Fin ms \<Rightarrow> ms | _ \<Rightarrow> 0)"

definition makeId :: "audit_event \<Rightarrow> nat \<Rightarrow> string" where
  "makeId event index =
     ae_event_type event @ '':'' @ ae_timestamp event @ '':'' @ or_string (ae_actor event) ''-'' @ '':'' @ string_of_nat index"

definition audit_row ::
  "(jsnum \<Rightarrow> string) \<Rightarrow> (string \<Rightarrow> jsnum) \<Rightarrow> nat \<times> audit_event \<Rightarrow> audit_view" where
  "audit_row show_num legacy e =
     (let (index, event) = e
      in \<lparr>av_id = (case ae_id event of Some n \<Rightarrow> show_num n | None \<Rightarrow> makeId event index),
          av_timeMs = audit_toEpochMs legacy (ae_timestamp event),
          av_action = ae_event_type event,
          av_actor = or_string (ae_actor event) ''-'',
          av_role = or_string (ae_role event) ''-'',
          av_path = ae_path event,
          av_result = (if isAdminAuditResult (ae_result event) then the (the_str (ae_result event))
                       else resolveAuditResult (ae_event_type event)),
          av_summary = toSummary show_num event,
          av_metadata = js_coalesce (ae_metadata event) Null,
          av_raw = event\<rparr>)"

definition normalizeAdminAuditEvents ::
  "(jsnum \<Rightarrow> string) \<Rightarrow> (string \<Rightarrow> jsnum) \<Rightarrow> audit_event list \<Rightarrow> audit_view list" where
  "normalizeAdminAuditEvents show_num legacy events =
     sort_key (\<lambda>v. - av_timeMs v) (map (audit_row show_num legacy) (enumerate 0 events))"

definition formatAuditTimestamp :: "(rat \<Rightarrow> string) \<Rightarrow> jsnum \<Rightarrow> string" where
  "formatAuditTimestamp format_zh timeMs =
     (case timeMs of Fin ms \<Rightarrow> if ms \<le> 0 then ''-'' else format_zh ms | _ \<Rightarrow> ''-'')"

text \<open>The rows have different keys.\<close>

lemma makeId_inj: "makeId e i = makeId f j \<Longrightarrow> i = j"
proof -
  have tail: "takeWhile (\<lambda>c. c \<noteq> CHR '':'') (rev (makeId e i)) = rev (string_of_nat i)" for e i
  proof -
    have "CHR '':'' \<notin> set (rev (string_of_nat i))"
      using string_of_nat_digits [of "CHR '':''" i] by (auto simp: char_digit_def)
    then show ?thesis by (auto simp: makeId_def takeWhile_append)
  qed
  assume "makeId e i = makeId f j"
  then have "rev (string_of_nat i) = rev (string_of_nat j)" using tail by metis
  then show ?thesis by simp
qed

text \<open>The documented form of numbers as text: different numbers differ, and there is no colon in one.\<close>

definition show_num_law :: "(jsnum \<Rightarrow> string) \<Rightarrow> bool" where
  "show_num_law show_num \<longleftrightarrow> inj show_num \<and> (\<forall>n. CHR '':'' \<notin> set (show_num n))"

definition given_ids :: "audit_event list \<Rightarrow> jsnum list" where
  "given_ids events = map (\<lambda>e. the (ae_id e)) (filter (\<lambda>e. ae_id e \<noteq> None) events)"

lemma audit_ids_distinct:
  assumes law: "show_num_law show_num"
    and ids: "distinct (given_ids events)"
  shows "distinct (map av_id (map (audit_row show_num legacy) (enumerate 0 events)))"
proof -
  have colon: "CHR '':'' \<in> set (makeId e i)" for e i by (simp add: makeId_def)
  have "av_id (audit_row show_num legacy (i, events ! i)) \<noteq> av_id (audit_row show_num legacy (j, events ! j))"
    if ij: "i < j" "j < length events" for i j
  proof (cases "ae_id (events ! i)"; cases "ae_id (events ! j)")
    fix m n assume mn: "ae_id (events ! i) = Some m" "ae_id (events ! j) = Some n"
    have "events = take j events @ events ! j # drop (Suc j) events"
      using ij by (simp add: id_take_nth_drop)
    then have d: "distinct (given_ids (take j events) @ given_ids (events ! j # drop (Suc j) events))"
      using ids by (metis filter_append given_ids_def map_append)
    have "events ! i \<in> set (take j events)" using ij by (force simp: in_set_conv_nth)
    then have "m \<in> set (given_ids (take j events))"
      using mn by (force simp: given_ids_def)
    moreover have "n \<in> set (given_ids (events ! j # drop (Suc j) events))"
      using mn by (simp add: given_ids_def)
    ultimately have "m \<noteq> n" using d by auto
    then show ?thesis using law mn by (simp add: audit_row_def show_num_law_def inj_eq)
  next
    assume "ae_id (events ! i) = None" "ae_id (events ! j) = None"
    then show ?thesis using makeId_inj ij by (auto simp: audit_row_def)
  next
    fix n assume "ae_id (events ! i) = None" "ae_id (events ! j) = Some n"
    then show ?thesis using colon law by (auto simp: audit_row_def show_num_law_def) metis
  next
    fix n assume "ae_id (events ! i) = Some n" "ae_id (events ! j) = None"
    then show ?thesis using colon law by (auto simp: audit_row_def show_num_law_def) metis
  qed
  then show ?thesis
    by (auto simp: distinct_conv_nth nth_enumerate_eq) (metis linorder_neqE_nat)
qed

lemma audit_row_result: "av_result (audit_row show_num legacy e) \<in> set audit_results"
proof (cases e)
  case (Pair i event)
  have "resolveAuditResult t \<in> set audit_results" for t
    by (simp add: resolveAuditResult_def audit_results_def Let_def)
  moreover have "isAdminAuditResult r \<Longrightarrow> the (the_str r) \<in> set audit_results" for r
    by (cases r) (simp_all add: isAdminAuditResult_def)
  ultimately show ?thesis by (simp add: Pair audit_row_def)
qed

text \<open>
  C33. The audit log: the rows are the events, each read on its own, newest first and otherwise in
  the order received; their results are of the five known kinds; and they have different keys as
  soon as the numbers the server gave differ.
\<close>

theorem audit_log_rows:
  fixes legacy :: "string \<Rightarrow> jsnum"
  assumes "show_num_law show_num" and "distinct (given_ids events)"
  defines "rows \<equiv> normalizeAdminAuditEvents show_num legacy events"
  shows "mset (map av_raw rows) = mset events
    \<and> sorted (map (\<lambda>v. - av_timeMs v) rows)
    \<and> (\<forall>t. map av_raw (filter (\<lambda>v. av_timeMs v = t) rows) = filter (\<lambda>e. audit_toEpochMs legacy (ae_timestamp e) = t) events)
    \<and> distinct (map av_id rows)
    \<and> (\<forall>v \<in> set rows. av_result v \<in> set audit_results)"
proof -
  let ?row = "audit_row show_num legacy"
  have raw: "map av_raw (map ?row (enumerate 0 events)) = events"
    by (simp add: comp_def audit_row_def case_prod_unfold)
  have "mset (map av_raw rows) = mset (map av_raw (map ?row (enumerate 0 events)))"
    unfolding rows_def normalizeAdminAuditEvents_def by (simp only: mset_map mset_sort)
  then have "mset (map av_raw rows) = mset events" unfolding raw .
  moreover have "map av_raw (filter (\<lambda>v. av_timeMs v = t) rows) = filter (\<lambda>e. audit_toEpochMs legacy (ae_timestamp e) = t) events" for t
  proof -
    have "filter (\<lambda>v. av_timeMs v = t) rows = filter (\<lambda>v. - av_timeMs v = - t) (map ?row (enumerate 0 events))"
      using sort_key_stable [of "\<lambda>v. - av_timeMs v" "- t" "map ?row (enumerate 0 events)"]
      by (simp add: rows_def normalizeAdminAuditEvents_def)
    also have "map av_raw \<dots> = filter (\<lambda>e. audit_toEpochMs legacy (ae_timestamp e) = t) (map snd (enumerate 0 events))"
      by (simp add: filter_map comp_def audit_row_def case_prod_unfold del: map_snd_enumerate)
    finally show ?thesis by simp
  qed
  moreover have "distinct (map av_id rows)"
  proof -
    have "mset (map av_id rows) = mset (map av_id (map ?row (enumerate 0 events)))"
      unfolding rows_def normalizeAdminAuditEvents_def by (simp only: mset_map mset_sort)
    then show ?thesis using audit_ids_distinct [OF assms(1,2)] by (metis mset_eq_imp_distinct_iff)
  qed
  moreover have "av_result v \<in> set audit_results" if "v \<in> set rows" for v
    using that audit_row_result by (auto simp: rows_def normalizeAdminAuditEvents_def)
  moreover have "sorted (map (\<lambda>v. - av_timeMs v) rows)"
    by (simp add: rows_def normalizeAdminAuditEvents_def)
  ultimately show ?thesis by blast
qed

text \<open>Numbers written with a mark of their own, for the concrete run: any injective text would do.\<close>

definition plain_show :: "jsnum \<Rightarrow> string" where
  "plain_show n = (case n of
       Fin x \<Rightarrow> (let (a, b) = quotient_of x
          in (if a < 0 then ''-'' else []) @ string_of_nat (nat \<bar>a\<bar>) @ ''/'' @ string_of_nat (nat b))
     | NaN \<Rightarrow> ''NaN'' | PInf \<Rightarrow> ''Infinity'' | NInf \<Rightarrow> ''-Infinity'')"

lemma digits_slash: "char_digit c \<noteq> None \<Longrightarrow> c \<noteq> CHR ''/'' \<and> c \<noteq> CHR '':'' \<and> c \<noteq> CHR ''-'' \<and> c \<noteq> CHR ''I'' \<and> c \<noteq> CHR ''N''"
  by (auto simp: char_digit_def)

lemma plain_show_Fin_inj: "plain_show (Fin x) = plain_show (Fin y) \<Longrightarrow> x = y"
proof -
  assume eq: "plain_show (Fin x) = plain_show (Fin y)"
  obtain a b c d where x: "quotient_of x = (a, b)" and y: "quotient_of y = (c, d)" by force
  have no: "CHR ''/'' \<notin> set (string_of_nat n)" "CHR ''-'' \<notin> set (string_of_nat n)" for n
    using string_of_nat_digits [of _ n] digits_slash by blast+
  define l where "l z = (if z < 0 then ''-'' else []) @ string_of_nat (nat \<bar>z\<bar>)" for z :: int
  have "CHR ''/'' \<notin> set (l z)" for z using no by (simp add: l_def)
  then have s: "split_on CHR ''/'' (l z @ ''/'' @ string_of_nat n) = [l z, string_of_nat n]" for z n
    using no by (simp add: split_on_append split_on_no_sep)
  have "l a @ ''/'' @ string_of_nat (nat b) = l c @ ''/'' @ string_of_nat (nat d)"
    using eq x y by (simp add: plain_show_def l_def)
  then have lr: "l a = l c" "nat b = nat d" using s [of a "nat b"] s [of c "nat d"] by simp_all
  have ne: "string_of_nat n \<noteq> []" for n
    by (simp add: string_of_nat_def nat_digits.simps [of n])
  have "hd (string_of_nat n) \<noteq> CHR ''-''" for n using ne [of n] no(2) [of n] by (metis hd_in_set)
  then have "a = c" using lr(1) ne by (auto simp: l_def split: if_splits) (metis append_Cons hd_append2 list.sel(1))+
  moreover have "b = d" using lr(2) quotient_of_denom_pos [OF x] quotient_of_denom_pos [OF y] by simp
  ultimately show "x = y" using x y by (metis quotient_of_inject)
qed

lemma show_num_law_plain: "show_num_law plain_show"
proof -
  have slash: "CHR ''/'' \<in> set (plain_show (Fin x))" for x by (cases "quotient_of x") (simp add: plain_show_def)
  have special: "CHR ''/'' \<notin> set (plain_show n)" if "\<not> is_finite n" for n
    using that by (cases n) (simp_all add: plain_show_def)
  have "inj plain_show"
  proof (rule injI)
    fix m n assume eq: "plain_show m = plain_show n"
    then show "m = n"
    proof (cases "is_finite m \<or> is_finite n")
      case True
      then obtain x y where "m = Fin x" "n = Fin y"
        using eq slash special by (metis is_finite.elims(2))
      then show ?thesis using eq plain_show_Fin_inj by auto
    next
      case False
      then show ?thesis using eq by (cases m; cases n) (auto simp: plain_show_def)
    qed
  qed
  moreover have "CHR '':'' \<notin> set (string_of_nat n)" for n
    using string_of_nat_digits [of "CHR '':''" n] digits_slash by blast
  then have "CHR '':'' \<notin> set (plain_show n)" for n
    by (cases n) (auto simp: plain_show_def split: prod.splits if_splits)
  ultimately show ?thesis by (simp add: show_num_law_def)
qed

theorem audit_log_rows_witness:
  "(let e = \<lparr>ae_id = None, ae_event_type = ''admin_access_denied'', ae_path = ''/admin'', ae_actor = None, ae_role = None,
       ae_result = Undef, ae_timestamp = ''2026-01-02T00:00:00Z'', ae_metadata = Null\<rparr>
    in distinct (map av_id (normalizeAdminAuditEvents plain_show (\<lambda>_. NaN) [e, e, e\<lparr>ae_id := Some (Fin 7)\<rparr>])))"
proof -
  let ?e = "\<lparr>ae_id = None, ae_event_type = ''admin_access_denied'', ae_path = ''/admin'', ae_actor = None, ae_role = None,
       ae_result = Undef, ae_timestamp = ''2026-01-02T00:00:00Z'', ae_metadata = Null\<rparr>"
  have "distinct (given_ids [?e, ?e, ?e\<lparr>ae_id := Some (Fin 7)\<rparr>])" by (simp add: given_ids_def)
  from audit_log_rows [OF show_num_law_plain this, of "\<lambda>_. NaN"] show ?thesis unfolding Let_def by blast
qed

section \<open>The request\<close>

record audit_query =
  aq_action :: "string option"
  aq_result :: "string option"
  aq_actor :: "string option"
  aq_path :: "string option"
  aq_limit :: "jsnum option"
  aq_offset :: "jsnum option"

definition audit_params :: "(jsnum \<Rightarrow> string) \<Rightarrow> audit_query \<Rightarrow> (string, string) dict" where
  "audit_params show_num q =
     (let choice = (\<lambda>k v ps. case v of Some s \<Rightarrow> if s \<noteq> [] \<and> s \<noteq> ''all'' then dict_set ps k s else ps | None \<Rightarrow> ps);
          txt = (\<lambda>k v ps. case v of Some s \<Rightarrow> if s \<noteq> [] \<and> trim s \<noteq> [] then dict_set ps k (trim s) else ps | None \<Rightarrow> ps);
          num = (\<lambda>k v ps. case v of Some n \<Rightarrow> dict_set ps k (show_num n) | None \<Rightarrow> ps)
      in num ''offset'' (aq_offset q) (num ''limit'' (aq_limit q)
           (txt ''path'' (aq_path q) (txt ''actor'' (aq_actor q)
             (choice ''result'' (aq_result q) (choice ''event_type'' (aq_action q) []))))))"

definition audit_url :: "(jsnum \<Rightarrow> string) \<Rightarrow> audit_query \<Rightarrow> string" where
  "audit_url show_num q =
     (let queryString = search_string (audit_params show_num q)
      in if queryString \<noteq> [] then ''/api/admin/logs?'' @ queryString else ''/api/admin/logs'')"

definition getAdminAuditLogs ::
  "api_env \<Rightarrow> (http_request \<Rightarrow> fetched) \<Rightarrow> (jsnum \<Rightarrow> string) \<Rightarrow> string \<Rightarrow> audit_query
     \<Rightarrow> http_request option \<times> (js_error + jsval)" where
  "getAdminAuditLogs env fetch show_num token q = getJson env fetch (audit_url show_num q) (bearer token)"

lemma audit_url_reads_back:
  "read_url (audit_url show_num q) = ([[], ''api'', ''admin'', ''logs''], audit_params show_num q)"
proof (cases "search_string (audit_params show_num q) = []")
  case True
  then have "audit_params show_num q = []" using parse_search_string [of "audit_params show_num q"]
    by (simp add: parse_search_def)
  then show ?thesis
    using True read_url_path(1) [of "[''api'', ''admin'', ''logs'']"] by (simp add: audit_url_def url_path_def plain_segment_def)
next
  case False
  then show ?thesis
    using read_url_path(2) [of "[''api'', ''admin'', ''logs'']" "audit_params show_num q"]
    by (simp add: audit_url_def url_path_def plain_segment_def Let_def)
qed

section \<open>The page\<close>

text \<open>The filters live in the address, a list of parameters of which \<open>get\<close> reads the first.\<close>

type_synonym search_params = "(string \<times> string) list"

definition sp_get :: "search_params \<Rightarrow> string \<Rightarrow> string option" where
  "sp_get ps k = map_of ps k"

definition sp_delete :: "string \<Rightarrow> search_params \<Rightarrow> search_params" where
  "sp_delete k ps = filter (\<lambda>p. fst p \<noteq> k) ps"

fun sp_set :: "string \<Rightarrow> string \<Rightarrow> search_params \<Rightarrow> search_params" where
  "sp_set k v [] = [(k, v)]"
| "sp_set k v (p # ps) = (if fst p = k then (k, v) # sp_delete k ps else p # sp_set k v ps)"

definition actionFilter :: "search_params \<Rightarrow> string" where
  "actionFilter ps = or_string (sp_get ps ''action'') ''all''"

definition resultFilter :: "search_params \<Rightarrow> string" where
  "resultFilter ps =
     (let raw = or_string (sp_get ps ''result'') ''all''
      in if raw \<in> set (''all'' # audit_results) then raw else ''all'')"

definition actorFilter :: "search_params \<Rightarrow> string" where
  "actorFilter ps = or_string (sp_get ps ''actor'') []"

definition pathFilter :: "search_params \<Rightarrow> string" where
  "pathFilter ps = or_string (sp_get ps ''path'') []"

definition updateFilterParam :: "string \<Rightarrow> string \<Rightarrow> search_params \<Rightarrow> search_params" where
  "updateFilterParam key v ps = (if v = [] \<or> v = ''all'' then sp_delete key ps else sp_set key v ps)"

definition text_matches :: "string \<Rightarrow> string \<Rightarrow> bool" where
  "text_matches pattern s \<longleftrightarrow> \<not> (trim pattern \<noteq> [] \<and> \<not> str_includes (to_lower s) (to_lower (trim pattern)))"

definition filteredEvents :: "search_params \<Rightarrow> audit_view list \<Rightarrow> audit_view list" where
  "filteredEvents ps events =
     filter (\<lambda>item.
       if actionFilter ps \<noteq> ''all'' \<and> av_action item \<noteq> actionFilter ps then False
       else if resultFilter ps \<noteq> ''all'' \<and> av_result item \<noteq> resultFilter ps then False
       else if \<not> text_matches (actorFilter ps) (av_actor item) then False
       else text_matches (pathFilter ps) (av_path item)) events"

definition selectedEvent :: "string option \<Rightarrow> audit_view list \<Rightarrow> audit_view option" where
  "selectedEvent selectedEventId shown =
     (case selectedEventId of None \<Rightarrow> None | Some i \<Rightarrow> find (\<lambda>item. av_id item = i) shown)"

definition toResultBadgeVariant :: "string \<Rightarrow> string" where
  "toResultBadgeVariant result =
     (if result = ''success'' then ''success''
      else if result = ''accepted'' then ''warning''
      else if result = ''denied'' \<or> result = ''error'' then ''danger''
      else ''neutral'')"

definition audit_request :: "search_params \<Rightarrow> audit_query" where
  "audit_request ps =
     \<lparr>aq_action = Some (actionFilter ps), aq_result = Some (resultFilter ps), aq_actor = Some (actorFilter ps),
      aq_path = Some (pathFilter ps), aq_limit = Some (Fin 200), aq_offset = Some (Fin 0)\<rparr>"

lemma sp_get_delete: "sp_get (sp_delete k ps) j = (if j = k then None else sp_get ps j)"
  by (induction ps) (auto simp: sp_get_def sp_delete_def)

lemma sp_get_set: "sp_get (sp_set k v ps) j = (if j = k then Some v else sp_get ps j)"
  by (induction ps) (use sp_get_delete in \<open>auto simp: sp_get_def\<close>)

text \<open>
  C34. The filters and the address: setting a filter is read back from the address as the value
  given, with an empty value read as the default, and leaves the other parameters alone; the
  request the page then makes carries exactly the filters that restrict something, trimmed, and the
  paging limits.
\<close>

theorem audit_filters_roundtrip:
  "sp_get (updateFilterParam key v ps) j
     = (if j = key then if v = [] \<or> v = ''all'' then None else Some v else sp_get ps j)
   \<and> read_url (audit_url show_num (audit_request ps))
     = ([[], ''api'', ''admin'', ''logs''],
        (if actionFilter ps \<in> {[], ''all''} then [] else [(''event_type'', actionFilter ps)])
        @ (if resultFilter ps = ''all'' then [] else [(''result'', resultFilter ps)])
        @ (if trim (actorFilter ps) = [] then [] else [(''actor'', trim (actorFilter ps))])
        @ (if trim (pathFilter ps) = [] then [] else [(''path'', trim (pathFilter ps))])
        @ [(''limit'', show_num (Fin 200)), (''offset'', show_num (Fin 0))])"
proof -
  have result: "resultFilter ps \<noteq> []" by (simp add: resultFilter_def audit_results_def Let_def) 
  have blank: "trim s \<noteq> [] \<Longrightarrow> s \<noteq> []" for s by auto
  show ?thesis
    unfolding audit_url_reads_back using result blank
    by (auto simp: updateFilterParam_def sp_get_delete sp_get_set audit_params_def audit_request_def Let_def)
qed

theorem audit_filters_roundtrip_witness:
  "actorFilter (updateFilterParam ''actor'' '' ops'' []) = '' ops''
    \<and> read_url (audit_url (\<lambda>_. ''0'') (audit_request (updateFilterParam ''actor'' '' ops'' [])))
      = ([[], ''api'', ''admin'', ''logs''], [(''actor'', ''ops''), (''limit'', ''0''), (''offset'', ''0'')])"
  using audit_filters_roundtrip [of "''actor''" "'' ops''" "[]" "''actor''" "\<lambda>_. ''0''"]
    audit_filters_roundtrip [of "''actor''" "'' ops''" "updateFilterParam ''actor'' '' ops'' []" "''action''" "\<lambda>_. ''0''"]
  by (simp add: updateFilterParam_def sp_get_def actorFilter_def actionFilter_def resultFilter_def pathFilter_def
      or_string_def trim_def is_ws_def)

end
