(* ===== verification/Sidebar.thy ===== *)
theory Sidebar
  imports Session ShellNavigation
begin

text \<open>
  What surrounds every page of the application shell: the sidebar's state
  (\<open>components/ui/sidebar.tsx\<close>, \<open>hooks/use-mobile.ts\<close>), its links and its user
  (\<open>components/app-sidebar.tsx\<close>, \<open>nav-main.tsx\<close>, \<open>nav-projects.tsx\<close>), and the trail of links in
  the header (\<open>app/layout/AppShell.tsx\<close>). Texts appear by their translation keys.
\<close>

section \<open>Open and collapsed\<close>

definition MOBILE_BREAKPOINT :: nat where "MOBILE_BREAKPOINT = 768"
definition SIDEBAR_COOKIE_NAME :: string where "SIDEBAR_COOKIE_NAME = ''sidebar_state''"
definition SIDEBAR_COOKIE_MAX_AGE :: nat where "SIDEBAR_COOKIE_MAX_AGE = 60 * 60 * 24 * 7"
definition SIDEBAR_KEYBOARD_SHORTCUT :: string where "SIDEBAR_KEYBOARD_SHORTCUT = ''b''"

text \<open>
  The state of the provider, which the shell leaves uncontrolled, and the cookie last written. It is
  mounted here together with the effect that looks at the width for the first time.
\<close>

record sidebar =
  isMobile :: bool
  openMobile :: bool
  sb_open :: bool
  sb_cookie :: "string option"

definition bool_text :: "bool \<Rightarrow> string" where
  "bool_text b = (if b then ''true'' else ''false'')"

definition cookie_text :: "bool \<Rightarrow> string" where
  "cookie_text b =
     SIDEBAR_COOKIE_NAME @ ''='' @ bool_text b @ ''; path=/; max-age='' @ string_of_nat SIDEBAR_COOKIE_MAX_AGE"

definition mount_sidebar :: "bool \<Rightarrow> nat \<Rightarrow> string option \<Rightarrow> sidebar" where
  "mount_sidebar defaultOpen innerWidth cookie =
     \<lparr>isMobile = (innerWidth < MOBILE_BREAKPOINT), openMobile = False, sb_open = defaultOpen, sb_cookie = cookie\<rparr>"

definition setOpen :: "(bool \<Rightarrow> bool) \<Rightarrow> sidebar \<Rightarrow> sidebar" where
  "setOpen f st = (let openState = f (sb_open st) in st\<lparr>sb_open := openState, sb_cookie := Some (cookie_text openState)\<rparr>)"

definition toggleSidebar :: "sidebar \<Rightarrow> sidebar" where
  "toggleSidebar st = (if isMobile st then st\<lparr>openMobile := \<not> openMobile st\<rparr> else setOpen Not st)"

definition handleKeyDown :: "string \<Rightarrow> bool \<Rightarrow> bool \<Rightarrow> sidebar \<Rightarrow> sidebar" where
  "handleKeyDown key meta ctrl st =
     (if key = SIDEBAR_KEYBOARD_SHORTCUT \<and> (meta \<or> ctrl) then toggleSidebar st else st)"

definition handleMobileNavClick :: "sidebar \<Rightarrow> sidebar" where
  "handleMobileNavClick st = (if isMobile st then st\<lparr>openMobile := False\<rparr> else st)"

definition width_changes :: "nat \<Rightarrow> sidebar \<Rightarrow> sidebar" where
  "width_changes innerWidth st = st\<lparr>isMobile := (innerWidth < MOBILE_BREAKPOINT)\<rparr>"

text \<open>A click on a link of the sidebar: the sheet closes only when the shell takes the click.\<close>

definition sidebar_click ::
  "nav_to \<Rightarrow> click \<Rightarrow> sidebar \<times> nav \<Rightarrow> sidebar \<times> nav" where
  "sidebar_click dest e st =
     (if shouldHandleClientNavigation e then (handleMobileNavClick (fst st), createLinkClickHandler dest e (snd st))
      else st)"

datatype sidebar_view = Sheet bool | Expanded | Collapsed

definition sidebar_view_of :: "sidebar \<Rightarrow> sidebar_view" where
  "sidebar_view_of st = (if isMobile st then Sheet (openMobile st) else if sb_open st then Expanded else Collapsed)"

text \<open>The titles appear beside the icons as tooltips exactly when there is no room for them.\<close>

definition tooltip_hidden :: "sidebar \<Rightarrow> bool" where
  "tooltip_hidden st \<longleftrightarrow> sb_open st \<or> isMobile st"

inductive sidebar_step :: "sidebar \<Rightarrow> sidebar \<Rightarrow> bool" where
  sb_toggle: "sidebar_step st (toggleSidebar st)"
| sb_key: "sidebar_step st (handleKeyDown key meta ctrl st)"
| sb_sheet: "isMobile st \<Longrightarrow> sidebar_step st (st\<lparr>openMobile := b\<rparr>)"
| sb_nav: "sidebar_step st (handleMobileNavClick st)"
| sb_width: "sidebar_step st (width_changes w st)"

inductive_cases sidebar_stepE: "sidebar_step st st'"

definition sidebar_mounted :: "sidebar \<Rightarrow> bool" where
  "sidebar_mounted st \<longleftrightarrow> (\<exists>w. st = mount_sidebar True w None)"

definition cookie_ok :: "sidebar \<Rightarrow> bool" where
  "cookie_ok st \<longleftrightarrow> sb_cookie st = Some (cookie_text (sb_open st)) \<or> sb_cookie st = None \<and> sb_open st"

lemmas sidebar_defs = toggleSidebar_def setOpen_def handleKeyDown_def handleMobileNavClick_def width_changes_def Let_def

lemma cookie_ok_step: "cookie_ok st \<Longrightarrow> sidebar_step st st' \<Longrightarrow> cookie_ok st'"
  by (erule sidebar_stepE) (auto simp: cookie_ok_def sidebar_defs)

interpretation side_inv: invariant_of sidebar_mounted sidebar_step cookie_ok
proof unfold_locales
  show "sidebar_mounted st \<Longrightarrow> cookie_ok st" for st
    by (auto simp: sidebar_mounted_def mount_sidebar_def cookie_ok_def)
qed (rule cookie_ok_step)

text \<open>
  The sheet of narrow windows and the docked sidebar of wide ones have separate states: opening the
  sheet or changing the width leaves the docked state alone and the reverse, a link taken by the
  shell closes the sheet, toggling twice is nothing, and the cookie is the docked state.
\<close>

theorem sidebar_states:
  assumes "reachable sidebar_mounted sidebar_step st"
  shows "cookie_ok st
    \<and> (isMobile st \<longrightarrow> sb_open (toggleSidebar st) = sb_open st \<and> sb_cookie (toggleSidebar st) = sb_cookie st)
    \<and> (\<not> isMobile st \<longrightarrow> openMobile (toggleSidebar st) = openMobile st)
    \<and> sidebar_view_of (toggleSidebar (toggleSidebar st)) = sidebar_view_of st
    \<and> sidebar_view_of (width_changes w' (width_changes w st)) = sidebar_view_of (width_changes w' st)
    \<and> (isMobile st \<longrightarrow> sidebar_view_of (handleMobileNavClick st) = Sheet False)
    \<and> (tooltip_hidden st \<longleftrightarrow> sidebar_view_of st \<noteq> Collapsed)"
  using side_inv.reachable_inv [OF assms]
  by (simp add: sidebar_defs sidebar_view_of_def tooltip_hidden_def)

text \<open>The cookie is written and never read: a page loaded again starts expanded whatever it says.\<close>

lemma cookie_forgotten:
  "sidebar_view_of (mount_sidebar True 1024 (sb_cookie (toggleSidebar (mount_sidebar True 1024 None)))) = Expanded"
  "sb_cookie (toggleSidebar (mount_sidebar True 1024 None)) = Some (cookie_text False)"
  by (simp_all add: mount_sidebar_def sidebar_defs sidebar_view_of_def MOBILE_BREAKPOINT_def)

section \<open>Links\<close>

record nav_item =
  ni_title :: string
  ni_url :: string
  ni_items :: "(string \<times> string) list"

definition navMain :: "user_role \<Rightarrow> nav_item list" where
  "navMain role =
     [\<lparr>ni_title = ''nav.realtime'', ni_url = ''/dashboard'',
       ni_items = [(''nav.overview'', ''/dashboard''), (''nav.marketThermometer'', ''/market-thermometer''),
                   (''nav.industryContributionHeatmap'', ''/industry-contribution-heatmap'')]\<rparr>,
      \<lparr>ni_title = ''nav.historical'', ni_url = ''/historical-data-analysis'',
       ni_items = [(''nav.dataAnalysis'', ''/historical-data-analysis'')]
         @ (if role = Admin then [(''nav.dataLoader'', ''/historical-data-loader'')] else [])
         @ [(''nav.amplitudeDistribution'', ''/historical-amplitude-distribution'')]\<rparr>,
      \<lparr>ni_title = ''nav.comingSoon'', ni_url = ''/options-positioning'',
       ni_items = [(''nav.optionsPositioning'', ''/options-positioning''),
                   (''nav.optionsAddClose'', ''/options-add-close'')]\<rparr>]"

definition navUtilities :: "user_role \<Rightarrow> (string \<times> string) list" where
  "navUtilities role = (if role = Admin then [(''nav.adminAudit'', ''/admin/audit'')] else [])"

definition has_token :: "session_state \<Rightarrow> bool" where
  "has_token st \<longleftrightarrow> s_token st \<noteq> None \<and> s_token st \<noteq> Some []"

definition utilities :: "session_state \<Rightarrow> (string \<times> string) list" where
  "utilities st = (if has_token st then navUtilities (s_role st) else [])"

text \<open>The menu of the user at the foot, \<open>nav-user-authenticated.tsx\<close> or \<open>nav-user-guest.tsx\<close>: where its entries lead.\<close>

definition user_menu :: "session_state \<Rightarrow> (string \<times> string) list" where
  "user_menu st =
     (if has_token st then [(''user.upgradeToPro'', ''/subscription'')]
      else [(''user.upgradeToPro'', ''/subscription''), (''nav.login'', ''/login'')])"

definition sidebar_links :: "session_state \<Rightarrow> string list" where
  "sidebar_links st = map snd (concat (map ni_items (navMain (s_role st))) @ utilities st @ user_menu st)"

definition readSidebarUser ::
  "(string \<Rightarrow> jsval option) \<Rightarrow> (string \<Rightarrow> string) \<Rightarrow> string option \<Rightarrow> string \<times> string" where
  "readSidebarUser json t token =
     (if token = None \<or> token = Some [] then (t ''user.visitor'', t ''user.visitorHint'')
      else case decodeAccessToken json (the token) of
          None \<Rightarrow> (t ''user.member'', t ''user.signedIn'')
        | Some payload \<Rightarrow>
            ((case js_get payload ''user_id'' of Str s \<Rightarrow> s | _ \<Rightarrow> t ''user.member''),
             (case js_get payload ''sub'' of Str s \<Rightarrow> s | _ \<Rightarrow> t ''user.signedIn'')))"

definition open_to :: "user_role \<Rightarrow> string \<Rightarrow> bool" where
  "open_to role url \<longleftrightarrow>
     r_page (match_route url) \<noteq> NotFoundPage \<and> url \<noteq> ''/login''
     \<and> (\<forall>g. r_guard (match_route url) = Some g \<longrightarrow>
            requiredRole g \<le> role \<and> allowAdminBypassEntitlement g)"

lemma open_to_member [simp]:
  "open_to Member ''/dashboard''" "open_to Member ''/market-thermometer''"
  "open_to Member ''/industry-contribution-heatmap''" "open_to Member ''/historical-data-analysis''"
  "open_to Member ''/historical-amplitude-distribution''" "open_to Member ''/options-positioning''"
  "open_to Member ''/options-add-close''" "open_to Member ''/subscription''"
  by (simp_all add: open_to_def open_route_def shell_route_def guarded_def less_eq_user_role_def)

lemma open_to_admin [simp]: "open_to Admin ''/historical-data-loader''" "open_to Admin ''/admin/audit''"
  by (simp_all add: open_to_def open_route_def shell_route_def guarded_def less_eq_user_role_def)

lemma links_classified:
  "list_all (\<lambda>url. open_to Member url \<or> open_to Admin url \<and> s_role st = Admin \<or> url = ''/login'' \<and> \<not> has_token st)
     (sidebar_links st)"
  by (simp add: sidebar_links_def navMain_def utilities_def navUtilities_def user_menu_def)

lemma guard_admits:
  assumes "s_resolved st" and "requiredRole g \<le> s_role st"
  shows "fst (GuardedRoute g url st refs) \<in> {Children, To_subscription}"
    and "allowAdminBypassEntitlement g \<Longrightarrow> s_entitlement st = Active \<or> s_role st = Admin \<Longrightarrow>
           fst (GuardedRoute g url st refs) = Children"
  using assms by (auto simp: GuardedRoute_def less_eq_user_role_def)

lemma shown_if_admitted:
  "(\<And>g. r_guard (match_route url) = Some g \<Longrightarrow> fst (GuardedRoute g url st refs) = Children) \<Longrightarrow>
     shown_page url st refs = Some (r_page (match_route url))"
  by (simp add: shown_page_def Let_def split: option.split)

text \<open>
  C39. No link of the sidebar, in any session that can arise, leads to a missing page; whoever is
  logged in is never sent to the login page by one, only, without an active entitlement, to the
  subscription; with an active entitlement, or as administrator, every link opens its page.
\<close>

theorem sidebar_links_open:
  assumes "reachable fresh_session (session_step json) st" and "s_resolved st" and "url \<in> set (sidebar_links st)"
  shows "r_page (match_route url) \<noteq> NotFoundPage
    \<and> (s_token st \<noteq> None \<longrightarrow>
         url \<noteq> ''/login'' \<and>
         (\<forall>g. r_guard (match_route url) = Some g \<longrightarrow> fst (GuardedRoute g url st refs) \<in> {Children, To_subscription}))
    \<and> (s_token st \<noteq> None \<and> (s_entitlement st = Active \<or> s_role st = Admin) \<longrightarrow>
         shown_page url st refs = Some (r_page (match_route url)))"
proof -
  have ok: "session_ok st" by (rule session.reachable_inv [OF assms(1)])
  then have tok: "has_token st \<longleftrightarrow> s_token st \<noteq> None" "s_token st \<noteq> None \<longrightarrow> Member \<le> s_role st"
    by (cases "s_role st"; auto simp: session_ok_def has_token_def less_eq_user_role_def)+
  from links_classified assms(3)
  have "open_to Member url \<or> open_to Admin url \<and> s_role st = Admin \<or> url = ''/login'' \<and> \<not> has_token st"
    unfolding list_all_iff by blast
  then consider (login) "url = ''/login''" "s_token st = None"
    | (page) role where "open_to role url" "s_token st \<noteq> None \<longrightarrow> role \<le> s_role st"
    using tok by (metis order_refl)
  then show ?thesis
  proof cases
    case login
    then show ?thesis by (simp add: open_route_def)
  next
    case page
    then have req: "requiredRole g \<le> s_role st \<and> allowAdminBypassEntitlement g"
      if "r_guard (match_route url) = Some g" "s_token st \<noteq> None" for g
      using that unfolding open_to_def by (meson order_trans)
    have "r_page (match_route url) \<noteq> NotFoundPage" "url \<noteq> ''/login''"
      using page(1) unfolding open_to_def by blast+
    then show ?thesis
      using req guard_admits [OF assms(2)] shown_if_admitted by metis
  qed
qed

theorem sidebar_links_open_witness:
  "shown_page ''/admin/audit'' demo_admin \<lparr>loginToastPath = None, subscriptionToastPath = None\<rparr> = Some AdminAuditPage"
proof -
  have "''/admin/audit'' \<in> set (sidebar_links demo_admin)"
    by (simp add: sidebar_links_def utilities_def navUtilities_def has_token_def demo_admin_def setSession_def)
  from sidebar_links_open [OF demo_admin_reachable _ this] show ?thesis
    by (simp add: shell_route_def)
qed

text \<open>The user shown at the foot of the sidebar, whatever the token holds.\<close>

lemma sidebar_user:
  "readSidebarUser json t None = (t ''user.visitor'', t ''user.visitorHint'')"
  "decodeAccessToken json tok = Some (Obj i [(''user_id'', Str name), (''sub'', Str email)]) \<Longrightarrow> tok \<noteq> [] \<Longrightarrow>
     readSidebarUser json t (Some tok) = (name, email)"
  "decodeAccessToken json tok = None \<Longrightarrow> tok \<noteq> [] \<Longrightarrow>
     readSidebarUser json t (Some tok) = (t ''user.member'', t ''user.signedIn'')"
  by (simp_all add: readSidebarUser_def)

section \<open>The trail in the header\<close>

definition BREADCRUMB_LABEL_KEYS :: "(string, string) dict" where
  "BREADCRUMB_LABEL_KEYS =
     [(''dashboard'', ''shell.breadcrumb.dashboard''),
      (''historical-data-analysis'', ''shell.breadcrumb.historicalDataAnalysis''),
      (''market-thermometer'', ''shell.breadcrumb.marketThermometer''),
      (''industry-contribution-heatmap'', ''shell.breadcrumb.industryContributionHeatmap''),
      (''historical-data-loader'', ''shell.breadcrumb.historicalDataLoader''),
      (''historical-amplitude-distribution'', ''shell.breadcrumb.amplitudeDistribution''),
      (''options-positioning'', ''shell.breadcrumb.optionsPositioning''),
      (''options-add-close'', ''shell.breadcrumb.optionsAddClose''),
      (''subscription'', ''shell.breadcrumb.subscription''),
      (''admin'', ''shell.breadcrumb.admin''),
      (''audit'', ''shell.breadcrumb.auditLog''),
      (''settings'', ''shell.breadcrumb.settings'')]"

record crumb =
  cr_href :: string
  cr_label :: string
  cr_isLast :: bool

definition path_segments :: "string \<Rightarrow> string list" where
  "path_segments pathname = filter (\<lambda>s. s \<noteq> []) (split_on CHR ''/'' pathname)"

definition breadcrumbs :: "(string \<Rightarrow> string) \<Rightarrow> string \<Rightarrow> crumb list" where
  "breadcrumbs t pathname =
     (let segments = path_segments pathname
      in map (\<lambda>i. \<lparr>cr_href = CHR ''/'' # join_with CHR ''/'' (take (i + 1) segments),
                   cr_label = (case dict_get BREADCRUMB_LABEL_KEYS (segments ! i) of
                                 Some key \<Rightarrow> t key | None \<Rightarrow> segments ! i),
                   cr_isLast = (i = length segments - 1)\<rparr>) [0..<length segments])"

text \<open>The addresses the trail offers as links: all but the last.\<close>

definition crumb_links :: "string \<Rightarrow> string list" where
  "crumb_links pathname = map cr_href (filter (\<lambda>c. \<not> cr_isLast c) (breadcrumbs id pathname))"

lemma split_join_segments:
  "ss \<noteq> [] \<Longrightarrow> \<forall>s \<in> set ss. c \<notin> set s \<Longrightarrow> split_on c (join_with c ss) = ss"
proof (induction ss)
  case (Cons s ss)
  then show ?case by (cases ss) (simp_all add: split_on_no_sep split_on_append join_with_Cons)
qed simp

lemma segments_of_path:
  assumes "ss \<noteq> []" and "\<forall>s \<in> set ss. s \<noteq> [] \<and> CHR ''/'' \<notin> set s"
  shows "path_segments (CHR ''/'' # join_with CHR ''/'' ss) = ss"
proof -
  have "filter (\<lambda>s. s \<noteq> []) ss = ss" using assms(2) by (simp add: filter_id_conv)
  then show ?thesis
    using assms split_join_segments [of ss "CHR ''/''"] by (simp add: path_segments_def)
qed

text \<open>
  The trail of an address has one entry per segment; entry \<open>i\<close> leads to the address of the first
  \<open>i + 1\<close> segments, whose own trail is the beginning of this one up to the mark of the last entry;
  the last entry, and only it, is the current address.
\<close>

theorem breadcrumb_trail:
  assumes "ss \<noteq> []" and "\<forall>s \<in> set ss. s \<noteq> [] \<and> CHR ''/'' \<notin> set s" and "i < length ss"
  shows "length (breadcrumbs t (CHR ''/'' # join_with CHR ''/'' ss)) = length ss
    \<and> cr_href (last (breadcrumbs t (CHR ''/'' # join_with CHR ''/'' ss))) = CHR ''/'' # join_with CHR ''/'' ss
    \<and> (cr_isLast (breadcrumbs t (CHR ''/'' # join_with CHR ''/'' ss) ! i) \<longleftrightarrow> i = length ss - 1)
    \<and> map cr_href (breadcrumbs t (cr_href (breadcrumbs t (CHR ''/'' # join_with CHR ''/'' ss) ! i)))
        = take (i + 1) (map cr_href (breadcrumbs t (CHR ''/'' # join_with CHR ''/'' ss)))
    \<and> map cr_label (breadcrumbs t (cr_href (breadcrumbs t (CHR ''/'' # join_with CHR ''/'' ss) ! i)))
        = take (i + 1) (map cr_label (breadcrumbs t (CHR ''/'' # join_with CHR ''/'' ss)))"
proof -
  note seg = segments_of_path [OF assms(1,2)]
  have "take (Suc i) ss \<noteq> []" "\<forall>s \<in> set (take (Suc i) ss). s \<noteq> [] \<and> CHR ''/'' \<notin> set s"
    using assms by (auto dest: in_set_takeD)
  note seg' = segments_of_path [OF this]
  have le: "length ss \<le> Suc i \<longleftrightarrow> length ss = Suc i" using assms(3) by auto
  show ?thesis
    using assms(1,3)
    by (auto simp: breadcrumbs_def seg seg' le Let_def last_map comp_def min_def take_map take_upt
        simp del: upt_Suc split: if_splits intro!: map_cong option.case_cong)
qed

theorem breadcrumb_trail_witness:
  "cr_href (last (breadcrumbs id ''/admin/audit'')) = ''/admin/audit''"
  using breadcrumb_trail [of "[''admin'', ''audit'']" 0 id] by simp

text \<open>
  Which pages of the shell have a trail with a link to nowhere: neither \<open>/admin\<close> nor \<open>/analytics\<close> is
  a page.
\<close>

lemma crumbs_to_nowhere:
  "map r_path (filter (\<lambda>r. r_shell r \<and> (\<exists>url \<in> set (crumb_links (r_path r)). r_page (match_route url) = NotFoundPage)) router)
     = [''/analytics/events'', ''/analytics/distributions'', ''/admin/audit'']"
  by code_simp

text \<open>And no link of the sidebar leads to the analytics pages.\<close>

lemma analytics_unlinked: "list_all (\<lambda>url. url \<noteq> ''/analytics/events'' \<and> url \<noteq> ''/analytics/distributions'') (sidebar_links st)"
  by (simp add: sidebar_links_def navMain_def utilities_def navUtilities_def user_menu_def)

end
