(* ===== verification/Preferences.thy ===== *)
theory Preferences
  imports UrlEncoding
begin

text \<open>
  Language and colour mode: \<open>lib/i18n/index.tsx\<close>, the effects and toggles of
  \<open>app/layout/AppShell.tsx\<close>, \<open>features/settings/components/SettingsModal.tsx\<close>, and the alert of
  \<open>components/ui/api-status-alert.tsx\<close>. The texts (\<open>lib/i18n/messages.ts\<close>) are an argument
  \<open>messages\<close>: which text a key has in a language, if any.
\<close>

section \<open>Placeholders in messages\<close>

text \<open>
  The replacement of \<open>/\{(\w+)\}/g\<close>. The variables are listed with their values as \<open>String\<close> shows
  them; a name that is no variable is looked up in the prototype of objects, the argument \<open>inherited\<close>.
\<close>

definition word_char :: "char \<Rightarrow> bool" where
  "word_char c \<longleftrightarrow> alphanumeric c \<or> c = CHR ''_''"

definition variable_text :: "(string \<Rightarrow> string option) \<Rightarrow> (string, string) dict \<Rightarrow> string \<Rightarrow> string" where
  "variable_text inherited variables token =
     (case dict_get variables token of
        Some v \<Rightarrow> v
      | None \<Rightarrow> (case inherited token of Some v \<Rightarrow> v | None \<Rightarrow> ''{'' @ token @ ''}''))"

function replace_tokens :: "(string \<Rightarrow> string) \<Rightarrow> string \<Rightarrow> string" where
  "replace_tokens f [] = []"
| "replace_tokens f (c # cs) =
     (let token = takeWhile word_char cs; rest = dropWhile word_char cs
      in if c = CHR ''{'' \<and> token \<noteq> [] \<and> rest \<noteq> [] \<and> hd rest = CHR ''}''
         then f token @ replace_tokens f (tl rest)
         else c # replace_tokens f cs)"
  by pat_completeness auto

termination
  by (relation "measure (\<lambda>(f, s). length s)")
    (auto simp: less_Suc_eq_le intro: le_trans [OF diff_le_self length_dropWhile_le])

definition formatMessage ::
  "(string \<Rightarrow> string option) \<Rightarrow> string \<Rightarrow> (string, string) dict option \<Rightarrow> string" where
  "formatMessage inherited template variables =
     (case variables of None \<Rightarrow> template
      | Some vs \<Rightarrow> replace_tokens (variable_text inherited vs) template)"

datatype LanguagePreset = En | Zh_TW

text \<open>\<open>t(key, variables)\<close>; a text that is missing in the language is taken in English.\<close>

definition translate ::
  "(LanguagePreset \<Rightarrow> string \<Rightarrow> string option) \<Rightarrow> (string \<Rightarrow> string option) \<Rightarrow> LanguagePreset
     \<Rightarrow> string \<Rightarrow> (string, string) dict option \<Rightarrow> string option" where
  "translate messages inherited lang key variables =
     map_option (\<lambda>template. formatMessage inherited template variables)
       (case messages lang key of Some template \<Rightarrow> Some template | None \<Rightarrow> messages En key)"

text \<open>A message as its author sees it: text without braces, and placeholders.\<close>

datatype piece = Plain string | Placeholder string

fun piece_ok :: "piece \<Rightarrow> bool" where
  "piece_ok (Plain s) \<longleftrightarrow> CHR ''{'' \<notin> set s"
| "piece_ok (Placeholder name) \<longleftrightarrow> name \<noteq> [] \<and> (\<forall>c \<in> set name. word_char c)"

fun written :: "piece \<Rightarrow> string" where
  "written (Plain s) = s"
| "written (Placeholder name) = ''{'' @ name @ ''}''"

fun meant :: "(string \<Rightarrow> string) \<Rightarrow> piece \<Rightarrow> string" where
  "meant f (Plain s) = s"
| "meant f (Placeholder name) = f name"

lemma replace_plain: "CHR ''{'' \<notin> set s \<Longrightarrow> replace_tokens f (s @ rest) = s @ replace_tokens f rest"
  by (induction s) (auto simp: Let_def)

lemma brace_no_word [simp]: "\<not> word_char (CHR ''}'')" "\<not> word_char (CHR ''{'')"
  by (simp_all add: word_char_def alphanumeric_def)

lemma replace_placeholder:
  assumes "name \<noteq> []" and "\<forall>c \<in> set name. word_char c"
  shows "replace_tokens f (''{'' @ name @ ''}'' @ rest) = f name @ replace_tokens f rest"
proof -
  have "takeWhile word_char (name @ ''}'' @ rest) = name" "dropWhile word_char (name @ ''}'' @ rest) = ''}'' @ rest"
    using assms(2) by (simp_all add: takeWhile_append2 dropWhile_append2)
  then show ?thesis using assms(1) by simp
qed

lemma replace_pieces:
  "\<forall>p \<in> set ps. piece_ok p \<Longrightarrow> replace_tokens f (concat (map written ps)) = concat (map (meant f) ps)"
proof (induction ps)
  case (Cons p ps)
  then show ?case
    by (cases p) (auto simp: replace_plain replace_placeholder [simplified])
qed simp

text \<open>Values are put in once, at their places and as they are, whatever braces they contain.\<close>

theorem message_text:
  assumes "\<forall>p \<in> set ps. piece_ok p"
  shows "formatMessage inherited (concat (map written ps)) (Some variables)
           = concat (map (meant (variable_text inherited variables)) ps)"
    and "formatMessage inherited template None = template"
  using assms by (simp_all add: formatMessage_def replace_pieces)

section \<open>The alert\<close>

text \<open>
  The characters of this library are those below 256: the full-width marks the code also accepts
  at the end of a sentence do not occur in its strings.
\<close>

function replaceAll :: "string \<Rightarrow> string \<Rightarrow> string \<Rightarrow> string" where
  "replaceAll pat r [] = []"
| "replaceAll pat r (c # cs) =
     (if pat \<noteq> [] \<and> starts_with pat (c # cs)
      then r @ replaceAll pat r (drop (length pat) (c # cs))
      else c # replaceAll pat r cs)"
  by pat_completeness auto

termination by (relation "measure (\<lambda>(pat, r, s). length s)") auto

definition hasTrailingPunctuation :: "string \<Rightarrow> bool" where
  "hasTrailingPunctuation s \<longleftrightarrow> (let t = trim s in t \<noteq> [] \<and> last t \<in> set ''.!?'')"

definition with_period :: "string \<Rightarrow> string" where
  "with_period content = (if \<not> hasTrailingPunctuation content then content @ ''.'' else content)"

definition ApiStatusAlert :: "string option \<Rightarrow> nat option \<Rightarrow> string option" where
  "ApiStatusAlert message status =
     (if (message = None \<or> message = Some []) \<and> status = None then None
      else Some (case message of
          None \<Rightarrow> (case status of None \<Rightarrow> ''Request failed.''
                   | Some n \<Rightarrow> ''Request failed (HTTP '' @ string_of_nat n @ '').'')
        | Some m \<Rightarrow> (let content = trim m in
            if content = [] then
              (case status of None \<Rightarrow> ''Request failed.''
               | Some n \<Rightarrow> ''Request failed (HTTP '' @ string_of_nat n @ '').'')
            else case status of
                Some n \<Rightarrow> with_period
                  (if str_includes content ''{status}'' then replaceAll ''{status}'' (string_of_nat n) content
                   else content @ '' (HTTP '' @ string_of_nat n @ '')'')
              | None \<Rightarrow> with_period content)))"

lemma is_ws_marks [simp]: "\<not> is_ws (CHR ''.'')"
  by (simp add: is_ws_def)

lemma trailing_period [simp]: "hasTrailingPunctuation (s @ ''.'')"
proof -
  have "\<not> is_ws (CHR 0x2E)" by (simp add: is_ws_def)
  then show ?thesis
    by (cases "dropWhile is_ws s") (auto simp: hasTrailingPunctuation_def trim_def Let_def dropWhile_append)
qed

lemma with_period_ends [simp]: "hasTrailingPunctuation (with_period s)"
  by (simp add: with_period_def)

lemma failed_ends:
  "hasTrailingPunctuation ''Request failed.''"
  "hasTrailingPunctuation (''Request failed (HTTP '' @ s @ '').'')"
  using trailing_period [of "''Request failed''"] trailing_period [of "''Request failed (HTTP '' @ s @ '')''"]
  by simp_all

text \<open>Whatever it is given, the alert is absent or a sentence: it ends in a punctuation mark.\<close>

theorem alert_is_sentence:
  "(ApiStatusAlert message status = None \<longleftrightarrow> (message = None \<or> message = Some []) \<and> status = None)
    \<and> (\<forall>text. ApiStatusAlert message status = Some text \<longrightarrow> hasTrailingPunctuation text)"
  by (auto simp: ApiStatusAlert_def Let_def failed_ends [simplified] split: option.splits)

text \<open>
  Both pages that pass a status have already put it into the message, so the alert finds no
  placeholder and adds the status a second time.
\<close>

lemma status_twice:
  "ApiStatusAlert (Some (formatMessage inherited ''Historical signal API failed (HTTP {status}).''
       (Some [(''status'', ''500'')]))) (Some 500)
     = Some ''Historical signal API failed (HTTP 500). (HTTP 500).''"
proof -
  have t: "formatMessage inherited ''Historical signal API failed (HTTP {status}).'' (Some [(''status'', ''500'')])
      = ''Historical signal API failed (HTTP 500).''"
    using message_text(1) [of "[Plain ''Historical signal API failed (HTTP '', Placeholder ''status'', Plain '').'']"
        inherited "[(''status'', ''500'')]"]
    by (simp add: variable_text_def word_char_def alphanumeric_def)
  have n: "string_of_nat 500 = ''500''" by code_simp
  show ?thesis
    unfolding t
    by (simp add: ApiStatusAlert_def n with_period_def hasTrailingPunctuation_def trim_def is_ws_def str_includes_def)
qed

section \<open>The preferences\<close>

definition LANGUAGE_STORAGE_KEY :: string where "LANGUAGE_STORAGE_KEY = ''ui.language.preset''"
definition COLOR_MODE_STORAGE_KEY :: string where "COLOR_MODE_STORAGE_KEY = ''ui.color.mode''"

fun language_text :: "LanguagePreset \<Rightarrow> string" where
  "language_text En = ''en''"
| "language_text Zh_TW = ''zh-TW''"

definition normalizeLanguage :: "string option \<Rightarrow> LanguagePreset" where
  "normalizeLanguage v = (if v = Some ''en'' then En else Zh_TW)"

datatype ColorMode = Light | Dark

fun color_text :: "ColorMode \<Rightarrow> string" where
  "color_text Light = ''light''"
| "color_text Dark = ''dark''"

definition normalizeColorMode :: "string option \<Rightarrow> ColorMode" where
  "normalizeColorMode v = (if v = Some ''light'' then Light else Dark)"

datatype SettingsSection =
  General | Notifications | Personalization | Apps | Schedule | Data | Security | Parental | Account

text \<open>
  What the language provider, the shell and the settings dialog of the user menu hold, beside the
  local storage and the root element: its attributes, and whether it has the class \<open>dark\<close>.
\<close>

record modal =
  settingsOpen :: bool
  initialSection :: SettingsSection
  activeSection :: SettingsSection
  languagePreset :: LanguagePreset

record prefs =
  storage :: "(string, string) dict"
  attributes :: "(string, string) dict"
  dark_class :: bool
  p_locale :: LanguagePreset
  p_colorMode :: ColorMode
  p_modal :: modal

definition readInitialLanguage :: "(string, string) dict \<Rightarrow> LanguagePreset" where
  "readInitialLanguage store = normalizeLanguage (dict_get store LANGUAGE_STORAGE_KEY)"

definition readInitialColorMode :: "(string, string) dict \<Rightarrow> ColorMode" where
  "readInitialColorMode store = normalizeColorMode (dict_get store COLOR_MODE_STORAGE_KEY)"

definition applyLanguagePresetToDocument :: "LanguagePreset \<Rightarrow> prefs \<Rightarrow> prefs" where
  "applyLanguagePresetToDocument l st =
     st\<lparr>attributes := dict_set (dict_set (attributes st) ''lang'' (language_text l)) ''data-language'' (language_text l)\<rparr>"

definition language_effect :: "prefs \<Rightarrow> prefs" where
  "language_effect st =
     (let st' = applyLanguagePresetToDocument (p_locale st) st
      in st'\<lparr>storage := dict_set (storage st') LANGUAGE_STORAGE_KEY (language_text (p_locale st))\<rparr>)"

definition applyColorModeToDocument :: "ColorMode \<Rightarrow> prefs \<Rightarrow> prefs" where
  "applyColorModeToDocument m st =
     st\<lparr>attributes := dict_set (attributes st) ''data-color-mode'' (color_text m), dark_class := (m = Dark)\<rparr>"

definition color_effect :: "prefs \<Rightarrow> prefs" where
  "color_effect st =
     (let st' = applyColorModeToDocument (p_colorMode st) st
      in st'\<lparr>storage := dict_set (storage st') COLOR_MODE_STORAGE_KEY (color_text (p_colorMode st))\<rparr>)"

text \<open>The two effects of the dialog, run when their dependencies have changed from \<open>old\<close>.\<close>

definition modal_effects :: "prefs \<Rightarrow> prefs \<Rightarrow> prefs" where
  "modal_effects old st =
     (let md = p_modal st;
          md1 = (if p_locale st \<noteq> p_locale old then md\<lparr>languagePreset := p_locale st\<rparr> else md);
          md2 = (if (initialSection md \<noteq> initialSection (p_modal old) \<or> settingsOpen md \<noteq> settingsOpen (p_modal old))
                    \<and> settingsOpen md
                 then md1\<lparr>activeSection := initialSection md\<rparr> else md1)
      in st\<lparr>p_modal := md2\<rparr>)"

definition prefs_effects :: "prefs \<Rightarrow> prefs \<Rightarrow> prefs" where
  "prefs_effects old st =
     (let st1 = modal_effects old st;
          st2 = (if p_colorMode st \<noteq> p_colorMode old then color_effect st1 else st1)
      in if p_locale st \<noteq> p_locale old then language_effect st2 else st2)"

text \<open>A dialog that has just been mounted, a page of the shell after loading, and the shell entered again.\<close>

definition mounted_modal :: "LanguagePreset \<Rightarrow> modal" where
  "mounted_modal l = \<lparr>settingsOpen = False, initialSection = General, activeSection = General, languagePreset = l\<rparr>"

definition load_page :: "(string, string) dict \<Rightarrow> prefs" where
  "load_page store =
     language_effect (color_effect
       \<lparr>storage = store, attributes = [], dark_class = False, p_locale = readInitialLanguage store,
        p_colorMode = readInitialColorMode store, p_modal = mounted_modal (readInitialLanguage store)\<rparr>)"

definition enter_shell :: "prefs \<Rightarrow> prefs" where
  "enter_shell st =
     color_effect (st\<lparr>p_colorMode := readInitialColorMode (storage st), p_modal := mounted_modal (p_locale st)\<rparr>)"

definition toggleColorMode :: "prefs \<Rightarrow> prefs" where
  "toggleColorMode st = st\<lparr>p_colorMode := (if p_colorMode st = Dark then Light else Dark)\<rparr>"

definition toggleLanguage :: "prefs \<Rightarrow> prefs" where
  "toggleLanguage st = st\<lparr>p_locale := (if p_locale st = En then Zh_TW else En)\<rparr>"

definition openSettings :: "SettingsSection \<Rightarrow> prefs \<Rightarrow> prefs" where
  "openSettings s st = st\<lparr>p_modal := (p_modal st)\<lparr>initialSection := s, settingsOpen := True\<rparr>\<rparr>"

definition onOpenChange :: "bool \<Rightarrow> prefs \<Rightarrow> prefs" where
  "onOpenChange b st = st\<lparr>p_modal := (p_modal st)\<lparr>settingsOpen := b\<rparr>\<rparr>"

definition updateLanguagePreset :: "LanguagePreset \<Rightarrow> prefs \<Rightarrow> prefs" where
  "updateLanguagePreset l st = st\<lparr>p_modal := (p_modal st)\<lparr>languagePreset := l\<rparr>, p_locale := l\<rparr>"

definition setActiveSection :: "SettingsSection \<Rightarrow> prefs \<Rightarrow> prefs" where
  "setActiveSection s st = st\<lparr>p_modal := (p_modal st)\<lparr>activeSection := s\<rparr>\<rparr>"

text \<open>
  A user of the shell: the two header buttons, the menu, the dialog, another user menu mounted by a
  login or logout, the shell left and entered again, a page of the shell loaded again. Another tab
  writing the same storage is not modelled, nor are pages outside the shell, which apply no colour
  mode.
\<close>

inductive prefs_step :: "prefs \<Rightarrow> prefs \<Rightarrow> bool" where
  pr_color: "prefs_step st (prefs_effects st (toggleColorMode st))"
| pr_language: "prefs_step st (prefs_effects st (toggleLanguage st))"
| pr_open: "\<not> settingsOpen (p_modal st) \<Longrightarrow> prefs_step st (prefs_effects st (openSettings s st))"
| pr_change: "prefs_step st (prefs_effects st (onOpenChange b st))"
| pr_choose: "settingsOpen (p_modal st) \<Longrightarrow> prefs_step st (prefs_effects st (updateLanguagePreset l st))"
| pr_section: "settingsOpen (p_modal st) \<Longrightarrow> prefs_step st (prefs_effects st (setActiveSection s st))"
| pr_menu: "prefs_step st (st\<lparr>p_modal := mounted_modal (p_locale st)\<rparr>)"
| pr_shell: "prefs_step st (enter_shell st)"
| pr_reload: "prefs_step st (load_page (storage st))"

inductive_cases prefs_stepE: "prefs_step st st'"

definition page_loaded :: "prefs \<Rightarrow> bool" where
  "page_loaded st \<longleftrightarrow> (\<exists>store. st = load_page store)"

definition prefs_ok :: "prefs \<Rightarrow> bool" where
  "prefs_ok st \<longleftrightarrow>
     dict_get (storage st) LANGUAGE_STORAGE_KEY = Some (language_text (p_locale st))
   \<and> dict_get (storage st) COLOR_MODE_STORAGE_KEY = Some (color_text (p_colorMode st))
   \<and> dict_get (attributes st) ''lang'' = Some (language_text (p_locale st))
   \<and> dict_get (attributes st) ''data-language'' = Some (language_text (p_locale st))
   \<and> dict_get (attributes st) ''data-color-mode'' = Some (color_text (p_colorMode st))
   \<and> (dark_class st \<longleftrightarrow> p_colorMode st = Dark)
   \<and> languagePreset (p_modal st) = p_locale st"

lemma normalize_text [simp]:
  "normalizeLanguage (Some (language_text l)) = l" "normalizeColorMode (Some (color_text m)) = m"
  by (cases l; simp add: normalizeLanguage_def) (cases m; simp add: normalizeColorMode_def)

lemma keys_differ [simp]: "LANGUAGE_STORAGE_KEY \<noteq> COLOR_MODE_STORAGE_KEY" "COLOR_MODE_STORAGE_KEY \<noteq> LANGUAGE_STORAGE_KEY"
  by (simp_all add: LANGUAGE_STORAGE_KEY_def COLOR_MODE_STORAGE_KEY_def)

lemmas effect_defs = language_effect_def color_effect_def applyLanguagePresetToDocument_def
  applyColorModeToDocument_def prefs_effects_def modal_effects_def

lemma load_page_ok: "prefs_ok (load_page store)"
  by (simp add: prefs_ok_def load_page_def effect_defs mounted_modal_def Let_def)

lemma effects_ok:
  assumes "prefs_ok old" and "storage st = storage old" and "attributes st = attributes old"
    and "dark_class st = dark_class old"
    and "languagePreset (p_modal st) = languagePreset (p_modal old) \<or> languagePreset (p_modal st) = p_locale st"
  shows "prefs_ok (prefs_effects old st)"
  using assms by (auto simp: prefs_ok_def effect_defs Let_def)

lemma prefs_step_ok: "prefs_ok st \<Longrightarrow> prefs_step st st' \<Longrightarrow> prefs_ok st'"
proof (erule prefs_stepE; (erule ssubst)?)
qed (simp_all add: effects_ok load_page_ok toggleColorMode_def toggleLanguage_def openSettings_def onOpenChange_def
    updateLanguagePreset_def setActiveSection_def, simp_all add: prefs_ok_def enter_shell_def effect_defs
    mounted_modal_def readInitialColorMode_def Let_def)

interpretation prefs: invariant_of page_loaded prefs_step prefs_ok
  by unfold_locales (auto simp: page_loaded_def load_page_ok intro: prefs_step_ok)

text \<open>
  C38. Whatever the user does, storage, page and dialog agree with the language and the colour mode
  in force, so that a reload of the page, or leaving the shell and coming back, keeps both; a dialog
  that is opened shows the section it was opened for, and a language chosen in it is in force.
\<close>

theorem preferences_kept:
  assumes "reachable page_loaded prefs_step st"
  shows "prefs_ok st
    \<and> p_locale (load_page (storage st)) = p_locale st
    \<and> p_colorMode (load_page (storage st)) = p_colorMode st
    \<and> p_colorMode (enter_shell st) = p_colorMode st
    \<and> (\<not> settingsOpen (p_modal st) \<longrightarrow> activeSection (p_modal (prefs_effects st (openSettings s st))) = s)
    \<and> p_locale (prefs_effects st (updateLanguagePreset l st)) = l"
proof -
  have ok: "prefs_ok st" by (rule prefs.reachable_inv [OF assms])
  then have "p_locale (load_page (storage st)) = p_locale st" "p_colorMode (load_page (storage st)) = p_colorMode st"
    "p_colorMode (enter_shell st) = p_colorMode st"
    by (simp_all add: prefs_ok_def load_page_def enter_shell_def effect_defs readInitialLanguage_def
        readInitialColorMode_def Let_def)
  moreover have "\<not> settingsOpen (p_modal st) \<longrightarrow> activeSection (p_modal (prefs_effects st (openSettings s st))) = s"
    by (simp add: openSettings_def effect_defs Let_def)
  moreover have "p_locale (prefs_effects st (updateLanguagePreset l st)) = l"
    by (simp add: updateLanguagePreset_def effect_defs Let_def)
  ultimately show ?thesis using ok by blast
qed

theorem preferences_kept_witness:
  "p_locale (load_page (storage (prefs_effects (load_page []) (toggleLanguage (load_page []))))) = En"
proof -
  have "reachable page_loaded prefs_step (prefs_effects (load_page []) (toggleLanguage (load_page [])))"
    by (blast intro: reachable_step reachable_init pr_language page_loaded_def [THEN iffD2])
  from preferences_kept [OF this] show ?thesis
    by (simp add: load_page_def toggleLanguage_def effect_defs readInitialLanguage_def normalizeLanguage_def Let_def)
qed

end
