(* ===== verification/AnalyticsViews.thy ===== *)
theory AnalyticsViews
  imports AnalyticsPages Preferences
begin

text \<open>
  What the analytics pages show: errors, redirects, summaries and histograms of
  \<open>features/analytics/pages/EventAnalyticsPage.tsx\<close> and \<open>DistributionAnalyticsPage.tsx\<close>, with the
  components \<open>AnalyticsErrorState.tsx\<close> and \<open>AnalyticsFilterBar.tsx\<close>, and the selection of the
  distribution page. The query cache is React Query's: data and error of each query are arguments.
\<close>

section \<open>Errors\<close>

definition shown_status :: "js_error option list \<Rightarrow> int option" where
  "shown_status errs = (case find (\<lambda>e. e \<noteq> None) errs of Some (Some (ApiError _ s)) \<Rightarrow> Some s | _ \<Rightarrow> None)"

definition error_state_message :: "int option \<Rightarrow> string" where
  "error_state_message status =
     (if status = Some 400 then ''Invalid analytics filter parameters.''
      else if status = Some 404 then ''Unknown event/metric ID or no analytics data published.''
      else if status = Some 500 then ''Server error while loading analytics data.''
      else ''Unable to load analytics data.'')"

text \<open>The text of the error box, and whether it offers a retry.\<close>

definition AnalyticsErrorState :: "int option \<Rightarrow> bool \<Rightarrow> string option \<times> bool" where
  "AnalyticsErrorState status retry = (ApiStatusAlert (Some (error_state_message status)) None, retry)"

datatype analytics_shown = Navigate_to string | Boxes "(string option \<times> bool) list"

definition error_boxes :: "int option \<Rightarrow> bool \<Rightarrow> (string option \<times> bool) list" where
  "error_boxes status invalidRange =
     (case status of
        Some s \<Rightarrow> if s \<noteq> 0 \<and> s \<ge> 400 \<and> s \<noteq> 401 \<and> s \<noteq> 403 then [AnalyticsErrorState status True] else []
      | None \<Rightarrow> [])
     @ (if invalidRange then [AnalyticsErrorState (Some 400) False] else [])"

definition analytics_view :: "int option \<Rightarrow> bool \<Rightarrow> analytics_shown" where
  "analytics_view status invalidRange =
     (if status = Some 401 then Navigate_to ''/login''
      else if status = Some 403 then Navigate_to ''/forbidden''
      else Boxes (error_boxes status invalidRange))"

definition event_view ::
  "js_error option \<Rightarrow> js_error option \<Rightarrow> js_error option \<Rightarrow> event_page \<Rightarrow> analytics_shown" where
  "event_view statsErr samplesErr registryErr st =
     analytics_view (shown_status [statsErr, samplesErr, registryErr]) (hasInvalidDateRange st)"

section \<open>The distribution page\<close>

record dist_page =
  ds_code :: string
  ds_startDate :: string
  ds_endDate :: string
  ds_metricId :: string

definition initial_dist_page :: dist_page where
  "initial_dist_page =
     \<lparr>ds_code = ''TXF'', ds_startDate = ''2026-01-01'', ds_endDate = ''2026-01-31'', ds_metricId = []\<rparr>"

definition dist_invalid :: "dist_page \<Rightarrow> bool" where
  "dist_invalid st \<longleftrightarrow> str_less (ds_endDate st) (ds_startDate st)"

definition dist_enabled :: "dist_page \<Rightarrow> bool" where
  "dist_enabled st \<longleftrightarrow> ds_metricId st \<noteq> [] \<and> \<not> dist_invalid st"

definition dist_params :: "dist_page \<Rightarrow> distribution_params" where
  "dist_params st =
     \<lparr>dp_metricId = ds_metricId st, dp_code = ds_code st, dp_startDate = Some (ds_startDate st),
      dp_endDate = Some (ds_endDate st), dp_version = Some ''latest''\<rparr>"

text \<open>The registry's items, by identifier and formula.\<close>

type_synonym registry = "(string \<times> string option) list"

definition select_first_metric :: "registry \<Rightarrow> dist_page \<Rightarrow> dist_page" where
  "select_first_metric metrics st =
     (if ds_metricId st = [] \<and> metrics \<noteq> [] then st\<lparr>ds_metricId := fst (hd metrics)\<rparr> else st)"

definition selectedMetric :: "registry \<Rightarrow> dist_page \<Rightarrow> (string \<times> string option) option" where
  "selectedMetric metrics st = find (\<lambda>item. fst item = ds_metricId st) metrics"

definition dist_view :: "js_error option \<Rightarrow> js_error option \<Rightarrow> dist_page \<Rightarrow> analytics_shown" where
  "dist_view distErr metricsErr st = analytics_view (shown_status [distErr, metricsErr]) (dist_invalid st)"

text \<open>
  What the page asks for by itself with its current key, and on a retry: React Query's \<open>refetch\<close>
  runs the request function also where the query is disabled.
\<close>

definition dist_automatic ::
  "analytics_env \<Rightarrow> string option \<Rightarrow> dist_page \<Rightarrow> (http_request option \<times> (js_error + jsval)) list" where
  "dist_automatic env token st = (if dist_enabled st then [getDistributionStats env token (dist_params st)] else [])"

definition dist_retry ::
  "analytics_env \<Rightarrow> string option \<Rightarrow> dist_page \<Rightarrow> (http_request option \<times> (js_error + jsval)) list" where
  "dist_retry env token st = [getDistributionStats env token (dist_params st)]"

definition stats_params :: "event_page \<Rightarrow> event_stats_params" where
  "stats_params st =
     \<lparr>es_eventId = pf_eventId (ev_filter st), es_code = pf_code (ev_filter st),
      es_startDate = Some (pf_startDate (ev_filter st)), es_endDate = Some (pf_endDate (ev_filter st)),
      es_version = Some ''latest'', es_flatThreshold = pf_flatThreshold (ev_filter st)\<rparr>"

definition event_automatic ::
  "analytics_env \<Rightarrow> string option \<Rightarrow> event_page \<Rightarrow> (http_request option \<times> (js_error + jsval)) list" where
  "event_automatic env token st =
     (if queries_enabled st
      then [getEventStats env token (stats_params st), getEventSamples env token (snd (samples_key st))] else [])"

definition event_retry ::
  "analytics_env \<Rightarrow> string option \<Rightarrow> event_page \<Rightarrow> (http_request option \<times> (js_error + jsval)) list" where
  "event_retry env token st =
     [getEventStats env token (stats_params st), getEventSamples env token (snd (samples_key st))]"

section \<open>Selections\<close>

definition code_options :: "string list" where "code_options = [''TXF'', ''MTX'']"

definition option_label :: "string \<Rightarrow> string option \<Rightarrow> string" where
  "option_label i label = (case label of Some l \<Rightarrow> l | None \<Rightarrow> i)"

text \<open>A user who picks what the filter bar offers, and the effect that picks the first metric.\<close>

inductive dist_step :: "registry \<Rightarrow> dist_page \<Rightarrow> dist_page \<Rightarrow> bool" for metrics where
  ds_pick_code: "c \<in> set code_options \<Longrightarrow> dist_step metrics st (st\<lparr>ds_code := c\<rparr>)"
| ds_pick_start: "dist_step metrics st (st\<lparr>ds_startDate := d\<rparr>)"
| ds_pick_end: "dist_step metrics st (st\<lparr>ds_endDate := d\<rparr>)"
| ds_pick_metric: "m \<in> fst ` set metrics \<Longrightarrow> dist_step metrics st (st\<lparr>ds_metricId := m\<rparr>)"
| ds_effect: "dist_step metrics st (select_first_metric metrics st)"

definition dist_ok :: "registry \<Rightarrow> dist_page \<Rightarrow> bool" where
  "dist_ok metrics st \<longleftrightarrow>
     ds_code st \<in> set code_options \<and> (ds_metricId st \<noteq> [] \<longrightarrow> ds_metricId st \<in> fst ` set metrics)"

lemma dist_ok_step: "dist_ok metrics st \<Longrightarrow> dist_step metrics st st' \<Longrightarrow> dist_ok metrics st'"
  by (erule dist_step.cases) (auto simp: dist_ok_def select_first_metric_def)

interpretation dist: invariant_of "\<lambda>st. st = initial_dist_page" "dist_step metrics" "dist_ok metrics" for metrics
proof unfold_locales
  show "st = initial_dist_page \<Longrightarrow> dist_ok metrics st" for st
    by (simp add: dist_ok_def initial_dist_page_def code_options_def)
qed (rule dist_ok_step)

section \<open>Figures and histograms\<close>

text \<open>\<open>data?.key ?? 0\<close>, and the rows of a histogram: one per bin, its count or zero.\<close>

definition shown_figure :: "jsval option \<Rightarrow> string \<Rightarrow> jsval" where
  "shown_figure d key = js_coalesce (case d of None \<Rightarrow> Undef | Some v \<Rightarrow> js_get v key) (Num (Fin 0))"

definition histogram_lines :: "jsval list \<Rightarrow> jsval list \<Rightarrow> (jsval \<times> jsval) list" where
  "histogram_lines bins counts =
     map (\<lambda>(index, bin). (bin, js_coalesce (at_or counts index Undef) (Num (Fin 0)))) (enumerate 0 bins)"

definition dist_summary :: "jsval option \<Rightarrow> (string \<times> jsval list) list" where
  "dist_summary d =
     [(''analytics.distribution.sampleCount'', [shown_figure d ''sample_count'']),
      (''analytics.distribution.mean'', [shown_figure d ''mean'']),
      (''analytics.distribution.median'', [shown_figure d ''median'']),
      (''analytics.distribution.percentiles'', [shown_figure d ''p75'', shown_figure d ''p90'', shown_figure d ''p95'']),
      (''analytics.distribution.minMax'', [shown_figure d ''min'', shown_figure d ''max''])]"

fun array_items :: "jsval \<Rightarrow> jsval list" where
  "array_items (Arr _ xs) = xs"
| "array_items _ = []"

text \<open>The histogram panel: nothing where there is no histogram or it has no counts.\<close>

definition dist_histogram :: "jsval option \<Rightarrow> (jsval \<times> jsval) list option" where
  "dist_histogram d =
     (let histogram = (case d of None \<Rightarrow> Undef | Some v \<Rightarrow> js_get v ''histogram_json'')
      in if \<not> truthy histogram \<or> array_items (js_get histogram ''counts'') = [] then None
         else Some (histogram_lines (array_items (js_get histogram ''bins'')) (array_items (js_get histogram ''counts''))))"

text \<open>The definition box: the identifier, or a dash, and the formula where there is one.\<close>

definition metric_definition :: "registry \<Rightarrow> dist_page \<Rightarrow> string \<times> string option" where
  "metric_definition metrics st =
     (let i = (case selectedMetric metrics st of Some item \<Rightarrow> fst item | None \<Rightarrow> ds_metricId st)
      in (if i = [] then ''-'' else i, Option.bind (selectedMetric metrics st) snd))"

definition event_stats :: "jsval option \<Rightarrow> jsval option" where
  "event_stats d =
     (case d of None \<Rightarrow> None
      | Some v \<Rightarrow> (case array_items (js_get v ''items'') of [] \<Rightarrow> None | s # _ \<Rightarrow> if nullish s then None else Some s))"

definition pieData :: "jsval option \<Rightarrow> (string \<times> jsval) list" where
  "pieData stats =
     [(''analytics.event.up'', shown_figure stats ''up_probability''),
      (''analytics.event.down'', shown_figure stats ''down_probability''),
      (''analytics.event.flat'', shown_figure stats ''flat_probability'')]"

definition event_histogram :: "jsval option \<Rightarrow> (jsval \<times> jsval) list" where
  "event_histogram stats =
     (let h = (case stats of None \<Rightarrow> Undef | Some s \<Rightarrow> js_get s ''histogram'')
      in histogram_lines (array_items (js_get h ''bins'')) (array_items (js_get h ''counts'')))"

definition event_summary :: "jsval option \<Rightarrow> (string \<times> jsval) list" where
  "event_summary stats =
     pieData stats @
     [(''analytics.event.avgNextDayReturn'', shown_figure stats ''avg_next_day_return''),
      (''analytics.event.avgNextDayRange'', shown_figure stats ''avg_next_day_range'')]"

section \<open>What is shown\<close>

lemma histogram_lines_exact:
  assumes "length bins \<le> length counts" and "\<forall>c \<in> set counts. \<not> nullish c"
  shows "histogram_lines bins counts = zip bins counts"
  using assms by (intro nth_equalityI) (auto simp: histogram_lines_def at_or_def js_coalesce_def nth_enumerate_eq)

text \<open>
  The backend sends the edges of the bins, one more than counts: the list gets a line too many, the
  last edge with no days.
\<close>

lemma histogram_lines_edges:
  assumes "length counts = length edges" and "\<forall>c \<in> set counts. \<not> nullish c"
  shows "histogram_lines (edges @ [last_edge]) counts = zip edges counts @ [(last_edge, Num (Fin 0))]"
  using assms
  by (intro nth_equalityI)
    (auto simp: histogram_lines_def at_or_def js_coalesce_def nth_enumerate_eq nth_append nullish_def less_Suc_eq_le)

lemma error_box_sentence [simp]: "fst (AnalyticsErrorState status r) \<noteq> None"
  by (simp add: AnalyticsErrorState_def ApiStatusAlert_def error_state_message_def)

lemma first_error_status:
  "shown_status errs = Some s \<Longrightarrow> \<exists>code. Some (ApiError code s) \<in> set errs"
  by (induction errs) (auto simp: shown_status_def split: if_splits option.splits js_error.splits)

text \<open>
  The boxes of a page: one for an error answer, with its text and a retry, and one for a date range
  that is not in order.
\<close>

definition page_boxes :: "int option \<Rightarrow> bool \<Rightarrow> (string option \<times> bool) list" where
  "page_boxes status invalid =
     (case status of
        Some s \<Rightarrow> if 400 \<le> s then [(ApiStatusAlert (Some (error_state_message (Some s))) None, True)] else []
      | None \<Rightarrow> [])
     @ (if invalid then [(ApiStatusAlert (Some ''Invalid analytics filter parameters.'') None, False)] else [])"

text \<open>
  C40. Both analytics pages, whatever their queries ended in: a refused session leads to the login
  page and a forbidden one to the page that says so; any other error answer shows its one box with a
  retry, a date range out of order one without, and without either no box is shown. The pages ask for
  statistics and samples by themselves only with an identifier and, for well-formed dates, a range in
  order (the registries are asked for without).
\<close>

theorem analytics_pages_react:
  assumes "find (\<lambda>e. e \<noteq> None) [distErr, metricsErr] = Some (Some (ApiError code s))"
    and "find (\<lambda>e. e \<noteq> None) [statsErr, samplesErr, registryErr] = Some (Some (ApiError code s))"
  shows "dist_view distErr metricsErr st =
      (if s = 401 then Navigate_to ''/login'' else if s = 403 then Navigate_to ''/forbidden''
       else Boxes (page_boxes (Some s) (dist_invalid st)))
    \<and> event_view statsErr samplesErr registryErr ev =
      (if s = 401 then Navigate_to ''/login'' else if s = 403 then Navigate_to ''/forbidden''
       else Boxes (page_boxes (Some s) (hasInvalidDateRange ev)))
    \<and> dist_view None None st = Boxes (page_boxes None (dist_invalid st))
    \<and> event_view None None None ev = Boxes (page_boxes None (hasInvalidDateRange ev))
    \<and> (dist_automatic env token st \<noteq> [] \<longrightarrow>
         dp_metricId (dist_params st) \<noteq> []
         \<and> (iso_shape (ds_startDate st) \<and> iso_shape (ds_endDate st) \<longrightarrow>
              iso_date (ds_startDate st) \<le> iso_date (ds_endDate st)))
    \<and> (event_automatic env token ev \<noteq> [] \<longrightarrow>
         es_eventId (stats_params ev) \<noteq> []
         \<and> (iso_shape (pf_startDate (ev_filter ev)) \<and> iso_shape (pf_endDate (ev_filter ev)) \<longrightarrow>
              iso_date (pf_startDate (ev_filter ev)) \<le> iso_date (pf_endDate (ev_filter ev))))"
proof -
  have status: "shown_status [distErr, metricsErr] = Some s" "shown_status [statsErr, samplesErr, registryErr] = Some s"
    "shown_status [None, None] = None" "shown_status [None, None, None] = None"
    unfolding shown_status_def assms by simp_all
  have boxes: "analytics_view (Some s) inv = (if s = 401 then Navigate_to ''/login'' else if s = 403 then Navigate_to ''/forbidden''
       else Boxes (page_boxes (Some s) inv))" "analytics_view None inv = Boxes (page_boxes None inv)" for inv
    by (simp_all add: analytics_view_def error_boxes_def page_boxes_def AnalyticsErrorState_def error_state_message_def)
  show ?thesis
    unfolding dist_view_def event_view_def status boxes
    by (auto simp: dist_automatic_def event_automatic_def
        dist_enabled_def dist_invalid_def queries_enabled_def hasInvalidDateRange_def dist_params_def stats_params_def
        iso_date_order not_less)
qed

theorem analytics_pages_react_witness:
  "dist_view (Some (ApiError ''unauthorized'' 401)) None initial_dist_page = Navigate_to ''/login''
   \<and> (\<exists>box. event_view None (Some (ApiError ''not_found'' 404)) None initial_event_page = Boxes [(box, True)])"
proof -
  have "\<not> hasInvalidDateRange initial_event_page" by code_simp
  then show ?thesis
    using analytics_pages_react [of "Some (ApiError ''unauthorized'' 401)" None "''unauthorized''" 401
        "Some (ApiError ''unauthorized'' 401)" None None initial_dist_page initial_event_page]
      analytics_pages_react [of "Some (ApiError ''not_found'' 404)" None "''not_found''" 404
        None "Some (ApiError ''not_found'' 404)" None initial_dist_page initial_event_page]
    by (simp add: page_boxes_def)
qed

text \<open>The client's own refusal of insecure transport has the status 0: the pages show nothing.\<close>

lemma insecure_transport_silent:
  "dist_view (Some (ApiError ''insecure_transport'' 0)) (Some (ApiError ''insecure_transport'' 0)) initial_dist_page = Boxes []"
  by (simp add: dist_view_def analytics_view_def shown_status_def error_boxes_def dist_invalid_def initial_dist_page_def)

text \<open>
  After a failed registry no metric is chosen, and the retry that is offered asks for the statistics
  of the metric without a name; the registry is not asked again.
\<close>

lemma retry_without_metric:
  "dist_view None (Some (ApiError ''x'' 500)) initial_dist_page = Boxes [AnalyticsErrorState (Some 500) True]"
  "dist_retry env token initial_dist_page = [getDistributionStats env token (dist_params initial_dist_page)]"
  "dp_metricId (dist_params initial_dist_page) = []"
  by (simp_all add: dist_view_def analytics_view_def shown_status_def error_boxes_def dist_invalid_def
      initial_dist_page_def dist_retry_def dist_params_def)

text \<open>Once the registry has come and the effect has run, the box shows a metric of the registry.\<close>

lemma metric_selected:
  assumes "reachable (\<lambda>st. st = initial_dist_page) (dist_step metrics) st"
    and "metrics \<noteq> []" and "\<forall>m \<in> set metrics. fst m \<noteq> []"
  shows "\<exists>m \<in> set metrics. selectedMetric metrics (select_first_metric metrics st) = Some m
           \<and> metric_definition metrics (select_first_metric metrics st) = (fst m, snd m)"
proof -
  let ?st = "select_first_metric metrics st"
  have "dist_ok metrics ?st" using dist.reachable_inv [OF assms(1)] dist_ok_step ds_effect by blast
  moreover have ne: "ds_metricId ?st \<noteq> []"
    using assms(2,3) by (auto simp: select_first_metric_def)
  ultimately have "find (\<lambda>item. fst item = ds_metricId ?st) metrics \<noteq> None"
    by (auto simp: dist_ok_def find_None_iff)
  then obtain m where "selectedMetric metrics ?st = Some m"
    unfolding selectedMetric_def by blast
  then have m: "m \<in> set metrics" "fst m = ds_metricId ?st"
    by (auto simp: selectedMetric_def find_Some_iff)
  moreover have "metric_definition metrics ?st = (fst m, snd m)"
    using m ne by (simp add: metric_definition_def \<open>selectedMetric metrics ?st = Some m\<close> Let_def)
  ultimately show ?thesis using \<open>selectedMetric metrics ?st = Some m\<close> by blast
qed

end
