(* ===== verification/BoardViews.thy ===== *)
theory BoardViews
  imports PriceBoard DashboardCards AuditLog LoaderJobs Preferences
begin

text \<open>
  What two boards show: the tiles, texts and sample data of \<open>features/dashboard/pages/TreemapDemoPage.tsx\<close>,
  the heat map and the market meter of \<open>pages/MarketThermometerPage.tsx\<close>; and the button of
  \<open>components/multi-select.tsx\<close>. Texts appear by their translation keys. Chinese names are beyond the
  characters of this library: the Chinese column of the stock names is the argument \<open>zh\<close>, and the
  aliases of sectors in Chinese are left out.
\<close>

section \<open>The sample behind the tree map\<close>

text \<open>A stock of the sample: its symbol, its size and its contribution in points.\<close>

type_synonym sample_stock = "string \<times> rat \<times> rat"

definition sample_sectors :: "(string \<times> sample_stock list) list" where
  "sample_sectors =
     [(''semiconductor'',
        [(''2330'', 345 / 10, 542 / 100), (''2454'', 52 / 10, 261 / 100), (''2303'', 22 / 10, 97 / 100),
         (''3711'', 19 / 10, 58 / 100), (''3035'', 14 / 10, - (24 / 100))]),
      (''financial'',
        [(''2881'', 78 / 10, 124 / 100), (''2882'', 43 / 10, - (156 / 100)), (''2884'', 41 / 10, - (69 / 100)),
         (''2891'', 27 / 10, 36 / 100), (''2892'', 21 / 10, - (43 / 100))]),
      (''traditional'',
        [(''1301'', 28 / 10, - (131 / 100)), (''1303'', 16 / 10, - (52 / 100)), (''2002'', 15 / 10, - (88 / 100)),
         (''2207'', 14 / 10, 41 / 100), (''2412'', 33 / 10, - (192 / 100))]),
      (''other'',
        [(''2317'', 45 / 10, 188 / 100), (''2382'', 22 / 10, 73 / 100), (''2603'', 18 / 10, - (73 / 100)),
         (''2615'', 13 / 10, - (35 / 100)), (''3045'', 14 / 10, 26 / 100)])]"

definition MOCK_top :: "(nat \<times> string \<times> rat) list" where
  "MOCK_top =
     [(1, ''2330'', 542 / 100), (2, ''2454'', 261 / 100), (3, ''2317'', 188 / 100), (4, ''2881'', 124 / 100),
      (5, ''2303'', 97 / 100)]"

definition MOCK_bottom :: "(nat \<times> string \<times> rat) list" where
  "MOCK_bottom =
     [(1, ''2412'', - (192 / 100)), (2, ''2882'', - (156 / 100)), (3, ''1301'', - (131 / 100)),
      (4, ''2002'', - (88 / 100)), (5, ''2603'', - (73 / 100))]"

definition ranking_item :: "nat \<times> string \<times> rat \<Rightarrow> jsval" where
  "ranking_item i = Obj 0 [(''rank_no'', Num (Fin (of_nat (fst i)))), (''symbol'', Str (fst (snd i))),
     (''contribution_points'', Num (Fin (snd (snd i))))]"

definition displayTopFive :: "jsval list \<Rightarrow> jsval list" where
  "displayTopFive feed = ranked feed (map ranking_item MOCK_top)"

definition displayBottomFive :: "jsval list \<Rightarrow> jsval list" where
  "displayBottomFive feed = ranked feed (map ranking_item MOCK_bottom)"

definition sample_points :: "(rat \<times> string) list" where
  "sample_points = concat (map (\<lambda>s. map (\<lambda>(symbol, size, pts). (pts, symbol)) (snd s)) sample_sectors)"

section \<open>Names\<close>

definition STOCK_NAME_MAP :: "(string, string) dict" where
  "STOCK_NAME_MAP =
     [(''1301'', ''Formosa Plastics''), (''1303'', ''Nan Ya Plastics''), (''2002'', ''China Steel''),
      (''2207'', ''Hotai Motor''), (''2303'', ''UMC''), (''2317'', ''Hon Hai''), (''2330'', ''TSMC''),
      (''2382'', ''Quanta''), (''2412'', ''Chunghwa Telecom''), (''2454'', ''MediaTek''),
      (''2603'', ''Evergreen Marine''), (''2615'', ''Wan Hai''), (''2881'', ''Fubon Financial''),
      (''2882'', ''Cathay Financial''), (''2884'', ''E.Sun Financial''), (''2891'', ''CTBC Financial''),
      (''2892'', ''First Financial''), (''3035'', ''Alchip''), (''3045'', ''Taiwan Mobile''),
      (''3711'', ''ASE Technology'')]"

definition getStockName :: "(string \<Rightarrow> string) \<Rightarrow> string \<Rightarrow> LanguagePreset \<Rightarrow> string option" where
  "getStockName zh symbol locale =
     (case dict_get STOCK_NAME_MAP symbol of
        None \<Rightarrow> None
      | Some en \<Rightarrow> Some (if locale = Zh_TW then zh symbol else en))"

definition formatStockLabel :: "(string \<Rightarrow> string) \<Rightarrow> string \<Rightarrow> LanguagePreset \<Rightarrow> string" where
  "formatStockLabel zh symbol locale =
     (case getStockName zh symbol locale of
        Some stockName \<Rightarrow> if stockName \<noteq> [] then symbol @ '' '' @ stockName else symbol
      | None \<Rightarrow> symbol)"

definition SECTOR_LABEL_KEYS :: "(string, string) dict" where
  "SECTOR_LABEL_KEYS =
     [(''semiconductor'', ''dashboard.treemap.sector.semiconductor''),
      (''financial'', ''dashboard.treemap.sector.financial''),
      (''traditional'', ''dashboard.treemap.sector.traditional''),
      (''other'', ''dashboard.treemap.sector.other''),
      (''electronics'', ''dashboard.treemap.sector.electronics''),
      (''plastics'', ''dashboard.treemap.sector.plastics''), (''steel'', ''dashboard.treemap.sector.steel''),
      (''shipping'', ''dashboard.treemap.sector.shipping''), (''telecom'', ''dashboard.treemap.sector.telecom''),
      (''automobile'', ''dashboard.treemap.sector.automobile'')]"

definition SECTOR_ID_ALIASES :: "(string, string) dict" where
  "SECTOR_ID_ALIASES =
     [(''semiconductor'', ''semiconductor''), (''finance'', ''financial''), (''financial'', ''financial''),
      (''traditional'', ''traditional''), (''other'', ''other''), (''electronics'', ''electronics''),
      (''plastics'', ''plastics''), (''steel'', ''steel''), (''shipping'', ''shipping''),
      (''telecom'', ''telecom''), (''automobile'', ''automobile''), (''electronic'', ''electronics''),
      (''autos'', ''automobile''), (''auto'', ''automobile'')]"

definition getSectorLabel :: "(string \<Rightarrow> string) \<Rightarrow> string \<Rightarrow> string" where
  "getSectorLabel t sectorId =
     (let normalizedSectorId =
            (case dict_get SECTOR_ID_ALIASES (to_lower (trim sectorId)) of
               Some i \<Rightarrow> i
             | None \<Rightarrow> (case dict_get SECTOR_ID_ALIASES (trim sectorId) of Some i \<Rightarrow> i | None \<Rightarrow> sectorId))
      in case dict_get SECTOR_LABEL_KEYS normalizedSectorId of
           Some key \<Rightarrow> t key
         | None \<Rightarrow> sectorId)"

text \<open>The sample is consistent: its ranking is the ranking of its tree, and all its stocks have names.\<close>

lemma sample_ranking:
  "map (\<lambda>(n, symbol, pts). (pts, symbol)) MOCK_top = take 5 (rev (sort_key fst sample_points))"
  "map (\<lambda>(n, symbol, pts). (pts, symbol)) MOCK_bottom = take 5 (sort_key fst sample_points)"
  "map fst MOCK_top = [1, 2, 3, 4, 5]" "map fst MOCK_bottom = [1, 2, 3, 4, 5]"
  by code_simp+

lemma sample_names: "set (map snd sample_points) = fst ` set STOCK_NAME_MAP"
  by code_simp

text \<open>Every alias has a label, and case and surrounding blanks do not matter.\<close>

lemma aliases_labelled: "\<forall>a \<in> set SECTOR_ID_ALIASES. snd a \<in> fst ` set SECTOR_LABEL_KEYS"
  by code_simp

lemma to_lower_idem [simp]: "to_lower (to_lower s) = to_lower s"
proof -
  have "char_lower (char_lower c) = char_lower c" for c
  proof -
    have *: "(of_char (char_of (of_char c + 32 :: nat)) :: nat) = of_char c + 32" if "(of_char c :: nat) \<le> 222"
      using that by (simp add: of_char_of)
    show ?thesis by (auto simp: char_lower_def Let_def *)
  qed
  then show ?thesis by (simp add: to_lower_def)
qed

lemma sector_label_alias:
  assumes "dict_get SECTOR_ID_ALIASES (to_lower (trim s)) = Some i"
  shows "\<exists>key. dict_get SECTOR_LABEL_KEYS i = Some key \<and> getSectorLabel t s = t key"
proof -
  have "(to_lower (trim s), i) \<in> set SECTOR_ID_ALIASES" using assms by (rule map_of_SomeD)
  then have "i \<in> fst ` set SECTOR_LABEL_KEYS" using aliases_labelled by force
  then obtain key where "dict_get SECTOR_LABEL_KEYS i = Some key"
    by (metis domD dom_map_of_conv_image_fst)
  then show ?thesis using assms by (simp add: getSectorLabel_def)
qed

section \<open>The heat map\<close>

record heat_tile =
  ht_color :: string
  ht_symbol :: jsval
  ht_price :: string
  ht_changes :: "string \<times> string"

datatype heat_grid = Waiting | No_symbols | Tiles "heat_tile list"

definition heat_tile_of :: "(rat \<Rightarrow> string) \<Rightarrow> spot_panel \<Rightarrow> heat_tile" where
  "heat_tile_of show p =
     \<lparr>ht_color = resolvePanelToneByStrength (sp_strengthPct p) (sp_isNewHigh p) (sp_isNewLow p),
      ht_symbol = sp_symbol p, ht_price = formatLastPrice show (sp_price p),
      ht_changes = (formatSigned show (sp_priceChg p) [], formatSigned show (sp_pctChg p) ''%'')\<rparr>"

text \<open>The list of the store, if any, as its items; React shows a list of tiles in its order.\<close>

definition heat_grid_of :: "(rat \<Rightarrow> string) \<Rightarrow> jsval list option \<Rightarrow> heat_grid" where
  "heat_grid_of show latest =
     (case latest of
        None \<Rightarrow> Waiting
      | Some items \<Rightarrow> (if panels_of items = [] then No_symbols else Tiles (map (heat_tile_of show) (panels_of items))))"

definition marketStrengthPct :: "jsval \<Rightarrow> rat option" where
  "marketStrengthPct l = finite_of (js_get l ''market_strength_pct'')"

definition marketStrengthCount :: "jsval \<Rightarrow> rat" where
  "marketStrengthCount l = or_num (finite_of (js_get l ''market_strength_count'')) 0"

definition strength_score :: "(rat \<Rightarrow> string) \<Rightarrow> jsval \<Rightarrow> string" where
  "strength_score show l =
     (case marketStrengthPct l of None \<Rightarrow> ''--'' | Some x \<Rightarrow> formatSigned show (Some x) [] @ ''%'')"

definition strength_count ::
  "(rat \<Rightarrow> string) \<Rightarrow> (string \<Rightarrow> (string, string) dict option \<Rightarrow> string) \<Rightarrow> jsval \<Rightarrow> string" where
  "strength_count show_num t l =
     (if marketStrengthCount l > 0
      then t ''dashboard.thermometer.symbolsCount'' (Some [(''count'', show_num (marketStrengthCount l))])
      else t ''dashboard.thermometer.noSymbols'' None)"

lemma panels_in_order:
  "panels_of items = map (the \<circ> panel_of) (filter (\<lambda>i. panel_of i \<noteq> None) items)"
  by (induction items) (auto simp: panels_of_def)

text \<open>
  One tile per item with a price, in the order of the feed; its colour is that of a new high, a new
  low, or of its strength from 80 up, to 20 down, and the card's own in between.
\<close>

theorem heat_map_tiles:
  assumes "heat_grid_of show (Some items) = Tiles tiles" and "i < length tiles"
  shows "length tiles = length (filter (\<lambda>i. panel_of i \<noteq> None) items)
    \<and> (\<exists>p. panel_of (filter (\<lambda>i. panel_of i \<noteq> None) items ! i) = Some p
        \<and> ht_symbol (tiles ! i) = js_get (filter (\<lambda>i. panel_of i \<noteq> None) items ! i) ''symbol''
        \<and> ht_color (tiles ! i) =
            (if sp_isNewHigh p then ''crimson'' else if sp_isNewLow p then ''green''
             else case sp_strengthPct p of
                 Some x \<Rightarrow> if 80 \<le> x then ''red'' else if x \<le> 20 then ''forestgreen'' else ''var(--card)''
               | None \<Rightarrow> ''var(--card)''))"
proof -
  let ?xs = "filter (\<lambda>i. panel_of i \<noteq> None) items"
  have t: "tiles = map (heat_tile_of show \<circ> the \<circ> panel_of) ?xs"
    using assms(1) by (auto simp: heat_grid_of_def panels_in_order split: if_splits)
  then have i: "i < length ?xs" using assms(2) by simp
  then have "?xs ! i \<in> set ?xs" by (rule nth_mem)
  then obtain p where p: "panel_of (?xs ! i) = Some p" by auto
  then have "sp_symbol p = js_get (?xs ! i) ''symbol''" by (auto simp: panel_of_def split: option.splits)
  with p i show ?thesis
    by (simp add: t heat_tile_of_def resolvePanelToneByStrength_def resolvePanelToneByStrengthState_def
        resolveHeatStrengthState_def Let_def split: option.split)
qed

section \<open>Tooltips and selections\<close>

definition participant_tooltip :: "(rat \<Rightarrow> string) \<Rightarrow> string \<Rightarrow> jsnum \<Rightarrow> string \<Rightarrow> string \<times> string" where
  "participant_tooltip show unit v name =
     (formatAmplitude show unit v,
      if name = ''ma3'' then ''dashboard.realtime.participantSignals.legend.threeDay''
      else if name = ''ma5'' then ''dashboard.realtime.participantSignals.legend.fiveDay''
      else if name = ''ma10'' then ''dashboard.realtime.participantSignals.legend.tenDay''
      else ''dashboard.realtime.participantSignals.legend.daily'')"

definition selectedOptions :: "(string \<times> string) list \<Rightarrow> string list \<Rightarrow> (string \<times> string) list" where
  "selectedOptions options v = filter (\<lambda>opt. snd opt \<in> set v) options"

fun join_labels :: "string list \<Rightarrow> string" where
  "join_labels [] = []"
| "join_labels [l] = l"
| "join_labels (l # m # ls) = l @ '', '' @ join_labels (m # ls)"

definition multi_select_text :: "string \<Rightarrow> nat \<Rightarrow> (string \<times> string) list \<Rightarrow> string list \<Rightarrow> string" where
  "multi_select_text placeholder maxCount options v =
     (let selected = selectedOptions options v
      in if selected = [] then placeholder
         else if length selected > maxCount then string_of_nat (length selected) @ '' selected''
         else join_labels (map fst selected))"

text \<open>
  With options of distinct values, toggling one changes the number of options shown as selected by
  one, and toggling it again shows the same text.
\<close>

lemma toggle_selects:
  assumes "distinct (map snd options)" and "opt \<in> set options"
  shows "set (selectedOptions options (toggleOption (snd opt) v)) =
           (if snd opt \<in> set v then set (selectedOptions options v) - {opt}
            else insert opt (set (selectedOptions options v)))"
    and "multi_select_text ph n options (toggleOption (snd opt) (toggleOption (snd opt) v)) = multi_select_text ph n options v"
proof -
  have inj: "snd x = snd opt \<longleftrightarrow> x = opt" if "x \<in> set options" for x
    using assms that by (metis distinct_map inj_on_def)
  show "set (selectedOptions options (toggleOption (snd opt) v)) =
           (if snd opt \<in> set v then set (selectedOptions options v) - {opt}
            else insert opt (set (selectedOptions options v)))"
  proof (rule set_eqI)
    fix x
    show "x \<in> set (selectedOptions options (toggleOption (snd opt) v)) \<longleftrightarrow>
        x \<in> (if snd opt \<in> set v then set (selectedOptions options v) - {opt}
              else insert opt (set (selectedOptions options v)))"
    proof (cases "x \<in> set options")
      case True
      then show ?thesis using inj [OF True] by (simp add: selectedOptions_def toggleOption_def)
    next
      case False
      then show ?thesis using assms(2) by (auto simp: selectedOptions_def)
    qed
  qed
  have "set (toggleOption x (toggleOption x v)) = set v" for x
    by (auto simp: toggleOption_def)
  then show "multi_select_text ph n options (toggleOption (snd opt) (toggleOption (snd opt) v)) = multi_select_text ph n options v"
    by (simp add: multi_select_text_def selectedOptions_def)
qed

end
