(* ===== verification/Spec2Isabelle.thy ===== *)
theory Spec2Isabelle
  imports SseFraming DashboardQueries DashboardCards AppSession EstimatedVolume Participant MarketIndex
    LoaderJobs ShellNavigation Signup Checkout AuditLog PriceBoard
    Sidebar AnalyticsViews BoardViews
begin

text \<open>
  Verification library of the trading monitoring dashboard: its TypeScript frontend,
  \<open>src/apps/frontend/src\<close>. Paths below are relative to that directory.

  \<^bold>\<open>The program.\<close> A single-page application shows market data. After a login
  (\<open>features/auth\<close>, \<open>lib/store/auth-store.ts\<close>) it opens one stream of server-sent events
  (\<open>features/realtime\<close>), keeps the latest value of everything the stream delivers in one store, and
  draws charts that join the day's baseline, asked for over HTTP, with what the store receives
  (\<open>features/dashboard\<close>). Beside that there are analytics pages, an audit log and a data loader for
  administrators, the purchase of a subscription, and the shell with its navigation, sidebar and
  preferences. The parts meet in a few places: the session decides which page a route shows and
  whether the stream runs; the stream, its mock and the distribution's baseline write the store; the charts are functions of store and baseline; every request goes through one client.

  \<^bold>\<open>Conventions.\<close> A definition has the name of what it models; components of objects are record
  fields, unions are datatypes, \<open>null\<close> and \<open>undefined\<close> are \<open>None\<close> where they act alike. An operation
  maps the state before to the state after, a handler contains every write it makes. A thrown error
  is a \<open>js_error\<close>, or \<open>None\<close> where the program does not look at it. React components are state
  machines over their renders: an effect runs when its dependencies differ from those it last ran
  with. Loops are structural, terminate by a measure, or are a \<open>while_option\<close> that is proved to end (the
  worker's splitter); no fuel is used anywhere, so every operation is total. Run-time data of unknown shape is a \<open>jsval\<close>, with the identity of objects and arrays
  where the program compares or shares them.

  \<^bold>\<open>Theories.\<close>

  \<^item> \<open>Prelude\<close>: insertion-ordered dictionaries (objects, \<open>Map\<close>), searching, and \<open>invariant_of\<close>, the
    interface of a state machine with an invariant; every state machine below interprets it.
  \<^item> \<open>JsValue\<close>: numbers with NaN and infinities, strings, run-time values, \<open>===\<close>, \<open>??\<close>, truthiness,
    property access, the order of object keys.
  \<^item> \<open>UrlEncoding\<close>: \<open>encodeURIComponent\<close>, \<open>URLSearchParams\<close>, and how an address is read: dots resolved by
    \<open>fetch\<close>, the path decoded by the server before its route is looked up.
  \<^item> \<open>TaipeiClock\<close>: calendar time, the Taipei zone, ISO dates, \<open>Date.parse\<close>.
  \<^item> \<open>SseFraming\<close>: \<open>splitSseBuffer\<close>, \<open>parseSseFrame\<close> of \<open>realtime-manager.ts\<close>, and the backend's
    message writer. Chunking does not matter, messages round-trip.
  \<^item> \<open>SessionGate\<close>, \<open>ServingSchemas\<close>, \<open>SseBatch\<close>, \<open>BatchLaws\<close>: the trading-hours gate and its cache, the
    event schemas, the collector and the pending batch. The gate is the wall clock; merging batches
    keeps the last value (interface \<open>coalescing\<close>).
  \<^item> \<open>RealtimeStore\<close>, \<open>StoreLaws\<close>, \<open>DistributionSeries\<close>: the store with its in-place series; what a
    batch changes, idempotence, the window of the last 600 points.
  \<^item> \<open>RealtimeManager\<close>, \<open>ManagerLaws\<close>, \<open>SseWorker\<close>, \<open>SpotMock\<close>: the connection manager as a step relation
    over tasks, timers and worker messages; the worker's reader, translated from its own text and shown
    equal to the manager's; the mock feed. One
    stream at a time, no stream after a disconnect, never silently idle, the reconnection delays.
  \<^item> \<open>ApiClient\<close>: transport check, requests, error mapping, the dashboard's requests.
  \<^item> \<open>Session\<close>: tokens, roles, entitlement, bootstrap, the route guard and the route table.
    Addresses match routes without regard to case and slashes at their end.
    \<open>AppSession\<close> composes session, \<open>RealtimeBootstrap\<close>, manager and the baseline hook of the market
    distribution: the stream follows the session, and a logout empties the store, into which afterwards
    only that hook can write.
  \<^item> \<open>Timeline\<close>: \<open>timeline-helpers.ts\<close>, with the interface \<open>timeline\<close>: a patched series is an updated
    sorted map. Interpreted by each series of \<open>OrderFlow\<close>, \<open>TimelineHooks\<close>, \<open>EstimatedVolume\<close>,
    \<open>Participant\<close> and \<open>MarketIndex\<close>, which model the mappers and hooks of the dashboard.
  \<^item> \<open>ChartData\<close> (interface \<open>rolling\<close>), \<open>Figures\<close>, \<open>DashboardCards\<close>, \<open>DashboardQueries\<close>, \<open>PriceBoard\<close>,
    \<open>BoardViews\<close>: what the cards draw and write, their queries, the price boards and the tree map.
  \<^item> \<open>Analytics\<close>, \<open>AnalyticsPages\<close>, \<open>AnalyticsViews\<close>: requests and schemas, the pages' filters, paging and
    histograms, and what they show of errors and answers.
  \<^item> \<open>Signup\<close>, \<open>Checkout\<close>, \<open>AuditLog\<close>, \<open>LoaderJobs\<close>: accounts and billing portal, payment, audit log,
    data loader.
  \<^item> \<open>ShellNavigation\<close>, \<open>Preferences\<close>, \<open>Sidebar\<close>: navigation with its loading mark, language and
    colour mode with their storage, the sidebar with its links and the trail in the header.

  \<^bold>\<open>The properties\<close>, labelled C1 and so on where they stand, are of these kinds: invariants of the
  reachable states of each state machine, and safety and liveness drawn from them; refinement of
  abstract specifications (a window of points, a sorted map, the last value per key); equivalence
  of two implementations of the same thing (patch and rebuild, worker and manager); round trips
  (frames, tokens, addresses, figures, filters); what every error path ends in; bounds of what is
  drawn or asked for; and that loading ends.

  \<^bold>\<open>Parameters.\<close> What is not in the repository is an argument: \<open>JSON.parse\<close>, the parser of the schema
  library (with the law that what it accepts conforms), the network and the server's answers, URL
  parsing of hosts, \<open>String\<close> on numbers, \<open>Date.parse\<close> outside ISO forms, local clock and number
  formats, \<open>Math.sin\<close>, the router's arrival at an address, what React Query's cache holds, the
  rectangles of the chart library, and the e-mail pattern of the schema library. The catalogue of texts
  (\<open>lib/i18n/messages.ts\<close>) is an argument too. Numbers are rationals: rounding and overflow of
  doubles are not modelled. Strings hold characters below 256.

  \<^bold>\<open>Not modelled.\<close> Markup and styles, and the component library of \<open>components/ui\<close> but for the sidebar
  and the alert: no state of the program. The charts drawn from fixed sample data and the needle
  gauges, the globe of the sign-up pages, and \<open>features/settings/pages/SettingsPage.tsx\<close>, which no
  route mounts. The branches of the connection manager for test environments. The backend, except
  for its message writer and the paths of its analytics routes: it is Python, behind the network. Further limits stand with each theory.
\<close>

end
